(* ===== verification/Prelude.thy ===== *)
theory Prelude
  imports Main "HOL-Library.Word"
begin

unbundle bit_operations_syntax

text \<open>
  Shared vocabulary of the development: the C++ integer types at their widths, the ways a C++
  operation can go wrong as values of a datatype, memory as lists of bytes with checked copies, and
  the little-endian object representation of unsigned integers.

  The program is built for 64-bit Windows (the binaries shipped with it are x64), so \<open>size_t\<close> and
  pointers are 64 bits wide and integers are stored with the least significant byte first.
\<close>

section \<open>Machine types\<close>

type_synonym u8 = "8 word"
type_synonym u16 = "16 word"
type_synonym u32 = "32 word"
type_synonym u64 = "64 word"
type_synonym size_t = "64 word"
type_synonym bytes = "u8 list"

text \<open>Signed integers are kept as bit patterns of the same width and read with \<^const>\<open>sint\<close>.\<close>

type_synonym i16 = "16 word"
type_synonym i32 = "32 word"
type_synonym i64 = "64 word"

text \<open>Addresses of the C++ heap; the null pointer is address 0.\<close>

type_synonym addr = "64 word"

abbreviation (input) NULL :: addr where
  "NULL \<equiv> 0"

section \<open>Lemma collections\<close>

text \<open>
  \<open>mem_simps\<close> evaluates checked copies; \<open>enc_simps\<close> evaluates object representations;
  \<open>size_simps\<close> moves size arithmetic from \<open>size_t\<close> to natural numbers.
\<close>

named_theorems mem_simps "checked reads and writes of byte memory"
named_theorems enc_simps "lengths and inverses of object representations"
named_theorems size_simps "size arithmetic that does not wrap around"

section \<open>Faults\<close>

text \<open>
  What the source leaves to the C++ runtime: a copy outside an object, a use of a null pointer or
  of an empty \<open>boost::optional\<close>, the exception \<open>std::string::resize\<close> throws, and any other exception
  that leaves the function that raised it.
\<close>

datatype fault = Out_Of_Bounds | Null_Pointer | Empty_Optional | Length_Error | Uncaught_Exception | Assertion_Failed

type_synonym 'a result = "fault + 'a"

definition bind_result :: "'a result \<Rightarrow> ('a \<Rightarrow> 'b result) \<Rightarrow> 'b result" where
  "bind_result r k = (case r of Inl e \<Rightarrow> Inl e | Inr x \<Rightarrow> k x)"

lemma bind_result_simps [simp]:
  "bind_result (Inl e) k = Inl e"
  "bind_result (Inr x) k = k x"
  by (simp_all add: bind_result_def)

lemma bind_result_eq_Inr_iff:
  "bind_result r k = Inr y \<longleftrightarrow> (\<exists>x. r = Inr x \<and> k x = Inr y)"
  by (cases r) auto

section \<open>Byte memory\<close>

text \<open>
  An object or buffer is the list of its bytes. \<open>mem_read\<close> and \<open>mem_write\<close> are what
  \<open>memcpy\<close> does on one side of the copy, with the accesses outside the object made a fault.
\<close>

definition mem_read :: "bytes \<Rightarrow> nat \<Rightarrow> nat \<Rightarrow> bytes result" where
  "mem_read m off n = (if off + n \<le> length m then Inr (take n (drop off m)) else Inl Out_Of_Bounds)"

definition mem_write :: "bytes \<Rightarrow> nat \<Rightarrow> bytes \<Rightarrow> bytes result" where
  "mem_write m off bs =
     (if off + length bs \<le> length m then Inr (take off m @ bs @ drop (off + length bs) m)
      else Inl Out_Of_Bounds)"

lemma mem_read_ok [mem_simps]: "off + n \<le> length m \<Longrightarrow> mem_read m off n = Inr (take n (drop off m))"
  by (simp add: mem_read_def)

lemma mem_write_ok [mem_simps]:
  "off + length bs \<le> length m \<Longrightarrow> mem_write m off bs = Inr (take off m @ bs @ drop (off + length bs) m)"
  by (simp add: mem_write_def)

lemma mem_read_Inr_iff:
  "mem_read m off n = Inr bs \<longleftrightarrow> off + n \<le> length m \<and> bs = take n (drop off m)"
  by (auto simp: mem_read_def)

lemma mem_read_length: "mem_read m off n = Inr bs \<Longrightarrow> length bs = n"
  by (auto simp: mem_read_Inr_iff)

lemma mem_write_Inr_iff:
  "mem_write m off bs = Inr m' \<longleftrightarrow>
     off + length bs \<le> length m \<and> m' = take off m @ bs @ drop (off + length bs) m"
  by (auto simp: mem_write_def)

lemma mem_write_length: "mem_write m off bs = Inr m' \<Longrightarrow> length m' = length m"
  by (auto simp: mem_write_Inr_iff)

text \<open>A read sees what the last write put there, and nothing outside it changes.\<close>

lemma mem_read_write_same:
  "mem_write m off bs = Inr m' \<Longrightarrow> mem_read m' off (length bs) = Inr bs"
  by (auto simp: mem_write_Inr_iff mem_read_def)

lemma mem_read_write_before:
  assumes "mem_write m off bs = Inr m'" and "a + n \<le> off"
  shows "mem_read m' a n = mem_read m a n"
proof -
  have m': "m' = take off m @ bs @ drop (off + length bs) m" and le: "off + length bs \<le> length m"
    using assms(1) by (auto simp: mem_write_Inr_iff)
  have "take n (drop a m') = take n (drop a (take off m))"
    using assms(2) le by (simp add: m')
  also have "\<dots> = take n (drop a m)"
    using assms(2) by (simp add: drop_take min_def)
  finally show ?thesis
    using assms(2) le m' by (simp add: mem_read_def)
qed

lemma mem_nth_write:
  assumes "mem_write m off bs = Inr m'" and "i < length m"
  shows "m' ! i = (if off \<le> i \<and> i < off + length bs then bs ! (i - off) else m ! i)"
  using assms by (auto simp: mem_write_Inr_iff nth_append min_def)

section \<open>Object representation of unsigned integers\<close>

text \<open>
  \<open>le_bytes n w\<close> is the object representation of an \<open>n\<close>-byte unsigned integer;
  \<open>le_word\<close> reads it back.
\<close>

primrec le_bytes :: "nat \<Rightarrow> 'a::len word \<Rightarrow> bytes" where
  "le_bytes 0 w = []"
| "le_bytes (Suc n) w = ucast w # le_bytes n (drop_bit 8 w)"

primrec le_word :: "bytes \<Rightarrow> 'a::len word" where
  "le_word [] = 0"
| "le_word (b # bs) = ucast b OR push_bit 8 (le_word bs)"

lemma length_le_bytes [simp, enc_simps]: "length (le_bytes n w) = n"
  by (induction n arbitrary: w) simp_all

lemma le_bytes_nth: "i < n \<Longrightarrow> le_bytes n w ! i = ucast (drop_bit (8 * i) w)"
proof (induction n arbitrary: w i)
  case 0
  then show ?case by simp
next
  case (Suc n)
  then show ?case
    by (cases i) (simp_all add: add.commute drop_bit_drop_bit)
qed

lemma bit_le_word:
  "bit (le_word bs :: 'a::len word) k \<longleftrightarrow>
     k < LENGTH('a) \<and> k div 8 < length bs \<and> bit (bs ! (k div 8)) (k mod 8)"
proof (induction bs arbitrary: k)
  case Nil
  then show ?case by simp
next
  case (Cons b bs)
  show ?case
  proof (cases "k < 8")
    case True
    then show ?thesis
      by (auto simp: bit_simps)
  next
    case False
    then obtain j where j: "k = j + 8"
      by (metis add.commute le_Suc_ex not_less)
    have "\<not> bit b k"
      using False bit_imp_le_length[of b k] by auto
    moreover have "(j + 8) div 8 = Suc (j div 8)"
      by simp
    ultimately show ?thesis
      using Cons.IH[of j] by (auto simp: bit_simps j)
  qed
qed

lemma le_word_le_bytes [enc_simps]:
  assumes "LENGTH('a) \<le> 8 * n"
  shows "le_word (le_bytes n w) = (w :: 'a::len word)"
proof (rule bit_word_eqI)
  fix k
  assume k: "k < LENGTH('a)"
  then have "k div 8 < n"
    using assms by auto
  then show "bit (le_word (le_bytes n w) :: 'a word) k \<longleftrightarrow> bit w k"
    using k by (simp add: bit_le_word le_bytes_nth bit_simps)
qed

lemma le_bytes_le_word [enc_simps]:
  assumes "8 * length bs \<le> LENGTH('a)"
  shows "le_bytes (length bs) (le_word bs :: 'a::len word) = bs"
proof (rule nth_equalityI)
  fix i
  assume "i < length (le_bytes (length bs) (le_word bs :: 'a word))"
  then have i: "i < length bs" by simp
  show "le_bytes (length bs) (le_word bs :: 'a word) ! i = bs ! i"
  proof (rule bit_word_eqI)
    fix k
    assume k: "k < LENGTH(8)"
    then have "(8 * i + k) div 8 = i" "(8 * i + k) mod 8 = k" "8 * i + k < LENGTH('a)"
      using i assms by auto
    then show "bit (le_bytes (length bs) (le_word bs :: 'a word) ! i) k \<longleftrightarrow> bit (bs ! i) k"
      using i k by (simp add: le_bytes_nth bit_simps bit_le_word)
  qed
qed simp

lemma le_bytes_inj: "LENGTH('a) \<le> 8 * n \<Longrightarrow> le_bytes n v = le_bytes n w \<longleftrightarrow> v = (w :: 'a::len word)"
  by (metis le_word_le_bytes)

text \<open>The representations of the widths the program uses, for evaluation on concrete values.\<close>

lemma le_bytes_1: "le_bytes 1 w = [ucast w]"
  by simp

lemma le_bytes_2: "le_bytes 2 w = [ucast w, ucast (drop_bit 8 w)]"
  by (simp add: numeral_eq_Suc)

lemma le_bytes_4:
  "le_bytes 4 w = [ucast w, ucast (drop_bit 8 w), ucast (drop_bit 16 w), ucast (drop_bit 24 w)]"
  by (simp add: numeral_eq_Suc drop_bit_drop_bit)

lemma le_bytes_8:
  "le_bytes 8 w = [ucast w, ucast (drop_bit 8 w), ucast (drop_bit 16 w), ucast (drop_bit 24 w),
     ucast (drop_bit 32 w), ucast (drop_bit 40 w), ucast (drop_bit 48 w), ucast (drop_bit 56 w)]"
  by (simp add: numeral_eq_Suc drop_bit_drop_bit)

lemmas le_bytes_eval = le_bytes_1 le_bytes_2 le_bytes_4 le_bytes_8

section \<open>Size arithmetic\<close>

lemma unat_add_nowrap [size_simps]:
  "unat a + unat b < 2 ^ LENGTH('a) \<Longrightarrow> unat (a + b :: 'a::len word) = unat a + unat b"
  by (simp add: unat_word_ariths)

lemma unat_of_nat_size [size_simps]: "n < 2 ^ 64 \<Longrightarrow> unat (of_nat n :: size_t) = n"
  by (simp add: unat_of_nat take_bit_nat_eq_self)

lemma unat_size_less: "unat (a :: size_t) < 2 ^ 64"
  using unsigned_less[of a] by simp

lemma unat_u32_less: "unat (a :: u32) < 2 ^ 32"
  using unsigned_less[of a] by simp

lemma unat_size_of_u32 [size_simps]: "unat (ucast (a :: u32) :: size_t) = unat a"
  using unat_u32_less[of a] by (simp add: unsigned_ucast_eq take_bit_nat_eq_self)

lemma unat_u32_of_u16 [size_simps]: "unat (ucast (a :: u16) :: u32) = unat a"
  using unsigned_less[of a, where 'a = nat] by (simp add: unsigned_ucast_eq take_bit_nat_eq_self)

lemma unat_size_max: "unat (- 1 :: size_t) = 2 ^ 64 - 1"
  by (simp add: unsigned_minus_1_eq_mask mask_eq_exp_minus_1)

lemma unat_neg_of_nat: "0 < k \<Longrightarrow> k < 2 ^ 64 \<Longrightarrow> unat (- of_nat k :: size_t) = 2 ^ 64 - k"
  using unat_sub_if_size[of 0 "of_nat k :: size_t"] by (simp add: unat_of_nat_size word_size)

lemma size_less_iff: "(a :: size_t) < b \<longleftrightarrow> unat a < unat b"
  by (rule word_less_nat_alt)

lemma size_le_iff: "(a :: size_t) \<le> b \<longleftrightarrow> unat a \<le> unat b"
  by (rule word_le_nat_alt)

end
