(* ===== verification/Byte_Order.thy ===== *)
theory Byte_Order
  imports Prelude
begin

text \<open>
  The class \<open>ByteOrder\<close> (include/util/byte_order.h, src/lib/byte_order.cpp): conversion between
  host and network byte order, one pair of functions per width and signedness. The conversions are
  compiled in only when the macro \<open>_ENABLE\<close> is defined (the Visual Studio project of the library
  defines it, the CMake build does not), so each definition takes the macro as a Boolean.

  The signed overloads work on the same bit pattern as the unsigned ones; the right shift of the
  signed 64-bit overload is arithmetic.
\<close>

section \<open>The platform's conversions\<close>

text \<open>
  \<open>ntohl\<close>, \<open>htonl\<close>, \<open>ntohs\<close> and \<open>htons\<close> on a host that stores the least significant
  byte first reverse the bytes.
\<close>

definition bswap :: "nat \<Rightarrow> 'a::len word \<Rightarrow> 'a word" where
  "bswap n w = le_word (rev (le_bytes n w))"

abbreviation ntohl :: "u32 \<Rightarrow> u32" where "ntohl \<equiv> bswap 4"
abbreviation htonl :: "u32 \<Rightarrow> u32" where "htonl \<equiv> bswap 4"
abbreviation ntohs :: "u16 \<Rightarrow> u16" where "ntohs \<equiv> bswap 2"
abbreviation htons :: "u16 \<Rightarrow> u16" where "htons \<equiv> bswap 2"

section \<open>network\_to\_host\<close>

definition network_to_host_u64 :: "bool \<Rightarrow> u64 \<Rightarrow> u64" where
  "network_to_host_u64 en value =
     (if en then push_bit 32 (ucast (ntohl (ucast value))) + ucast (ntohl (ucast (drop_bit 32 value)))
      else value)"

definition network_to_host_i64 :: "bool \<Rightarrow> i64 \<Rightarrow> i64" where
  "network_to_host_i64 en value =
     (if en then push_bit 32 (ucast (ntohl (ucast value))) + ucast (ntohl (ucast (signed_drop_bit 32 value)))
      else value)"

definition network_to_host_u32 :: "bool \<Rightarrow> u32 \<Rightarrow> u32" where
  "network_to_host_u32 en value = (if en then ntohl value else value)"

definition network_to_host_i32 :: "bool \<Rightarrow> i32 \<Rightarrow> i32" where
  "network_to_host_i32 en value = (if en then ntohl value else value)"

definition network_to_host_u16 :: "bool \<Rightarrow> u16 \<Rightarrow> u16" where
  "network_to_host_u16 en value = (if en then ntohs value else value)"

definition network_to_host_i16 :: "bool \<Rightarrow> i16 \<Rightarrow> i16" where
  "network_to_host_i16 en value = (if en then ntohs value else value)"

section \<open>host\_to\_network\<close>

definition host_to_network_u64 :: "bool \<Rightarrow> u64 \<Rightarrow> u64" where
  "host_to_network_u64 en value =
     (if en then push_bit 32 (ucast (htonl (ucast value))) + ucast (htonl (ucast (drop_bit 32 value)))
      else value)"

definition host_to_network_i64 :: "bool \<Rightarrow> i64 \<Rightarrow> i64" where
  "host_to_network_i64 en value =
     (if en then push_bit 32 (ucast (htonl (ucast value))) + ucast (htonl (ucast (signed_drop_bit 32 value)))
      else value)"

definition host_to_network_u32 :: "bool \<Rightarrow> u32 \<Rightarrow> u32" where
  "host_to_network_u32 en value = (if en then htonl value else value)"

definition host_to_network_i32 :: "bool \<Rightarrow> i32 \<Rightarrow> i32" where
  "host_to_network_i32 en value = (if en then htonl value else value)"

definition host_to_network_u16 :: "bool \<Rightarrow> u16 \<Rightarrow> u16" where
  "host_to_network_u16 en value = (if en then htons value else value)"

definition host_to_network_i16 :: "bool \<Rightarrow> i16 \<Rightarrow> i16" where
  "host_to_network_i16 en value = (if en then htons value else value)"

lemmas byte_order_defs =
  network_to_host_u64_def network_to_host_i64_def network_to_host_u32_def
  network_to_host_i32_def network_to_host_u16_def network_to_host_i16_def
  host_to_network_u64_def host_to_network_i64_def host_to_network_u32_def
  host_to_network_i32_def host_to_network_u16_def host_to_network_i16_def

section \<open>Byte reversal\<close>

lemma le_bytes_bswap:
  assumes "8 * n = LENGTH('a)"
  shows "le_bytes n (bswap n (w :: 'a::len word)) = rev (le_bytes n w)"
  using le_bytes_le_word[where 'a = 'a and bs = "rev (le_bytes n w)"] assms
  by (simp add: bswap_def)

lemma bswap_bswap [simp]:
  assumes "8 * n = LENGTH('a)"
  shows "bswap n (bswap n w) = (w :: 'a::len word)"
  unfolding bswap_def[of n "bswap n w"]
  by (simp add: le_bytes_bswap[OF assms] le_word_le_bytes assms[symmetric])

lemma bswap_involution [simp]:
  "bswap 2 (bswap 2 (w :: u16)) = w"
  "bswap 4 (bswap 4 (v :: u32)) = v"
  "bswap 8 (bswap 8 (u :: u64)) = u"
  by simp_all

text \<open>The arithmetic shift of the signed overload is cut back to 32 bits, so its sign fill is lost.\<close>

lemma ucast_signed_drop_bit_32: "(ucast (signed_drop_bit 32 (v :: u64)) :: u32) = ucast (drop_bit 32 v)"
  by (rule bit_word_eqI) (auto simp: bit_simps)

lemma bit_bswap:
  assumes "8 * n = LENGTH('a)" and "k < LENGTH('a)"
  shows "bit (bswap n (w :: 'a::len word)) k \<longleftrightarrow> bit w (8 * (n - Suc (k div 8)) + k mod 8)"
proof -
  have k: "k div 8 < n" using assms by auto
  then have "rev (le_bytes n w) ! (k div 8) = ucast (drop_bit (8 * (n - Suc (k div 8))) w)"
    by (simp add: rev_nth le_bytes_nth)
  moreover have "k mod 8 < LENGTH(8)" by simp
  ultimately show ?thesis
    using k assms by (simp add: bswap_def bit_le_word bit_ucast_iff bit_drop_bit_eq)
qed

lemma high_low_disjoint:
  "push_bit 32 (ucast (a :: u32) :: u64) + ucast (b :: u32) = push_bit 32 (ucast a) OR ucast b"
proof -
  have "push_bit 32 (ucast a :: u64) AND ucast b = 0"
    by (rule bit_word_eqI) (auto simp: bit_simps dest: bit_imp_le_length)
  then show ?thesis by (rule disjunctive_add_eq_or)
qed

text \<open>
  The 64-bit conversion swaps two 32-bit conversions; that is the reversal of all eight bytes.
\<close>

lemma swap_halves_is_bswap:
  "push_bit 32 (ucast (bswap 4 (ucast v :: u32))) + ucast (bswap 4 (ucast (drop_bit 32 v) :: u32))
     = bswap 8 (v :: u64)"
proof (rule bit_word_eqI)
  fix k
  assume k: "k < LENGTH(64)"
  show "bit (push_bit 32 (ucast (bswap 4 (ucast v :: u32))) + ucast (bswap 4 (ucast (drop_bit 32 v) :: u32)) :: u64) k
        \<longleftrightarrow> bit (bswap 8 v) k"
  proof (cases "k < 32")
    case True
    have "32 + (8 * (3 - k div 8) + k mod 8) = 8 * (7 - k div 8) + k mod 8"
      using True by auto
    then have "bit v (32 + (8 * (3 - k div 8) + k mod 8)) = bit v (8 * (7 - k div 8) + k mod 8)"
      by (rule arg_cong)
    moreover have "8 * (4 - Suc (k div 8)) + k mod 8 < 32"
      using True by presburger
    ultimately show ?thesis
      using True k
      by (simp add: high_low_disjoint bit_simps bit_bswap)
  next
    case False
    define j where "j = k - 32"
    have j: "k = 32 + j" "j < 32" using False k by (auto simp: j_def)
    then have "k div 8 = 4 + j div 8" "k mod 8 = j mod 8"
      using mod_mult_self4[of 8 4 j] by simp_all
    then have "8 * (4 - Suc (j div 8)) + j mod 8 = 8 * (8 - Suc (k div 8)) + k mod 8"
      by simp
    moreover have "8 * (4 - Suc (j div 8)) + j mod 8 < 32"
      using j by presburger
    moreover have "\<not> bit (bswap 4 (ucast (drop_bit 32 v) :: u32)) (32 + j)"
      using bit_imp_le_length by force
    ultimately show ?thesis
      using j by (simp add: high_low_disjoint bit_simps bit_bswap)
  qed
qed

section \<open>The conversions as byte reversal\<close>

lemma wide_conversions_bswap [simp]:
  "network_to_host_u64 en v = (if en then bswap 8 v else v)"
  "host_to_network_u64 en v = (if en then bswap 8 v else v)"
  "network_to_host_i64 en v = (if en then bswap 8 v else v)"
  "host_to_network_i64 en v = (if en then bswap 8 v else v)"
  by (simp_all add: byte_order_defs ucast_signed_drop_bit_32 swap_halves_is_bswap)

section \<open>The contract of a conversion pair\<close>

text \<open>
  What the packet code relies on: the two directions undo each other. A field of \<open>width\<close> bytes is
  written as the object representation of the converted value and read back by converting the
  value of the bytes; inside the contract that is a round trip.
\<close>

locale byte_order_pair =
  fixes ntoh :: "'a::len word \<Rightarrow> 'a word"
    and hton :: "'a::len word \<Rightarrow> 'a word"
    and width :: nat
  assumes ntoh_hton: "ntoh (hton v) = v"
    and hton_ntoh: "hton (ntoh v) = v"
    and width_bits: "8 * width = LENGTH('a)"
begin

lemma hton_inject: "hton v = hton w \<longleftrightarrow> v = w"
  by (metis ntoh_hton)

lemma field_roundtrip: "ntoh (le_word (le_bytes width (hton v))) = v"
  by (simp add: le_word_le_bytes ntoh_hton width_bits[symmetric])

lemma field_roundtrip_bytes: "length bs = width \<Longrightarrow> le_bytes width (hton (ntoh (le_word bs))) = bs"
  using le_bytes_le_word[where 'a = 'a and bs = bs] width_bits by (simp add: hton_ntoh)

end

interpretation bo_u64: byte_order_pair "network_to_host_u64 en" "host_to_network_u64 en" 8 for en
  by unfold_locales simp_all

interpretation bo_i64: byte_order_pair "network_to_host_i64 en" "host_to_network_i64 en" 8 for en
  by unfold_locales simp_all

interpretation bo_u32: byte_order_pair "network_to_host_u32 en" "host_to_network_u32 en" 4 for en
  by unfold_locales (simp_all add: byte_order_defs)

interpretation bo_i32: byte_order_pair "network_to_host_i32 en" "host_to_network_i32 en" 4 for en
  by unfold_locales (simp_all add: byte_order_defs)

interpretation bo_u16: byte_order_pair "network_to_host_u16 en" "host_to_network_u16 en" 2 for en
  by unfold_locales (simp_all add: byte_order_defs)

interpretation bo_i16: byte_order_pair "network_to_host_i16 en" "host_to_network_i16 en" 2 for en
  by unfold_locales (simp_all add: byte_order_defs)

section \<open>Properties\<close>

text \<open>
  C27. With the conversions compiled in, the 64-bit conversion, which swaps two 32-bit conversions,
  puts the bytes of the value in the opposite order; the signed overload, with its arithmetic
  shift, gives the same bits.
\<close>

theorem network_to_host_64_reverses_bytes:
  "le_bytes 8 (network_to_host_u64 True v) = rev (le_bytes 8 v) \<and>
   network_to_host_i64 True v = network_to_host_u64 True v \<and>
   host_to_network_u64 True v = network_to_host_u64 True v"
  by (simp add: le_bytes_bswap)

text \<open>
  C28. Every conversion to network order is undone by the conversion to host order of the same type,
  whether or not the conversions are compiled in.
\<close>

theorem byte_order_roundtrip:
  "network_to_host_u64 en (host_to_network_u64 en a) = a \<and>
   network_to_host_i64 en (host_to_network_i64 en b) = b \<and>
   network_to_host_u32 en (host_to_network_u32 en c) = c \<and>
   network_to_host_i32 en (host_to_network_i32 en d) = d \<and>
   network_to_host_u16 en (host_to_network_u16 en e) = e \<and>
   network_to_host_i16 en (host_to_network_i16 en f) = f"
  using bo_u64.ntoh_hton bo_i64.ntoh_hton bo_u32.ntoh_hton bo_i32.ntoh_hton
    bo_u16.ntoh_hton bo_i16.ntoh_hton
  by simp

end
