(* ===== verification/Memory_Manager.thy ===== *)
theory Memory_Manager
  imports Prelude
begin

text \<open>
  The class \<open>MemoryManager\<close> (include/util/memory_manager.h): bounds-checked copies between an
  object and a buffer at a running position. The caller's buffer is its list of bytes; the size the
  caller claims for it is a separate \<open>size_t\<close> argument, as in the source, and the position is a
  \<open>size_t\<close> passed by reference, so it is returned. The bounds check adds in \<open>size_t\<close>, where it
  can wrap around. An object of type \<open>_T\<close> is its object representation, whose length is
  \<open>sizeof(_T)\<close>.
\<close>

section \<open>The four overloads\<close>

definition memcpy :: "bytes \<Rightarrow> nat \<Rightarrow> bytes \<Rightarrow> nat \<Rightarrow> nat \<Rightarrow> bytes result" where
  "memcpy dst doff src soff n = bind_result (mem_read src soff n) (mem_write dst doff)"

definition ReadFromBuffer :: "bytes \<Rightarrow> size_t \<Rightarrow> size_t \<Rightarrow> bytes \<Rightarrow> (bool \<times> size_t \<times> bytes) result" where
  "ReadFromBuffer buffer buffer_size buffer_pos target =
     (if buffer_size < buffer_pos + of_nat (length target) then Inr (False, buffer_pos, target)
      else bind_result (memcpy target 0 buffer (unat buffer_pos) (length target))
        (\<lambda>target'. Inr (True, buffer_pos + of_nat (length target), target')))"

definition ReadFromBuffer_n ::
  "bytes \<Rightarrow> size_t \<Rightarrow> size_t \<Rightarrow> bytes \<Rightarrow> size_t \<Rightarrow> (bool \<times> size_t \<times> bytes) result" where
  "ReadFromBuffer_n buffer buffer_size buffer_pos target tgt_size =
     (if buffer_size < buffer_pos + tgt_size then Inr (False, buffer_pos, target)
      else bind_result (memcpy target 0 buffer (unat buffer_pos) (unat tgt_size))
        (\<lambda>target'. Inr (True, buffer_pos + tgt_size, target')))"

definition WriteToBuffer :: "bytes \<Rightarrow> size_t \<Rightarrow> size_t \<Rightarrow> bytes \<Rightarrow> (bool \<times> size_t \<times> bytes) result" where
  "WriteToBuffer buffer buffer_size buffer_pos target =
     (if buffer_size < buffer_pos + of_nat (length target) then Inr (False, buffer_pos, buffer)
      else bind_result (memcpy buffer (unat buffer_pos) target 0 (length target))
        (\<lambda>buffer'. Inr (True, buffer_pos + of_nat (length target), buffer')))"

definition WriteToBuffer_n ::
  "bytes \<Rightarrow> size_t \<Rightarrow> size_t \<Rightarrow> bytes \<Rightarrow> size_t \<Rightarrow> (bool \<times> size_t \<times> bytes) result" where
  "WriteToBuffer_n buffer buffer_size buffer_pos target tgt_size =
     (if buffer_size < buffer_pos + tgt_size then Inr (False, buffer_pos, buffer)
      else bind_result (memcpy buffer (unat buffer_pos) target 0 (unat tgt_size))
        (\<lambda>buffer'. Inr (True, buffer_pos + tgt_size, buffer')))"

text \<open>
  The scalar instances: \<open>&value\<close> of an \<open>n\<close>-byte unsigned integer. They only convert between the
  value and its object representation.
\<close>

definition ReadFromBuffer_word ::
  "nat \<Rightarrow> bytes \<Rightarrow> size_t \<Rightarrow> size_t \<Rightarrow> 'a::len word \<Rightarrow> (bool \<times> size_t \<times> 'a word) result" where
  "ReadFromBuffer_word n buffer buffer_size buffer_pos value =
     bind_result (ReadFromBuffer buffer buffer_size buffer_pos (le_bytes n value))
       (\<lambda>(ok, pos, bs). Inr (ok, pos, le_word bs))"

definition WriteToBuffer_word ::
  "nat \<Rightarrow> bytes \<Rightarrow> size_t \<Rightarrow> size_t \<Rightarrow> 'a::len word \<Rightarrow> (bool \<times> size_t \<times> bytes) result" where
  "WriteToBuffer_word n buffer buffer_size buffer_pos value =
     WriteToBuffer buffer buffer_size buffer_pos (le_bytes n value)"

section \<open>Behaviour in and out of bounds\<close>

lemma memcpy_into_object [mem_simps]:
  "soff + length dst \<le> length src \<Longrightarrow>
     memcpy dst 0 src soff (length dst) = Inr (take (length dst) (drop soff src))"
  by (simp add: memcpy_def mem_simps)

lemma memcpy_from_object [mem_simps]:
  "doff + length src \<le> length dst \<Longrightarrow>
     memcpy dst doff src 0 (length src) = Inr (take doff dst @ src @ drop (doff + length src) dst)"
  by (simp add: memcpy_def mem_simps)

text \<open>The check, read on natural numbers when the sum does not wrap around.\<close>

lemma bounds_check_nowrap [size_simps]:
  assumes "unat pos + unat n < 2 ^ 64"
  shows "(sz :: size_t) < pos + n \<longleftrightarrow> unat sz < unat pos + unat n"
  using assms by (simp add: size_less_iff unat_add_nowrap)

lemma sizeof_fits: "unat (pos :: size_t) + n \<le> unat (sz :: size_t) \<Longrightarrow> unat (of_nat n :: size_t) = n"
  using unat_size_less[of sz] by (intro unat_of_nat_size) simp

lemma sum_fits:
  "unat (pos :: size_t) + n \<le> unat (sz :: size_t) \<Longrightarrow> unat pos + unat (of_nat n :: size_t) < 2 ^ 64"
  using unat_size_less[of sz] by (simp add: sizeof_fits)

lemma ReadFromBuffer_ok:
  assumes "unat pos + length t \<le> unat sz" and "unat sz \<le> length buf"
  shows "ReadFromBuffer buf sz pos t
     = Inr (True, pos + of_nat (length t), take (length t) (drop (unat pos) buf))"
  using assms by (simp add: ReadFromBuffer_def mem_simps bounds_check_nowrap[OF sum_fits] sizeof_fits)

lemma WriteToBuffer_ok:
  assumes "unat pos + length t \<le> unat sz" and "unat sz \<le> length buf"
  shows "WriteToBuffer buf sz pos t
     = Inr (True, pos + of_nat (length t), take (unat pos) buf @ t @ drop (unat pos + length t) buf)"
  using assms by (simp add: WriteToBuffer_def mem_simps bounds_check_nowrap[OF sum_fits] sizeof_fits)

text \<open>An object that does not fit is refused.\<close>

lemma ReadFromBuffer_short:
  assumes "unat sz < unat pos + length t" and "unat pos + length t < 2 ^ 64"
  shows "ReadFromBuffer buf sz pos t = Inr (False, pos, t)"
proof -
  have "unat (of_nat (length t) :: size_t) = length t"
    using assms(2) by (intro unat_of_nat_size) simp
  then show ?thesis
    using assms by (simp add: ReadFromBuffer_def bounds_check_nowrap)
qed

lemma WriteToBuffer_short:
  assumes "unat sz < unat pos + length t" and "unat pos + length t < 2 ^ 64"
  shows "WriteToBuffer buf sz pos t = Inr (False, pos, buf)"
proof -
  have "unat (of_nat (length t) :: size_t) = length t"
    using assms(2) by (intro unat_of_nat_size) simp
  then show ?thesis
    using assms by (simp add: WriteToBuffer_def bounds_check_nowrap)
qed

text \<open>The overloads with an explicit size agree with the others on a whole object.\<close>

lemma ReadFromBuffer_n_whole:
  "length t < 2 ^ 64 \<Longrightarrow>
     ReadFromBuffer_n buf sz pos t (of_nat (length t)) = ReadFromBuffer buf sz pos t"
  by (simp add: ReadFromBuffer_n_def ReadFromBuffer_def unat_of_nat_size)

lemma WriteToBuffer_n_whole:
  "length t < 2 ^ 64 \<Longrightarrow>
     WriteToBuffer_n buf sz pos t (of_nat (length t)) = WriteToBuffer buf sz pos t"
  by (simp add: WriteToBuffer_n_def WriteToBuffer_def unat_of_nat_size)

lemma ReadFromBuffer_n_ok:
  assumes "unat pos + unat n \<le> unat sz" and "unat sz \<le> length buf" and "unat n \<le> length t"
  shows "ReadFromBuffer_n buf sz pos t n
     = Inr (True, pos + n, take (unat n) (drop (unat pos) buf) @ drop (unat n) t)"
  using assms sum_fits[of pos "unat n" sz]
  by (simp add: ReadFromBuffer_n_def memcpy_def mem_simps bounds_check_nowrap)

lemma ReadFromBuffer_n_short:
  assumes "unat sz < unat pos + unat n" and "unat pos + unat n < 2 ^ 64"
  shows "ReadFromBuffer_n buf sz pos t n = Inr (False, pos, t)"
  using assms by (simp add: ReadFromBuffer_n_def bounds_check_nowrap)

lemma WriteToBuffer_n_ok:
  assumes "unat pos + unat n \<le> unat sz" and "unat sz \<le> length buf" and "unat n \<le> length t"
  shows "WriteToBuffer_n buf sz pos t n
     = Inr (True, pos + n, take (unat pos) buf @ take (unat n) t @ drop (unat pos + unat n) buf)"
  using assms sum_fits[of pos "unat n" sz]
  by (simp add: WriteToBuffer_n_def memcpy_def mem_simps bounds_check_nowrap)

lemma WriteToBuffer_n_short:
  assumes "unat sz < unat pos + unat n" and "unat pos + unat n < 2 ^ 64"
  shows "WriteToBuffer_n buf sz pos t n = Inr (False, pos, buf)"
  using assms by (simp add: WriteToBuffer_n_def bounds_check_nowrap)

lemma ReadFromBuffer_word_ok:
  assumes "unat pos + n \<le> unat sz" and "unat sz \<le> length buf"
  shows "ReadFromBuffer_word n buf sz pos v
     = Inr (True, pos + of_nat n, le_word (take n (drop (unat pos) buf)))"
  using assms by (simp add: ReadFromBuffer_word_def ReadFromBuffer_ok)

lemma ReadFromBuffer_word_short:
  assumes "unat sz < unat pos + n" and "unat pos + n < 2 ^ 64" and "LENGTH('a) \<le> 8 * n"
  shows "ReadFromBuffer_word n buf sz pos (v :: 'a::len word) = Inr (False, pos, v)"
proof -
  have "unat (of_nat n :: size_t) = n"
    using assms(2) by (intro unat_of_nat_size) simp
  then have "sz < pos + of_nat n"
    using assms by (simp add: bounds_check_nowrap)
  then show ?thesis
    using assms(3) by (simp add: ReadFromBuffer_word_def ReadFromBuffer_def enc_simps)
qed

section \<open>The contract of a buffer cursor\<close>

text \<open>
  The packet code writes a sequence of fields at a running position and reads them back in the same
  order, and ignores the Boolean results. It relies on these laws of the copies.
\<close>

locale byte_cursor =
  fixes wr :: "bytes \<Rightarrow> size_t \<Rightarrow> size_t \<Rightarrow> bytes \<Rightarrow> (bool \<times> size_t \<times> bytes) result"
    and rd :: "bytes \<Rightarrow> size_t \<Rightarrow> size_t \<Rightarrow> bytes \<Rightarrow> (bool \<times> size_t \<times> bytes) result"
  assumes wr_law: "unat pos + length t \<le> unat sz \<Longrightarrow> unat sz \<le> length buf \<Longrightarrow>
      wr buf sz pos t
        = Inr (True, pos + of_nat (length t), take (unat pos) buf @ t @ drop (unat pos + length t) buf)"
    and rd_law: "unat pos + length t \<le> unat sz \<Longrightarrow> unat sz \<le> length buf \<Longrightarrow>
      rd buf sz pos t
        = Inr (True, pos + of_nat (length t), take (length t) (drop (unat pos) buf))"
begin

lemma write_read_same:
  assumes "unat pos + length t \<le> unat sz" and "unat sz \<le> length buf" and "length u = length t"
  shows "bind_result (wr buf sz pos t) (\<lambda>(_, _, buf'). rd buf' sz pos u)
    = Inr (True, pos + of_nat (length t), t)"
  using assms by (simp add: wr_law rd_law)

text \<open>Two fields written one after the other are both read back.\<close>

lemma write2_read2:
  assumes "unat pos + length s + length t \<le> unat sz" and "unat sz \<le> length buf"
    and "length u = length s" and "length v = length t"
  shows "bind_result (wr buf sz pos s) (\<lambda>(_, p1, b1).
           bind_result (wr b1 sz p1 t) (\<lambda>(_, p2, b2).
             bind_result (rd b2 sz pos u) (\<lambda>(_, q1, s').
               bind_result (rd b2 sz q1 v) (\<lambda>(_, q2, t'). Inr (q2 = p2, s', t')))))
       = Inr (True, s, t)"
proof -
  have "unat (of_nat (length s) :: size_t) = length s" "unat pos + length s < 2 ^ 64"
    using assms(1) unat_size_less[of sz] by (auto intro: unat_of_nat_size)
  then have p1: "unat (pos + of_nat (length s) :: size_t) = unat pos + length s"
    by (simp add: unat_add_nowrap)
  show ?thesis
    using assms by (simp add: wr_law rd_law p1 add.assoc)
qed

end

interpretation mm: byte_cursor WriteToBuffer ReadFromBuffer
  by unfold_locales (simp_all add: WriteToBuffer_ok ReadFromBuffer_ok)

section \<open>Properties\<close>

text \<open>
  C11. A read or a write of \<open>n\<close> bytes, or of a whole object, whose end position does not wrap around in
  \<open>size_t\<close> never touches memory outside the buffer, as long as the caller's size is not larger than the
  buffer and the other object has \<open>n\<close> bytes: it succeeds and advances the position, or it reports
  failure and changes nothing, and which of the two happens is the comparison of the end position with
  the size.
\<close>

theorem memory_manager_safe:
  assumes "unat pos + unat n < 2 ^ 64" and "unat sz \<le> length buf" and "unat n \<le> length t"
  shows "ReadFromBuffer_n buf sz pos t n =
      (if unat pos + unat n \<le> unat sz
       then Inr (True, pos + n, take (unat n) (drop (unat pos) buf) @ drop (unat n) t)
       else Inr (False, pos, t))
    \<and> WriteToBuffer_n buf sz pos t n =
      (if unat pos + unat n \<le> unat sz
       then Inr (True, pos + n, take (unat pos) buf @ take (unat n) t @ drop (unat pos + unat n) buf)
       else Inr (False, pos, buf))
    \<and> (unat pos + length t < 2 ^ 64 \<longrightarrow>
      ReadFromBuffer buf sz pos t =
        (if unat pos + length t \<le> unat sz
         then Inr (True, pos + of_nat (length t), take (length t) (drop (unat pos) buf))
         else Inr (False, pos, t))
      \<and> WriteToBuffer buf sz pos t =
        (if unat pos + length t \<le> unat sz
         then Inr (True, pos + of_nat (length t), take (unat pos) buf @ t @ drop (unat pos + length t) buf)
         else Inr (False, pos, buf)))"
  using assms
  by (simp add: ReadFromBuffer_n_ok ReadFromBuffer_n_short WriteToBuffer_n_ok WriteToBuffer_n_short
      ReadFromBuffer_ok ReadFromBuffer_short WriteToBuffer_ok WriteToBuffer_short)

theorem memory_manager_safe_witness:
  "ReadFromBuffer_n [1, 2, 3] 3 1 [0, 0] 2 = Inr (True, 3, [2, 3]) \<and>
   WriteToBuffer_n [1, 2, 3] 3 1 [0, 0] 2 = Inr (True, 3, [1, 0, 0]) \<and>
   ReadFromBuffer [1, 2, 3] 3 1 [0, 0] = Inr (True, 3, [2, 3]) \<and>
   WriteToBuffer [1, 2, 3] 3 1 [0, 0] = Inr (True, 3, [1, 0, 0])"
  using memory_manager_safe[of 1 2 3 "[1, 2, 3]" "[0, 0]"] by simp

text \<open>
  A size that makes the sum of the bounds check wrap around passes the check at every position
  but the first, and the copy then leaves the buffer: the check does not protect against a size of
  \<open>2 ^ 64 - 1\<close>, the value of a negative length converted to \<open>size_t\<close>.
\<close>

lemma memory_manager_wraps:
  assumes "0 < pos" and "pos \<le> sz" and "unat sz = length buf"
  shows "ReadFromBuffer_n buf sz pos t (- 1) = Inl Out_Of_Bounds"
proof -
  have pos: "0 < unat pos" "unat pos \<le> unat sz" "pos \<noteq> 0"
    using assms by (auto simp: word_less_nat_alt size_le_iff)
  then have "\<not> sz < pos + (- 1)"
    by (simp add: size_less_iff unat_minus_one flip: diff_conv_add_uminus)
  moreover have "length buf < unat pos + unat (- 1 :: size_t)"
    using pos unat_size_less[of sz] assms(3) by (simp add: unat_size_max)
  ultimately show ?thesis
    by (simp add: ReadFromBuffer_n_def memcpy_def mem_read_def)
qed

text \<open>
  A field written at a position and read back from it is unchanged, and reading advances the
  position exactly as writing did.
\<close>

lemma write_then_read:
  assumes "unat pos + length t \<le> unat sz" and "unat sz \<le> length buf" and "length u = length t"
  shows "bind_result (WriteToBuffer buf sz pos t) (\<lambda>(_, _, buf'). ReadFromBuffer buf' sz pos u)
    = Inr (True, pos + of_nat (length t), t)"
  using assms by (rule mm.write_read_same)

end
