(* ===== verification/Common_Pool.thy ===== *)
theory Common_Pool
  imports Prelude
begin

text \<open>
  The class template \<open>Allocator\<close> (include/util/common_pool.h), used everywhere as
  \<open>COMMON_POOL = Allocator<char>\<close>: buffers come from eight \<open>boost::singleton_pool\<close>s whose chunk
  sizes are multiples of the template parameter \<open>size_default\<close>, chosen by the requested size.

  The pools themselves are boost code. An operation of the allocator is modelled by the pool call it
  makes; what the pools require of their callers is the ledger below: a block is freed once, to the
  pool it came from, with the number of chunks it was taken with.
\<close>

section \<open>The pools and the calls made on them\<close>

datatype pool_id = SINGLETOP_POOL | SINGLETOP_POOL_4 | SINGLETOP_POOL_8 | SINGLETOP_POOL_12
  | SINGLETOP_POOL_16 | SINGLETOP_POOL_24 | SINGLETOP_POOL_32 | SINGLETOP_POOL_128

datatype pool_call = Malloc pool_id | Ordered_Malloc pool_id size_t
  | Free pool_id addr | Ordered_Free pool_id addr size_t | Purge_Memory pool_id

text \<open>The chunk size each pool is declared with.\<close>

fun chunk_size :: "size_t \<Rightarrow> pool_id \<Rightarrow> size_t" where
  "chunk_size size_default SINGLETOP_POOL = size_default"
| "chunk_size size_default SINGLETOP_POOL_4 = size_default * 4"
| "chunk_size size_default SINGLETOP_POOL_8 = size_default * 8"
| "chunk_size size_default SINGLETOP_POOL_12 = size_default * 12"
| "chunk_size size_default SINGLETOP_POOL_16 = size_default * 16"
| "chunk_size size_default SINGLETOP_POOL_24 = size_default * 24"
| "chunk_size size_default SINGLETOP_POOL_32 = size_default * 32"
| "chunk_size size_default SINGLETOP_POOL_128 = size_default * 128"

definition New :: "size_t \<Rightarrow> size_t \<Rightarrow> pool_call" where
  "New size_default size_of_request =
     (if size_of_request \<le> size_default then Malloc SINGLETOP_POOL
      else if size_of_request \<le> size_default * 4 then Malloc SINGLETOP_POOL_4
      else if size_of_request \<le> size_default * 8 then Malloc SINGLETOP_POOL_8
      else if size_of_request \<le> size_default * 12 then Malloc SINGLETOP_POOL_12
      else if size_of_request \<le> size_default * 16 then Malloc SINGLETOP_POOL_16
      else if size_of_request \<le> size_default * 24 then Malloc SINGLETOP_POOL_24
      else if size_of_request \<le> size_default * 32 then Malloc SINGLETOP_POOL_32
      else if size_of_request \<le> size_default * 128 then Malloc SINGLETOP_POOL_128
      else Ordered_Malloc SINGLETOP_POOL_128 (size_of_request div (size_default * 128) + 1))"

definition Delete :: "size_t \<Rightarrow> addr \<Rightarrow> size_t \<Rightarrow> bool \<times> pool_call" where
  "Delete size_default buffer responsesize =
     (True,
      if responsesize \<le> size_default then Free SINGLETOP_POOL buffer
      else if responsesize \<le> size_default * 4 then Free SINGLETOP_POOL_4 buffer
      else if responsesize \<le> size_default * 8 then Free SINGLETOP_POOL_8 buffer
      else if responsesize \<le> size_default * 12 then Free SINGLETOP_POOL_12 buffer
      else if responsesize \<le> size_default * 16 then Free SINGLETOP_POOL_16 buffer
      else if responsesize \<le> size_default * 24 then Free SINGLETOP_POOL_24 buffer
      else if responsesize \<le> size_default * 32 then Free SINGLETOP_POOL_32 buffer
      else if responsesize \<le> size_default * 128 then Free SINGLETOP_POOL_128 buffer
      else Ordered_Free SINGLETOP_POOL_128 buffer (responsesize div size_default * 128 + 1))"

definition PurgeMemory :: "bool \<times> pool_call list" where
  "PurgeMemory = (True, map Purge_Memory
     [SINGLETOP_POOL, SINGLETOP_POOL_4, SINGLETOP_POOL_8, SINGLETOP_POOL_12,
      SINGLETOP_POOL_16, SINGLETOP_POOL_24, SINGLETOP_POOL_32, SINGLETOP_POOL_128])"

text \<open>\<open>COMMON_POOL\<close>: the instance for \<open>char\<close>, with the default chunk size of 256 bytes.\<close>

abbreviation (input) size_default :: size_t where
  "size_default \<equiv> 256"

definition COMMON_POOL_New :: "size_t \<Rightarrow> pool_call" where
  "COMMON_POOL_New = New size_default"

definition COMMON_POOL_Delete :: "addr \<Rightarrow> size_t \<Rightarrow> bool \<times> pool_call" where
  "COMMON_POOL_Delete = Delete size_default"

section \<open>What the pools require: the ledger of live blocks\<close>

datatype pool_event = Allocated pool_call addr | Released pool_call

type_synonym ledger = "addr \<rightharpoonup> pool_call"

fun matches :: "pool_call \<Rightarrow> pool_call \<Rightarrow> bool" where
  "matches (Malloc p) (Free q _) = (p = q)"
| "matches (Ordered_Malloc p n) (Ordered_Free q _ k) = (p = q \<and> n = k)"
| "matches _ _ = False"

fun freed_addr :: "pool_call \<Rightarrow> addr option" where
  "freed_addr (Free _ a) = Some a"
| "freed_addr (Ordered_Free _ a _) = Some a"
| "freed_addr _ = None"

text \<open>
  One event on the ledger; \<open>None\<close> is a use the pools do not allow (a block freed twice, or freed to
  a pool it did not come from). A failed allocation returns null and leaves the ledger alone.
\<close>

fun ledger_step :: "ledger \<Rightarrow> pool_event \<Rightarrow> ledger option" where
  "ledger_step l (Allocated c a) =
     (if a = NULL then Some l else if l a = None then Some (l(a \<mapsto> c)) else None)"
| "ledger_step l (Released c) =
     (case freed_addr c of
        None \<Rightarrow> Some l
      | Some a \<Rightarrow>
          (case l a of
             None \<Rightarrow> None
           | Some taken \<Rightarrow> if matches taken c then Some (l(a := None)) else None))"

fun ledger_run :: "ledger \<Rightarrow> pool_event list \<Rightarrow> ledger option" where
  "ledger_run l [] = Some l"
| "ledger_run l (e # es) = Option.bind (ledger_step l e) (\<lambda>l'. ledger_run l' es)"

lemma ledger_run_append: "ledger_run l (es @ fs) = Option.bind (ledger_run l es) (\<lambda>l'. ledger_run l' fs)"
  by (induction es arbitrary: l) (auto simp: bind_eq_None_conv bind_assoc split: bind_splits)

section \<open>Size classes\<close>

text \<open>The pool a size of at most \<open>128 * size_default\<close> is served from.\<close>

definition size_class :: "size_t \<Rightarrow> pool_id" where
  "size_class s =
     (if s \<le> 256 then SINGLETOP_POOL else if s \<le> 1024 then SINGLETOP_POOL_4
      else if s \<le> 2048 then SINGLETOP_POOL_8 else if s \<le> 3072 then SINGLETOP_POOL_12
      else if s \<le> 4096 then SINGLETOP_POOL_16 else if s \<le> 6144 then SINGLETOP_POOL_24
      else if s \<le> 8192 then SINGLETOP_POOL_32 else SINGLETOP_POOL_128)"

lemma New_class: "s \<le> 32768 \<Longrightarrow> COMMON_POOL_New s = Malloc (size_class s)"
  by (simp add: COMMON_POOL_New_def New_def size_class_def)

lemma Delete_class: "s \<le> 32768 \<Longrightarrow> COMMON_POOL_Delete b s = (True, Free (size_class s) b)"
  by (simp add: COMMON_POOL_Delete_def Delete_def size_class_def)

lemma not_le_size_trans: "\<not> s \<le> (b :: size_t) \<Longrightarrow> a \<le> b \<Longrightarrow> \<not> s \<le> a"
  by (meson order.trans)

lemma New_large:
  assumes "\<not> s \<le> 32768"
  shows "COMMON_POOL_New s = Ordered_Malloc SINGLETOP_POOL_128 (s div 32768 + 1)"
proof -
  note smaller = assms[THEN not_le_size_trans]
  show ?thesis
    using assms smaller[of 256] smaller[of 1024] smaller[of 2048] smaller[of 3072]
      smaller[of 4096] smaller[of 6144] smaller[of 8192]
    by (simp add: COMMON_POOL_New_def New_def)
qed

lemma Delete_large:
  assumes "\<not> s \<le> 32768"
  shows "COMMON_POOL_Delete b s = (True, Ordered_Free SINGLETOP_POOL_128 b (s div 256 * 128 + 1))"
proof -
  note smaller = assms[THEN not_le_size_trans]
  show ?thesis
    using assms smaller[of 256] smaller[of 1024] smaller[of 2048] smaller[of 3072]
      smaller[of 4096] smaller[of 6144] smaller[of 8192]
    by (simp add: COMMON_POOL_Delete_def Delete_def)
qed

lemma Delete_freed [simp]: "freed_addr (snd (COMMON_POOL_Delete b s)) = Some b"
  by (cases "s \<le> 32768") (simp_all add: Delete_class Delete_large)

lemma Delete_true [simp]: "fst (COMMON_POOL_Delete b s) = True"
  by (simp add: COMMON_POOL_Delete_def Delete_def)

text \<open>Two sizes that share a class are interchangeable at release; two that do not are not.\<close>

lemma matches_class_iff:
  "s \<le> 32768 \<Longrightarrow> r \<le> 32768 \<Longrightarrow>
     matches (COMMON_POOL_New s) (snd (COMMON_POOL_Delete b r)) \<longleftrightarrow> size_class s = size_class r"
  by (simp add: New_class Delete_class)

text \<open>
  Above 32768 bytes the two chunk counts are computed differently: \<open>size / (default * 128)\<close> when the
  block is taken and \<open>size / default * 128\<close> when it is returned.
\<close>

lemma chunk_counts_differ:
  assumes "\<not> s \<le> (32768 :: size_t)"
  shows "s div 32768 + 1 \<noteq> s div 256 * 128 + 1"
proof -
  have big: "32768 < unat s"
    using assms by (simp add: size_le_iff)
  have "unat (s div 256 * 128) = unat s div 256 * 128"
    using unat_size_less[of s] by (simp add: unat_word_ariths unat_div mod_less)
  moreover have "unat (s div 32768) = unat s div 32768"
    by (simp add: unat_div)
  moreover have "unat s div 32768 < unat s div 256 * 128"
  proof -
    have "128 \<le> unat s div 256"
      using big by simp
    moreover have "unat s div 32768 \<le> unat s div 256"
      using div_mult2_eq[of "unat s" 256 128] by simp
    ultimately show ?thesis by linarith
  qed
  ultimately have "s div 32768 \<noteq> s div 256 * 128"
    by auto
  then show ?thesis by simp
qed

section \<open>The contract of an allocator\<close>

text \<open>
  What the sessions and the packet workers rely on: up to a limit, a block is large enough for the
  request and a release with the size of the request is one the pools allow.
\<close>

locale block_allocator =
  fixes new :: "size_t \<Rightarrow> pool_call"
    and del :: "addr \<Rightarrow> size_t \<Rightarrow> bool \<times> pool_call"
    and limit :: size_t
  assumes del_addr: "freed_addr (snd (del b s)) = Some b"
    and del_matches: "s \<le> limit \<Longrightarrow> matches (new s) (snd (del b s))"
begin

lemma alloc_release_balanced:
  assumes "s \<le> limit" and "a \<noteq> NULL" and "l a = None"
  shows "ledger_run l [Allocated (new s) a, Released (snd (del a s))] = Some l"
  using assms by (auto simp: del_addr del_matches)

lemma double_release_refused:
  assumes "l a = Some c"
  shows "ledger_run l [Released (snd (del a s)), Released (snd (del a s))] = None"
  using assms by (auto simp: del_addr split: option.splits)

lemma release_of_dead_block_refused: "l a = None \<Longrightarrow> ledger_step l (Released (snd (del a s))) = None"
  by (simp add: del_addr)

end

interpretation cp: block_allocator COMMON_POOL_New COMMON_POOL_Delete 32768
  by unfold_locales (simp_all add: New_class Delete_class)

section \<open>Properties\<close>

text \<open>The number of bytes of the block a successful call returns.\<close>

fun block_bytes :: "pool_call \<Rightarrow> nat" where
  "block_bytes (Malloc p) = unat (chunk_size size_default p)"
| "block_bytes (Ordered_Malloc p n) = unat n * unat (chunk_size size_default p)"
| "block_bytes _ = 0"

text \<open>
  The block \<open>COMMON_POOL::New\<close> asks the pools for is never smaller than the request, whatever
  the request.
\<close>

lemma New_large_enough: "unat s \<le> block_bytes (COMMON_POOL_New s)"
proof (cases "s \<le> 32768")
  case True
  then show ?thesis
    by (simp add: New_class size_class_def size_le_iff)
next
  case False
  have "unat s div 32768 + 1 < 2 ^ 64"
    using unat_size_less[of s] by simp
  then have "unat (s div 32768 + 1) = unat s div 32768 + 1"
    by (simp add: unat_word_ariths unat_div)
  moreover have "unat s < (unat s div 32768 + 1) * 32768"
    using dividend_less_div_times[of 32768 "unat s"] by simp
  ultimately show ?thesis
    using False by (simp add: New_large)
qed

text \<open>
  C18. A block returned with the size it was requested with goes back the way the pools require
  exactly when that size is at most 32768 bytes. Above that, \<open>Delete\<close> computes a chunk count that
  is never the one \<open>New\<close> used.
\<close>

theorem New_Delete_matched_iff:
  "matches (COMMON_POOL_New s) (snd (COMMON_POOL_Delete b s)) \<longleftrightarrow> s \<le> 32768"
proof (cases "s \<le> 32768")
  case True
  then show ?thesis by (simp add: cp.del_matches)
next
  case False
  then show ?thesis
    using chunk_counts_differ[OF False] by (simp add: New_large Delete_large)
qed

end
