(* ===== verification/Object_Pool.thy ===== *)
theory Object_Pool
  imports Prelude
begin

text \<open>
  The class template \<open>Pool\<close> (include/util/pool.h), a bounded free list of shared objects with a
  count of the objects in use, and \<open>SessionPool\<close> (include/net/session_pool.h), which holds one.

  The free list is a \<open>tbb::concurrent_bounded_queue\<close>. A pop on an empty queue blocks; the queue's
  size is pushes minus pops and so is negative while pops are blocked. The state keeps the queued
  objects and the number of blocked pops. Objects are shared pointers: \<open>None\<close> is the null pointer.
  The counters are \<open>std::atomic<size_t>\<close>.
\<close>

section \<open>State and operations\<close>

record 'a Pool =
  m_queue :: "'a list"
  m_waiting :: nat
  m_sizeUseCnt :: size_t
  m_sizeFlexibleMaxCnt :: size_t
  m_isRunning :: bool

definition Pool_new :: "size_t \<Rightarrow> 'a Pool" where
  "Pool_new count =
     \<lparr>m_queue = [], m_waiting = 0, m_sizeUseCnt = 0, m_sizeFlexibleMaxCnt = count, m_isRunning = False\<rparr>"

text \<open>The queue's own operations: size, push (a blocked pop takes the object at once) and pop.\<close>

definition queue_size :: "'a Pool \<Rightarrow> int" where
  "queue_size p = int (length (m_queue p)) - int (m_waiting p)"

definition queue_push :: "'a \<Rightarrow> 'a Pool \<Rightarrow> 'a Pool" where
  "queue_push x p =
     (if m_waiting p = 0 then p\<lparr>m_queue := m_queue p @ [x]\<rparr> else p\<lparr>m_waiting := m_waiting p - 1\<rparr>)"

definition Acquire :: "'a Pool \<Rightarrow> 'a option \<times> 'a Pool" where
  "Acquire p =
     (case m_queue p of
        [] \<Rightarrow> (None, p)
      | x # xs \<Rightarrow> (Some x, p\<lparr>m_queue := xs, m_sizeUseCnt := m_sizeUseCnt p + 1\<rparr>))"

text \<open>\<open>WaitAcquire\<close> pops or blocks; a caller that blocks gets no object here. It does not count.\<close>

definition WaitAcquire :: "'a Pool \<Rightarrow> 'a option \<times> 'a Pool" where
  "WaitAcquire p =
     (case m_queue p of
        [] \<Rightarrow> (None, p\<lparr>m_waiting := Suc (m_waiting p)\<rparr>)
      | x # xs \<Rightarrow> (Some x, p\<lparr>m_queue := xs\<rparr>))"

text \<open>
  \<open>(int32_t)m_queue.size() < m_sizeFlexibleMaxCnt.load()\<close>: the size is cut to 32 bits and then
  converted to \<open>size_t\<close> for the comparison, with its sign extended.
\<close>

definition has_room :: "'a Pool \<Rightarrow> bool" where
  "has_room p \<longleftrightarrow> (scast (word_of_int (queue_size p) :: i32) :: size_t) < m_sizeFlexibleMaxCnt p"

definition Restore :: "'a Pool \<Rightarrow> 'a option \<Rightarrow> bool \<Rightarrow> bool \<times> 'a Pool" where
  "Restore p object is_create =
     (case object of
        None \<Rightarrow> (False, p)
      | Some x \<Rightarrow>
          if has_room p then
            (let p1 = queue_push x p;
                 p2 = (if is_create then p1 else p1\<lparr>m_sizeUseCnt := m_sizeUseCnt p1 - 1\<rparr>)
             in (True, p2))
          else (False, p))"

definition Create :: "'a Pool \<Rightarrow> 'a option \<Rightarrow> bool \<times> 'a Pool" where
  "Create p object = Restore p object True"

definition GetUseCount :: "'a Pool \<Rightarrow> size_t" where
  "GetUseCount p = m_sizeUseCnt p"

definition GetFlexibleMaxCount :: "'a Pool \<Rightarrow> size_t" where
  "GetFlexibleMaxCount p = m_sizeFlexibleMaxCnt p"

definition SetRunning :: "'a Pool \<Rightarrow> bool \<Rightarrow> 'a Pool" where
  "SetRunning p b = p\<lparr>m_isRunning := b\<rparr>"

definition GetRunning :: "'a Pool \<Rightarrow> bool" where
  "GetRunning p = m_isRunning p"

text \<open>
  \<open>Release\<close> pops while the size is not zero; a pop that would block never returns (\<open>None\<close>).
\<close>

function Release :: "'a Pool \<Rightarrow> 'a Pool option" where
  "Release p =
     (if queue_size p = 0 then Some p
      else (case m_queue p of [] \<Rightarrow> None | x # xs \<Rightarrow> Release (p\<lparr>m_queue := xs\<rparr>)))"
  by pat_completeness auto
termination
  by (relation "measure (\<lambda>p. length (m_queue p))") auto

declare Release.simps [simp del]

text \<open>\<open>SessionPool<T>\<close> delegates to the pool it owns, which it creates with room for 5000 objects.\<close>

definition SessionPool_CreateContainer :: "'a Pool" where
  "SessionPool_CreateContainer = Pool_new 5000"

definition SessionPool_Acquire :: "'a Pool \<Rightarrow> 'a option \<times> 'a Pool" where
  "SessionPool_Acquire m_spSessionContainer = Acquire m_spSessionContainer"

definition SessionPool_Restore :: "'a Pool \<Rightarrow> 'a option \<Rightarrow> bool \<times> 'a Pool" where
  "SessionPool_Restore m_spSessionContainer session_ptr = Restore m_spSessionContainer session_ptr False"

definition SessionPool_Create :: "'a Pool \<Rightarrow> 'a option \<Rightarrow> bool \<times> 'a Pool" where
  "SessionPool_Create m_spSessionContainer session_ptr = Create m_spSessionContainer session_ptr"

definition SessionPool_GetUseCount :: "'a Pool \<Rightarrow> size_t" where
  "SessionPool_GetUseCount m_spSessionContainer = GetUseCount m_spSessionContainer"

definition SessionPool_GetFlexibleMaxCount :: "'a Pool \<Rightarrow> size_t" where
  "SessionPool_GetFlexibleMaxCount m_spSessionContainer = GetFlexibleMaxCount m_spSessionContainer"

lemmas session_pool_defs =
  SessionPool_CreateContainer_def SessionPool_Acquire_def SessionPool_Restore_def
  SessionPool_Create_def SessionPool_GetUseCount_def SessionPool_GetFlexibleMaxCount_def

text \<open>The destructor releases what is in the queue; the constructor of a session pool makes its container.\<close>

definition Pool_destroy :: "'a Pool \<Rightarrow> 'a Pool option" where
  "Pool_destroy p = Release p"

definition SessionPool_new :: "'a Pool" where
  "SessionPool_new = SessionPool_CreateContainer"

section \<open>The room test\<close>

text \<open>
  A pool nobody is blocked on, with no more objects than its maximum and a maximum below \<open>2 ^ 31\<close>:
  the conversions of the room test change nothing.
\<close>

definition pool_ready :: "'a Pool \<Rightarrow> bool" where
  "pool_ready p \<longleftrightarrow> m_waiting p = 0 \<and> length (m_queue p) \<le> unat (m_sizeFlexibleMaxCnt p)
     \<and> unat (m_sizeFlexibleMaxCnt p) < 2 ^ 31"

lemma scast_small_int:
  assumes "- (2 ^ 31) \<le> k" and "k < 2 ^ 31"
  shows "(scast (word_of_int k :: i32) :: size_t) = word_of_int k"
proof -
  have "sint (word_of_int k :: i32) = k"
    using assms signed_take_bit_int_eq_self[of 31 k] by (simp add: sint_sbintrunc')
  then show ?thesis by (simp add: scast_eq)
qed

lemma has_room_iff:
  assumes "pool_ready p"
  shows "has_room p \<longleftrightarrow> length (m_queue p) < unat (m_sizeFlexibleMaxCnt p)"
proof -
  have len: "length (m_queue p) < 2 ^ 31"
    using assms by (simp add: pool_ready_def)
  then have "(scast (word_of_int (queue_size p) :: i32) :: size_t) = of_nat (length (m_queue p))"
    using assms scast_small_int[of "int (length (m_queue p))"]
    by (simp add: pool_ready_def queue_size_def)
  then show ?thesis
    using len by (simp add: has_room_def size_less_iff unat_of_nat_size)
qed

lemma negative_size_has_no_room:
  assumes "m_queue p = []" and "0 < m_waiting p" and "m_waiting p \<le> 2 ^ 31"
    and "unat (m_sizeFlexibleMaxCnt p) \<le> 2 ^ 63"
  shows "\<not> has_room p"
proof -
  let ?k = "m_waiting p"
  have "(scast (word_of_int (queue_size p) :: i32) :: size_t) = word_of_int (- int ?k)"
    using assms scast_small_int[of "- int ?k"] by (simp add: queue_size_def)
  also have "\<dots> = - of_nat ?k"
    by simp
  finally have "unat (scast (word_of_int (queue_size p) :: i32) :: size_t) = 2 ^ 64 - ?k"
    using assms by (simp add: unat_neg_of_nat)
  then show ?thesis
    using assms by (simp add: has_room_def size_less_iff)
qed

section \<open>Behaviour of the operations\<close>

lemma Acquire_Nil [simp]: "m_queue p = [] \<Longrightarrow> Acquire p = (None, p)"
  by (simp add: Acquire_def)

lemma Acquire_Cons [simp]:
  "m_queue p = x # xs \<Longrightarrow>
     Acquire p = (Some x, p\<lparr>m_queue := xs, m_sizeUseCnt := m_sizeUseCnt p + 1\<rparr>)"
  by (simp add: Acquire_def)

lemma Restore_None [simp]: "Restore p None c = (False, p)"
  by (simp add: Restore_def)

lemma Restore_full:
  "pool_ready p \<Longrightarrow> \<not> length (m_queue p) < unat (m_sizeFlexibleMaxCnt p) \<Longrightarrow>
     Restore p (Some x) c = (False, p)"
  by (simp add: Restore_def has_room_iff)

lemma Restore_room:
  "pool_ready p \<Longrightarrow> length (m_queue p) < unat (m_sizeFlexibleMaxCnt p) \<Longrightarrow>
     Restore p (Some x) c = (True, p\<lparr>m_queue := m_queue p @ [x],
       m_sizeUseCnt := m_sizeUseCnt p - (if c then 0 else 1)\<rparr>)"
  by (simp add: Restore_def has_room_iff queue_push_def pool_ready_def)

lemma pool_ready_new: "unat count < 2 ^ 31 \<Longrightarrow> pool_ready (Pool_new count)"
  by (simp add: pool_ready_def Pool_new_def)

lemma pool_ready_Acquire: "pool_ready p \<Longrightarrow> pool_ready (snd (Acquire p))"
  by (auto simp: pool_ready_def Acquire_def split: list.splits)

lemma pool_ready_Restore: "pool_ready p \<Longrightarrow> pool_ready (snd (Restore p ob c))"
  by (cases ob; cases "length (m_queue p) < unat (m_sizeFlexibleMaxCnt p)")
    (simp_all add: Restore_full Restore_room, auto simp: pool_ready_def)

text \<open>Draining a pool nobody waits on ends, with an empty queue and everything else as it was.\<close>

lemma Release_drains: "m_waiting p = 0 \<Longrightarrow> Release p = Some (p\<lparr>m_queue := []\<rparr>)"
proof (induction p rule: Release.induct)
  case (1 p)
  show ?case
  proof (cases "m_queue p")
    case Nil
    then show ?thesis
      using 1 by (simp add: Release.simps[of p] queue_size_def)
  next
    case (Cons x xs)
    then have "queue_size p \<noteq> 0"
      using 1 by (simp add: queue_size_def)
    moreover have "Release (p\<lparr>m_queue := xs\<rparr>) = Some (p\<lparr>m_queue := []\<rparr>)"
      using 1 calculation Cons by simp
    ultimately show ?thesis
      using Cons by (simp add: Release.simps[of p])
  qed
qed

section \<open>The contract of an object pool\<close>

text \<open>
  What the session pools rely on: the pool is a bounded first-in first-out free list. Inside the
  contract, acquiring again and again hands out the objects in the order they were given back, and
  an object is never in the free list twice if it is only given back by whoever acquired it.
\<close>

locale object_pool =
  fixes acq :: "'p \<Rightarrow> 'a option \<times> 'p"
    and res :: "'p \<Rightarrow> 'a \<Rightarrow> bool \<times> 'p"
    and items :: "'p \<Rightarrow> 'a list"
    and cap :: "'p \<Rightarrow> nat"
    and ok :: "'p \<Rightarrow> bool"
  assumes acq_items: "ok p \<Longrightarrow> fst (acq p) = (case items p of [] \<Rightarrow> None | x # _ \<Rightarrow> Some x)"
    and acq_rest: "ok p \<Longrightarrow> items (snd (acq p)) = tl (items p)"
    and acq_ok: "ok p \<Longrightarrow> ok (snd (acq p))"
    and acq_cap: "ok p \<Longrightarrow> cap (snd (acq p)) = cap p"
    and res_fits: "ok p \<Longrightarrow> fst (res p x) = (length (items p) < cap p)"
    and res_items: "ok p \<Longrightarrow> items (snd (res p x)) = (if length (items p) < cap p then items p @ [x] else items p)"
    and res_ok: "ok p \<Longrightarrow> ok (snd (res p x))"
    and res_cap: "ok p \<Longrightarrow> cap (snd (res p x)) = cap p"
begin

lemma acquire_then_restore:
  assumes "ok p" and "items p = x # xs" and "length (items p) \<le> cap p"
  shows "items (snd (res (snd (acq p)) x)) = xs @ [x]"
  using assms by (simp add: res_items acq_ok acq_rest acq_cap)

lemma restore_distinct:
  assumes "ok p" and "distinct (items p)" and "x \<notin> set (items p)"
  shows "distinct (items (snd (res p x)))"
  using assms by (simp add: res_items)

lemma acquire_distinct:
  assumes "ok p" and "distinct (items p)" and "fst (acq p) = Some x"
  shows "x \<in> set (items p) \<and> x \<notin> set (items (snd (acq p))) \<and> distinct (items (snd (acq p)))"
  using assms by (auto simp: acq_items acq_rest split: list.splits)

lemma restore_bounded:
  assumes "ok p" and "length (items p) \<le> cap p"
  shows "length (items (snd (res p x))) \<le> cap (snd (res p x))"
  using assms by (simp add: res_items res_cap)

end

interpretation op: object_pool Acquire "\<lambda>p x. Restore p (Some x) False" m_queue
    "\<lambda>p. unat (m_sizeFlexibleMaxCnt p)" pool_ready
proof unfold_locales
  fix p :: "'a Pool" and x :: 'a
  assume ready: "pool_ready p"
  show "fst (Acquire p) = (case m_queue p of [] \<Rightarrow> None | x # _ \<Rightarrow> Some x)"
    and "m_queue (snd (Acquire p)) = tl (m_queue p)"
    and "unat (m_sizeFlexibleMaxCnt (snd (Acquire p))) = unat (m_sizeFlexibleMaxCnt p)"
    by (simp_all add: Acquire_def split: list.splits)
  show "pool_ready (snd (Acquire p))"
    using ready by (rule pool_ready_Acquire)
  show "pool_ready (snd (Restore p (Some x) False))"
    using ready by (rule pool_ready_Restore)
  show "fst (Restore p (Some x) False) = (length (m_queue p) < unat (m_sizeFlexibleMaxCnt p))"
    and "m_queue (snd (Restore p (Some x) False))
       = (if length (m_queue p) < unat (m_sizeFlexibleMaxCnt p) then m_queue p @ [x] else m_queue p)"
    and "unat (m_sizeFlexibleMaxCnt (snd (Restore p (Some x) False))) = unat (m_sizeFlexibleMaxCnt p)"
    using ready
    by (cases "length (m_queue p) < unat (m_sizeFlexibleMaxCnt p)"; simp add: Restore_room Restore_full)+
qed

section \<open>Runs of operations against a bounded queue\<close>

text \<open>The abstract pool: a bounded first-in first-out queue.\<close>

datatype 'a pool_op = Op_Acquire | Op_Restore 'a | Op_Create 'a

datatype 'a pool_out = Out_Object "'a option" | Out_Flag bool

fun pool_exec :: "'a pool_op \<Rightarrow> 'a Pool \<Rightarrow> 'a pool_out \<times> 'a Pool" where
  "pool_exec Op_Acquire p = apfst Out_Object (Acquire p)"
| "pool_exec (Op_Restore x) p = apfst Out_Flag (Restore p (Some x) False)"
| "pool_exec (Op_Create x) p = apfst Out_Flag (Create p (Some x))"

fun pool_run :: "'a pool_op list \<Rightarrow> 'a Pool \<Rightarrow> 'a pool_out list \<times> 'a Pool" where
  "pool_run [] p = ([], p)"
| "pool_run (c # cs) p =
     (let (out, p1) = pool_exec c p; (outs, p2) = pool_run cs p1 in (out # outs, p2))"

fun spec_exec :: "nat \<Rightarrow> 'a pool_op \<Rightarrow> 'a list \<Rightarrow> 'a pool_out \<times> 'a list" where
  "spec_exec n Op_Acquire q = (case q of [] \<Rightarrow> (Out_Object None, []) | x # xs \<Rightarrow> (Out_Object (Some x), xs))"
| "spec_exec n (Op_Restore x) q = (if length q < n then (Out_Flag True, q @ [x]) else (Out_Flag False, q))"
| "spec_exec n (Op_Create x) q = (if length q < n then (Out_Flag True, q @ [x]) else (Out_Flag False, q))"

fun spec_run :: "nat \<Rightarrow> 'a pool_op list \<Rightarrow> 'a list \<Rightarrow> 'a pool_out list \<times> 'a list" where
  "spec_run n [] q = ([], q)"
| "spec_run n (c # cs) q =
     (let (out, q1) = spec_exec n c q; (outs, q2) = spec_run n cs q1 in (out # outs, q2))"

text \<open>Use count plus queued objects, in the counter's own arithmetic.\<close>

definition pool_total :: "'a Pool \<Rightarrow> size_t" where
  "pool_total p = m_sizeUseCnt p + of_nat (length (m_queue p))"

fun created :: "'a pool_op list \<Rightarrow> 'a pool_out list \<Rightarrow> size_t" where
  "created (Op_Create _ # cs) (Out_Flag True # outs) = 1 + created cs outs"
| "created (_ # cs) (_ # outs) = created cs outs"
| "created _ _ = 0"

lemma created_Cons: "created (c # cs) (out # outs) = created [c] [out] + created cs outs"
  by (cases "(c # cs, out # outs)" rule: created.cases) auto

lemma pool_exec_ready: "pool_ready p \<Longrightarrow> pool_ready (snd (pool_exec c p))"
  by (cases c) (simp_all add: Create_def pool_ready_Acquire pool_ready_Restore)

lemma pool_exec_max: "m_sizeFlexibleMaxCnt (snd (pool_exec c p)) = m_sizeFlexibleMaxCnt p"
  by (cases c) (auto simp: Acquire_def Create_def Restore_def queue_push_def Let_def split: list.splits)

lemma pool_exec_refines:
  "pool_ready p \<Longrightarrow>
     apsnd m_queue (pool_exec c p) = spec_exec (unat (m_sizeFlexibleMaxCnt p)) c (m_queue p)"
  by (cases c) (auto simp: Acquire_def Create_def Restore_room Restore_full split: list.splits)

lemma pool_exec_total:
  "pool_ready p \<Longrightarrow>
     pool_total (snd (pool_exec c p)) = pool_total p + created [c] [fst (pool_exec c p)]"
  by (cases c; cases "length (m_queue p) < unat (m_sizeFlexibleMaxCnt p)")
    (auto simp: Acquire_def Create_def Restore_room Restore_full pool_total_def split: list.splits)

section \<open>Properties\<close>

text \<open>
  C5. Every sequence of acquire, restore and create operations on a pool that nobody is blocked on
  behaves, result by result, as a bounded first-in first-out queue.
\<close>

theorem pool_refines_bounded_queue:
  assumes "pool_ready p"
  shows "apsnd m_queue (pool_run cs p) = spec_run (unat (m_sizeFlexibleMaxCnt p)) cs (m_queue p)"
  using assms
proof (induction cs arbitrary: p)
  case Nil
  then show ?case by simp
next
  case (Cons c cs)
  obtain out p1 where e: "pool_exec c p = (out, p1)" by fastforce
  obtain outs p2 where r: "pool_run cs p1 = (outs, p2)" by fastforce
  have "pool_ready p1" and "m_sizeFlexibleMaxCnt p1 = m_sizeFlexibleMaxCnt p"
    using pool_exec_ready[OF Cons.prems, of c] pool_exec_max[of c p] by (simp_all add: e)
  then have "spec_run (unat (m_sizeFlexibleMaxCnt p)) cs (m_queue p1) = (outs, m_queue p2)"
    using Cons.IH[of p1] by (simp add: r)
  then show ?case
    using pool_exec_refines[OF Cons.prems, of c, symmetric] by (simp add: e r)
qed

theorem pool_refines_bounded_queue_witness:
  "apsnd m_queue (pool_run [Op_Create 7, Op_Create 8, Op_Create (9::nat), Op_Acquire] (Pool_new 2))
     = ([Out_Flag True, Out_Flag True, Out_Flag False, Out_Object (Some 7)], [8])"
proof -
  have ready: "pool_ready (Pool_new 2 :: nat Pool)"
    by (rule pool_ready_new) simp
  show ?thesis
    using pool_refines_bounded_queue[OF ready, of "[Op_Create 7, Op_Create 8, Op_Create 9, Op_Acquire]"]
    by (simp add: Pool_new_def)
qed

text \<open>
  C19. Objects are conserved: over any sequence of operations the use count plus the queued objects
  changes only by the objects successfully created, in the counter's own wrap-around arithmetic.
\<close>

theorem pool_conserves_objects:
  assumes "pool_ready p" and "pool_run cs p = (outs, p')"
  shows "pool_total p' = pool_total p + created cs outs"
  using assms
proof (induction cs arbitrary: p outs p')
  case Nil
  then show ?case by simp
next
  case (Cons c cs)
  obtain out p1 where e: "pool_exec c p = (out, p1)" by fastforce
  obtain outs' where r: "pool_run cs p1 = (outs', p')" and outs: "outs = out # outs'"
    using Cons.prems(2) by (auto simp: e split: prod.splits)
  have "pool_ready p1"
    using pool_exec_ready[OF Cons.prems(1), of c] by (simp add: e)
  then have "pool_total p' = pool_total p1 + created cs outs'"
    using Cons.IH r by blast
  moreover have "pool_total p1 = pool_total p + created [c] [out]"
    using pool_exec_total[OF Cons.prems(1), of c] by (simp add: e)
  moreover have "created (c # cs) (out # outs') = created [c] [out] + created cs outs'"
    by (rule created_Cons)
  ultimately show ?case
    by (simp add: outs)
qed

theorem pool_conserves_objects_witness:
  "pool_total (snd (pool_run [Op_Create (7::nat), Op_Acquire] (Pool_new 2))) = 1"
proof -
  have ready: "pool_ready (Pool_new 2 :: nat Pool)"
    by (rule pool_ready_new) simp
  have run: "pool_run [Op_Create (7::nat), Op_Acquire] (Pool_new 2)
      = ([Out_Flag True, Out_Object (Some 7)], (Pool_new 2)\<lparr>m_sizeUseCnt := 1\<rparr>)"
    by (simp add: Create_def Restore_def has_room_def queue_size_def queue_push_def Pool_new_def)
  show ?thesis
    unfolding run snd_conv
    using pool_conserves_objects[OF ready run] by (simp add: pool_total_def Pool_new_def)
qed

text \<open>
  C29. While a caller of \<open>WaitAcquire\<close> is blocked, no \<open>Restore\<close> and no \<open>Create\<close> succeeds: the
  negative queue size becomes a huge unsigned number in the room test, so the object is refused, the
  pool does not change and the blocked caller is not woken.
\<close>

theorem Restore_refused_while_waiting:
  assumes "m_queue p = []" and "0 < m_waiting p" and "m_waiting p \<le> 2 ^ 31"
    and "unat (m_sizeFlexibleMaxCnt p) \<le> 2 ^ 63"
  shows "Restore p ob c = (False, p)"
  using negative_size_has_no_room[OF assms] by (auto simp: Restore_def split: option.splits)

theorem Restore_refused_while_waiting_witness:
  "Restore (snd (WaitAcquire (Pool_new 2))) (Some (7::nat)) False = (False, snd (WaitAcquire (Pool_new 2)))"
  by (rule Restore_refused_while_waiting) (simp_all add: WaitAcquire_def Pool_new_def)

end
