(* ===== verification/Map_Container.thy ===== *)
theory Map_Container
  imports Prelude
begin

text \<open>
  The class template \<open>MapContainer\<close> (include/util/container.h): a hash map that keeps the first
  value inserted under a key. The container is a finite map. The order in which the hash map is
  iterated is not specified by boost, so the operations that iterate take the iteration as a
  parameter; \<open>iterates\<close> states what is known of it.
\<close>

type_synonym ('k, 'v) container = "'k \<rightharpoonup> 'v"

definition MapContainer_new :: "('k, 'v) container" where
  "MapContainer_new = Map.empty"

text \<open>A pointer to a mapped value, or the null pointer: the value it points to, or \<open>None\<close>.\<close>

definition Find :: "('k, 'v) container \<Rightarrow> 'k \<Rightarrow> 'v option" where
  "Find m_cacheContainer key = m_cacheContainer key"

definition Insert :: "('k, 'v) container \<Rightarrow> 'k \<Rightarrow> 'v \<Rightarrow> bool \<times> ('k, 'v) container" where
  "Insert m_cacheContainer key value =
     (case Find m_cacheContainer key of
        None \<Rightarrow> (True, m_cacheContainer(key \<mapsto> value))
      | Some p \<Rightarrow> (False, m_cacheContainer))"

definition Getvalue :: "('k, 'v) container \<Rightarrow> 'k \<Rightarrow> 'v option" where
  "Getvalue m_cacheContainer key =
     (case Find m_cacheContainer key of Some p \<Rightarrow> Some p | None \<Rightarrow> None)"

definition GetContainer :: "('k, 'v) container \<Rightarrow> ('k, 'v) container" where
  "GetContainer m_cacheContainer = m_cacheContainer"

text \<open>
  \<open>AllValue\<close> collects the address of the mapped value of each element, but the loop variable is a
  copy of the element: every pointer refers to a variable of the loop, not to the container.
\<close>

datatype 'k value_ptr = Into_Container 'k | Loop_Variable

definition AllValue :: "(('k, 'v) container \<Rightarrow> ('k \<times> 'v) list) \<Rightarrow> ('k, 'v) container \<Rightarrow> 'k value_ptr list" where
  "AllValue iter m_cacheContainer = map (\<lambda>value. Loop_Variable) (iter m_cacheContainer)"

section \<open>What is known of an iteration\<close>

definition iterates :: "(('k, 'v) container \<Rightarrow> ('k \<times> 'v) list) \<Rightarrow> ('k, 'v) container \<Rightarrow> bool" where
  "iterates iter c \<longleftrightarrow> distinct (map fst (iter c)) \<and> map_of (iter c) = c"

lemma AllValue_never_into_container: "Into_Container k \<notin> set (AllValue iter c)"
  by (auto simp: AllValue_def)

section \<open>The contract of a registry\<close>

text \<open>
  What the handler manager and the redis connector rely on: a value is found under the key it was
  inserted with, unless the key was taken. Inside the contract, registering a list of pairs makes
  the first pair of each key the one that is found.
\<close>

locale registry =
  fixes emp :: 'c
    and ins :: "'c \<Rightarrow> 'k \<Rightarrow> 'v \<Rightarrow> bool \<times> 'c"
    and get :: "'c \<Rightarrow> 'k \<Rightarrow> 'v option"
  assumes get_emp: "get emp k = None"
    and ins_flag: "fst (ins c k v) \<longleftrightarrow> get c k = None"
    and get_ins: "get (snd (ins c k v)) k' = (if k' = k \<and> get c k = None then Some v else get c k')"
begin

lemma get_after_inserts:
  "get (fold (\<lambda>(k, v) c. snd (ins c k v)) kvs c) k
     = (case get c k of Some v \<Rightarrow> Some v | None \<Rightarrow> map_of kvs k)"
proof (induction kvs arbitrary: c)
  case Nil
  then show ?case by (simp split: option.splits)
next
  case (Cons kv kvs)
  obtain k0 v0 where kv: "kv = (k0, v0)" by fastforce
  show ?case
    by (auto simp: kv Cons.IH get_ins split: option.splits)
qed

lemma get_after_registering: "get (fold (\<lambda>(k, v) c. snd (ins c k v)) kvs emp) k = map_of kvs k"
  by (simp add: get_after_inserts get_emp)

end

interpretation mc: registry MapContainer_new Insert Getvalue
  by unfold_locales
    (auto simp: MapContainer_new_def Insert_def Getvalue_def Find_def split: option.splits)

lemma Getvalue_apply [simp]: "Getvalue c k = c k"
  by (simp add: Getvalue_def Find_def split: option.splits)

end
