(* ===== verification/Handler_Manager.thy ===== *)
theory Handler_Manager
  imports Map_Container
begin

text \<open>
  The class \<open>HandlerManager\<close> (include/handler/handler_manager.h, src/lib/handler_manager.cpp): the
  table from protocol numbers to packet handlers.

  A handler is called with the packet's bytes and their number and returns a response as a pointer
  and a size; a null pointer or a size of zero means no response. Handlers have effects of their
  own, so a handler is a function on a state \<open>'w\<close> the table knows nothing about, and it may fault.
\<close>

type_synonym ResultObject = "addr \<times> size_t"

type_synonym 'w FunctionObject = "bytes \<Rightarrow> size_t \<Rightarrow> 'w \<Rightarrow> (ResultObject \<times> 'w) result"

type_synonym 'w HandlerManager = "(i32, 'w FunctionObject) container"

definition HandlerManager_new :: "'w HandlerManager" where
  "HandlerManager_new = MapContainer_new"

text \<open>The value-initialised tuple: null pointer, size zero.\<close>

definition no_response :: ResultObject where
  "no_response = (NULL, 0)"

definition Processing :: "'w HandlerManager \<Rightarrow> i32 \<Rightarrow> bytes \<Rightarrow> size_t \<Rightarrow> 'w \<Rightarrow> (ResultObject \<times> 'w) result" where
  "Processing m_handler protocol_no buffer size_of_buffer w =
     (case Getvalue m_handler protocol_no of
        Some objFunc \<Rightarrow> objFunc buffer size_of_buffer w
      | None \<Rightarrow> Inr (no_response, w))"

definition ProtocolRegister :: "'w HandlerManager \<Rightarrow> i32 \<Rightarrow> 'w FunctionObject \<Rightarrow> 'w HandlerManager" where
  "ProtocolRegister m_handler protocol_no func_object = snd (Insert m_handler protocol_no func_object)"

definition ProtocolListGet ::
  "('w HandlerManager \<Rightarrow> (i32 \<times> 'w FunctionObject) list) \<Rightarrow> 'w HandlerManager \<Rightarrow> i32 list \<Rightarrow> i32 list" where
  "ProtocolListGet iter m_handler protocol_list =
     fold (\<lambda>key acc. acc @ [fst key]) (iter (GetContainer m_handler)) protocol_list"

text \<open>Registering several handlers one after the other.\<close>

definition register_all :: "(i32 \<times> 'w FunctionObject) list \<Rightarrow> 'w HandlerManager \<Rightarrow> 'w HandlerManager" where
  "register_all hs hm = fold (\<lambda>(no, f) h. ProtocolRegister h no f) hs hm"

lemma register_all_lookup: "register_all hs HandlerManager_new no = map_of hs no"
proof -
  have "register_all hs HandlerManager_new = fold (\<lambda>(k, v) c. snd (Insert c k v)) hs MapContainer_new"
    unfolding register_all_def HandlerManager_new_def ProtocolRegister_def ..
  then show ?thesis
    using mc.get_after_registering[of hs no] by simp
qed

lemma fold_snoc_map: "fold (\<lambda>x acc. acc @ [f x]) xs acc = acc @ map f xs"
  by (induction xs arbitrary: acc) simp_all

section \<open>Properties\<close>

text \<open>
  C20. Dispatch after any sequence of registrations: a packet is processed by the handler that was
  registered first under its protocol number, and a packet whose number was never registered gets
  no response and changes nothing.
\<close>

theorem dispatch_first_registration:
  "Processing (register_all hs HandlerManager_new) no buf n w
     = (case map_of hs no of Some f \<Rightarrow> f buf n w | None \<Rightarrow> Inr (no_response, w))"
  by (simp add: Processing_def register_all_lookup)

text \<open>
  The protocol list holds every registered protocol number exactly once and nothing else,
  appended to what the caller's list held before, whatever the order the hash map is iterated in.
\<close>

lemma protocol_list_complete:
  assumes "iterates iter (register_all hs HandlerManager_new)"
  shows "\<exists>nos. ProtocolListGet iter (register_all hs HandlerManager_new) before = before @ nos
           \<and> distinct nos \<and> set nos = set (map fst hs)"
proof -
  let ?hm = "register_all hs HandlerManager_new"
  have "?hm = map_of hs"
    by (rule ext) (rule register_all_lookup)
  then have dom: "dom ?hm = set (map fst hs)"
    by (simp add: dom_map_of_conv_image_fst)
  have "set (map fst (iter ?hm)) = dom ?hm"
    using assms by (metis iterates_def dom_map_of_conv_image_fst list.set_map)
  moreover have "ProtocolListGet iter ?hm before = before @ map fst (iter ?hm)"
    by (simp add: ProtocolListGet_def GetContainer_def fold_snoc_map)
  ultimately show ?thesis
    using assms dom by (auto simp: iterates_def)
qed

end
