(* ===== verification/Header_Class.thy ===== *)
theory Header_Class
  imports Prelude
begin

text \<open>
  The abstract class \<open>Header\<close> (include/net/header.h, src/lib/header.cpp) through which the sessions
  see a packet header, and the factory that makes headers (include/net/header_factory.h). A class
  derived from \<open>Header\<close> is a value of its own state type together with its virtual functions, kept
  in a record as the compiler keeps them in a table.
\<close>

section \<open>The virtual functions\<close>

record 'h Header_vtbl =
  v_GetHeaderSize :: "'h \<Rightarrow> size_t"
  v_GetBodySize :: "'h \<Rightarrow> size_t"
  v_GetEnderSize :: "'h \<Rightarrow> size_t"
  v_GetTotalSize :: "'h \<Rightarrow> size_t"
  v_Serialize :: "'h \<Rightarrow> bytes \<Rightarrow> size_t \<Rightarrow> (size_t \<times> bytes) result"
  v_Deserialize :: "'h \<Rightarrow> bytes \<Rightarrow> size_t \<Rightarrow> (size_t \<times> 'h) result"
  v_Validate :: "'h \<Rightarrow> bool"
  v_CheckEndmarker :: "'h \<Rightarrow> bytes \<Rightarrow> size_t \<Rightarrow> bool"
  v_SetHeaderSize :: "'h \<Rightarrow> size_t \<Rightarrow> 'h"
  v_SetDataSize :: "'h \<Rightarrow> size_t \<Rightarrow> 'h"
  v_HostToNetwork :: "'h \<Rightarrow> 'h"
  v_NetworkToHost :: "'h \<Rightarrow> 'h"
  v_GetNetworkEndMarker :: u32
  v_GetProtocolNo :: "'h \<Rightarrow> u16"

text \<open>
  The virtual functions with a body of their own: the trailer is empty unless a class says otherwise,
  and the end marker is 0.
\<close>

definition Header_GetEnderSize :: size_t where
  "Header_GetEnderSize = 0"

definition Header_GetNetworkEndMarker :: u32 where
  "Header_GetNetworkEndMarker = 0"

section \<open>The factory\<close>

text \<open>
  \<open>HeaderFactory\<close> keeps the closure that makes headers; \<open>None\<close> is the null closure of the singleton
  before \<open>SetClosure\<close>. A closure makes a header in the memory it is given (the argument \<open>'m\<close>: what that
  memory holds) or throws (\<open>Inl\<close>); \<open>MakeHeader\<close> turns both a missing closure and an exception into the
  null pointer.
\<close>

type_synonym ('m, 'e, 'h) HeaderClosure = "'m \<Rightarrow> 'e + 'h"

record ('m, 'e, 'h) HeaderFactory =
  m_bSetHeader :: bool
  m_pClosure :: "(('m, 'e, 'h) HeaderClosure) option"

text \<open>The class \<open>LambdaHeaderClosure\<close> wraps a function object, which \<open>MakeHeader\<close> calls.\<close>

definition LambdaHeaderClosure_MakeHeader :: "('m \<Rightarrow> 'e + 'h) \<Rightarrow> ('m, 'e, 'h) HeaderClosure" where
  "LambdaHeaderClosure_MakeHeader m_headerMaker = (\<lambda>m. m_headerMaker m)"

definition make_header_closure :: "('m \<Rightarrow> 'e + 'h) \<Rightarrow> (('m, 'e, 'h) HeaderClosure) option" where
  "make_header_closure f = Some (LambdaHeaderClosure_MakeHeader f)"

definition HeaderFactory_new :: "('m, 'e, 'h) HeaderFactory" where
  "HeaderFactory_new = \<lparr>m_bSetHeader = False, m_pClosure = None\<rparr>"

definition MakeHeader_factory :: "('m, 'e, 'h) HeaderFactory \<Rightarrow> 'm \<Rightarrow> 'h option" where
  "MakeHeader_factory f m =
     (case m_pClosure f of
        Some closure \<Rightarrow> (case closure m of Inr p \<Rightarrow> Some p | Inl ex \<Rightarrow> None)
      | None \<Rightarrow> None)"

definition isSetHeader :: "('m, 'e, 'h) HeaderFactory \<Rightarrow> bool" where
  "isSetHeader f = m_bSetHeader f"

definition SetClosure ::
  "('m, 'e, 'h) HeaderFactory \<Rightarrow> (('m, 'e, 'h) HeaderClosure) option \<Rightarrow> bool \<times> ('m, 'e, 'h) HeaderFactory" where
  "SetClosure f p_closure =
     (case p_closure of
        Some c \<Rightarrow> (True, f\<lparr>m_pClosure := Some c, m_bSetHeader := True\<rparr>)
      | None \<Rightarrow> (False, f))"

lemma factory_makes: "MakeHeader_factory (snd (SetClosure f (make_header_closure (\<lambda>m. Inr (g m))))) m = Some (g m)"
  by (simp add: MakeHeader_factory_def SetClosure_def make_header_closure_def LambdaHeaderClosure_MakeHeader_def)

section \<open>The contract of a header\<close>

text \<open>
  What a session relies on when it reads a packet: a header of the class can be read from its own
  number of bytes without a fault, reading does not change the sizes of the header and of the
  trailer, the total is the sum of the parts, and the sizes are small enough that adding them does
  not wrap around.
\<close>

locale header_class =
  fixes V :: "'h Header_vtbl"
    and good :: "'h \<Rightarrow> bool"
  assumes deserialize_ok: "good h \<Longrightarrow> unat (v_GetHeaderSize V h) \<le> length buf \<Longrightarrow>
      \<exists>h'. v_Deserialize V h buf (v_GetHeaderSize V h) = Inr (v_GetHeaderSize V h, h') \<and> good h'
        \<and> v_GetHeaderSize V h' = v_GetHeaderSize V h \<and> v_GetEnderSize V h' = v_GetEnderSize V h"
    and total_size: "good h \<Longrightarrow>
      v_GetTotalSize V h = v_GetHeaderSize V h + v_GetBodySize V h + v_GetEnderSize V h"
    and body_bound: "good h \<Longrightarrow> unat (v_GetBodySize V h) < 2 ^ 32"
    and sizes_bound: "good h \<Longrightarrow> unat (v_GetHeaderSize V h) + unat (v_GetEnderSize V h) < 2 ^ 32"
begin

lemma body_and_ender:
  assumes "good h"
  shows "unat (v_GetBodySize V h + v_GetEnderSize V h)
    = unat (v_GetBodySize V h) + unat (v_GetEnderSize V h)"
  using body_bound[OF assms] sizes_bound[OF assms] by (intro unat_add_nowrap) simp

lemma total_size_nat:
  assumes "good h"
  shows "unat (v_GetTotalSize V h)
    = unat (v_GetHeaderSize V h) + unat (v_GetBodySize V h) + unat (v_GetEnderSize V h)"
proof -
  have "unat (v_GetHeaderSize V h + v_GetBodySize V h) = unat (v_GetHeaderSize V h) + unat (v_GetBodySize V h)"
    using body_bound[OF assms] sizes_bound[OF assms] by (intro unat_add_nowrap) simp
  then show ?thesis
    using assms body_bound[OF assms] sizes_bound[OF assms]
    by (simp add: total_size unat_add_nowrap)
qed

end

end
