(* ===== verification/Header_CCT.thy ===== *)
theory Header_CCT
  imports Header_Class Byte_Order Memory_Manager
begin

text \<open>
  The packet header of the sample server and client: the packed structures \<open>SD_HEADER\<close> and
  \<open>SD_ENDER\<close> (src/dummyServer/header_cct.h; src/testClient/header_cct.h declares the same) and the
  class \<open>HeaderCCT\<close> as the server implements it (src/dummyServer/header_cct.cpp). The client's
  version of the class is in the theory \<open>Header_Client\<close>.
\<close>

section \<open>The packed structures\<close>

record SD_HEADER =
  h_cVer :: u16
  h_szSign :: bytes
  h_type :: u16
  h_length :: u32
  h_nHandle :: u32
  h_cEncType :: u8
  h_szOpt :: bytes
  h_cFindSig :: u8
  h_clientData :: u32
  h_wOpt :: u16

record SD_ENDER =
  e_cVer :: u16
  e_type :: u16
  e_length :: u32
  e_wOpt :: u16
  e_dwSerial :: u32
  e_szOpt :: bytes

text \<open>The arrays have the lengths of their declarations.\<close>

definition wf_header :: "SD_HEADER \<Rightarrow> bool" where
  "wf_header h \<longleftrightarrow> length (h_szSign h) = 10 \<and> length (h_szOpt h) = 3"

definition wf_ender :: "SD_ENDER \<Rightarrow> bool" where
  "wf_ender e \<longleftrightarrow> length (e_szOpt e) = 2"

text \<open>
  The object representation under \<open>#pragma pack(1)\<close>: the fields in order of declaration with no
  padding.
\<close>

definition header_bytes :: "SD_HEADER \<Rightarrow> bytes" where
  "header_bytes h =
     le_bytes 2 (h_cVer h) @ h_szSign h @ le_bytes 2 (h_type h) @ le_bytes 4 (h_length h)
     @ le_bytes 4 (h_nHandle h) @ le_bytes 1 (h_cEncType h) @ h_szOpt h @ le_bytes 1 (h_cFindSig h)
     @ le_bytes 4 (h_clientData h) @ le_bytes 2 (h_wOpt h)"

definition header_of_bytes :: "bytes \<Rightarrow> SD_HEADER" where
  "header_of_bytes bs =
     \<lparr>h_cVer = le_word (take 2 bs), h_szSign = take 10 (drop 2 bs),
      h_type = le_word (take 2 (drop 12 bs)), h_length = le_word (take 4 (drop 14 bs)),
      h_nHandle = le_word (take 4 (drop 18 bs)), h_cEncType = le_word (take 1 (drop 22 bs)),
      h_szOpt = take 3 (drop 23 bs), h_cFindSig = le_word (take 1 (drop 26 bs)),
      h_clientData = le_word (take 4 (drop 27 bs)), h_wOpt = le_word (take 2 (drop 31 bs))\<rparr>"

definition ender_bytes :: "SD_ENDER \<Rightarrow> bytes" where
  "ender_bytes e =
     le_bytes 2 (e_cVer e) @ le_bytes 2 (e_type e) @ le_bytes 4 (e_length e)
     @ le_bytes 2 (e_wOpt e) @ le_bytes 4 (e_dwSerial e) @ e_szOpt e"

definition sizeof_SD_HEADER :: size_t where
  "sizeof_SD_HEADER = 33"

definition sizeof_SD_ENDER :: size_t where
  "sizeof_SD_ENDER = 16"

lemma length_header_bytes [enc_simps]: "wf_header h \<Longrightarrow> length (header_bytes h) = 33"
  by (simp add: header_bytes_def wf_header_def)

lemma length_ender_bytes [enc_simps]: "wf_ender e \<Longrightarrow> length (ender_bytes e) = 16"
  by (simp add: ender_bytes_def wf_ender_def)

lemma wf_header_of_bytes [simp]: "length bs = 33 \<Longrightarrow> wf_header (header_of_bytes bs)"
  by (simp add: header_of_bytes_def wf_header_def)

lemma header_of_bytes_header_bytes [enc_simps]:
  "wf_header h \<Longrightarrow> header_of_bytes (header_bytes h @ rest) = h"
  by (simp add: header_of_bytes_def header_bytes_def wf_header_def le_word_le_bytes del: le_bytes.simps)

lemma le_bytes_le_word_field:
  "length xs = n \<Longrightarrow> 8 * n \<le> LENGTH('a) \<Longrightarrow> le_bytes n (le_word xs :: 'a::len word) = xs"
  using le_bytes_le_word[where 'a = 'a and bs = xs] by simp

lemma take_drop_append:
  "j = i + a \<Longrightarrow> take a (drop i xs) @ take b (drop j xs) = take (a + b) (drop i xs)"
  by (simp add: take_add add.commute)

lemma take_drop_append2:
  "j = i + a \<Longrightarrow> take a (drop i xs) @ take b (drop j xs) @ ys = take (a + b) (drop i xs) @ ys"
  by (metis append_assoc take_drop_append)

lemma header_bytes_header_of_bytes [enc_simps]:
  assumes "length bs = 33"
  shows "header_bytes (header_of_bytes bs) = bs"
proof -
  have "header_bytes (header_of_bytes bs) =
      take 2 (drop 0 bs) @ take 10 (drop 2 bs) @ take 2 (drop 12 bs) @ take 4 (drop 14 bs)
      @ take 4 (drop 18 bs) @ take 1 (drop 22 bs) @ take 3 (drop 23 bs) @ take 1 (drop 26 bs)
      @ take 4 (drop 27 bs) @ take 2 (drop 31 bs)"
    using assms
    by (simp add: header_bytes_def header_of_bytes_def le_bytes_le_word_field del: le_bytes.simps)
  also have "\<dots> = take 33 (drop 0 bs)"
    by (simp only: take_drop_append take_drop_append2 add_0 one_plus_numeral numeral_plus_one arith_simps)
  finally show ?thesis
    using assms by simp
qed

section \<open>The class HeaderCCT of the server\<close>

record HeaderCCT =
  hc_sizeOfHeader :: size_t
  hc_sizeOfEnder :: size_t
  hc_header :: SD_HEADER
  hc_ender :: SD_ENDER
  hc_protocolNo :: u16
  hc_dataLen :: u32

text \<open>The constructor clears the header structure; the trailer structure is left as it was.\<close>

definition zero_header :: SD_HEADER where
  "zero_header = header_of_bytes (replicate 33 0)"

definition zero_ender :: SD_ENDER where
  "zero_ender = \<lparr>e_cVer = 0, e_type = 0, e_length = 0, e_wOpt = 0, e_dwSerial = 0, e_szOpt = [0, 0]\<rparr>"

definition HeaderCCT_new :: "SD_ENDER \<Rightarrow> HeaderCCT" where
  "HeaderCCT_new uninit =
     \<lparr>hc_sizeOfHeader = sizeof_SD_HEADER, hc_sizeOfEnder = sizeof_SD_ENDER,
      hc_header = zero_header, hc_ender = uninit, hc_protocolNo = 0, hc_dataLen = 0\<rparr>"

definition GetHeaderSize :: "HeaderCCT \<Rightarrow> size_t" where
  "GetHeaderSize h = hc_sizeOfHeader h"

definition GetBodySize :: "HeaderCCT \<Rightarrow> size_t" where
  "GetBodySize h = ucast (hc_dataLen h)"

definition GetEnderSize :: "HeaderCCT \<Rightarrow> size_t" where
  "GetEnderSize h = hc_sizeOfEnder h"

definition GetTotalSize :: "HeaderCCT \<Rightarrow> size_t" where
  "GetTotalSize h = hc_sizeOfHeader h + ucast (hc_dataLen h) + hc_sizeOfEnder h"

definition Serialize :: "HeaderCCT \<Rightarrow> bytes \<Rightarrow> size_t \<Rightarrow> (size_t \<times> bytes) result" where
  "Serialize h p_buffer size_of_buffer =
     bind_result (WriteToBuffer_n p_buffer size_of_buffer 0 (header_bytes (hc_header h)) sizeof_SD_HEADER)
       (\<lambda>(ok, index, buffer'). Inr (index, buffer'))"

definition NetworkToHost :: "bool \<Rightarrow> HeaderCCT \<Rightarrow> HeaderCCT" where
  "NetworkToHost en h =
     (let hd = (hc_header h)\<lparr>h_type := network_to_host_u16 en (h_type (hc_header h)),
                             h_length := network_to_host_u32 en (h_length (hc_header h))\<rparr>
      in h\<lparr>hc_header := hd, hc_protocolNo := h_type hd, hc_dataLen := h_length hd\<rparr>)"

text \<open>The result of the bounded read is ignored, so the conversion runs even when nothing was read.\<close>

definition Deserialize :: "bool \<Rightarrow> HeaderCCT \<Rightarrow> bytes \<Rightarrow> size_t \<Rightarrow> (size_t \<times> HeaderCCT) result" where
  "Deserialize en h p_buffer size_of_buffer =
     bind_result (ReadFromBuffer_n p_buffer size_of_buffer 0 (header_bytes (hc_header h)) sizeof_SD_HEADER)
       (\<lambda>(ok, index, bs). Inr (index, NetworkToHost en (h\<lparr>hc_header := header_of_bytes bs\<rparr>)))"

definition GetProtocolNo :: "HeaderCCT \<Rightarrow> u16" where
  "GetProtocolNo h = hc_protocolNo h"

definition Validate :: "HeaderCCT \<Rightarrow> bool" where
  "Validate h = True"

definition CheckEndmarker :: "HeaderCCT \<Rightarrow> bytes \<Rightarrow> size_t \<Rightarrow> bool" where
  "CheckEndmarker h buffer ender_len = True"

definition SetHeaderSize :: "HeaderCCT \<Rightarrow> size_t \<Rightarrow> HeaderCCT" where
  "SetHeaderSize h sz = h\<lparr>hc_sizeOfHeader := sz\<rparr>"

definition MAXUINT16 :: size_t where
  "MAXUINT16 = 65535"

definition SetDataSize :: "HeaderCCT \<Rightarrow> size_t \<Rightarrow> HeaderCCT" where
  "SetDataSize h sz =
     (if sz > MAXUINT16 then h\<lparr>hc_dataLen := ucast MAXUINT16\<rparr>
      else h\<lparr>hc_dataLen := ucast (ucast sz :: u16)\<rparr>)"

definition HostToNetwork :: "HeaderCCT \<Rightarrow> HeaderCCT" where
  "HostToNetwork h = h"

text \<open>The first seven bytes of the signature: the characters \<^verbatim>\<open>G~E%tXO\<close>.\<close>

definition signature :: bytes where
  "signature = [0x47, 0x7E, 0x45, 0x25, 0x74, 0x58, 0x4F]"

text \<open>\<open>rnd\<close> is the value \<open>rand()\<close> returns.\<close>

definition MakeHeader :: "bool \<Rightarrow> nat \<Rightarrow> HeaderCCT \<Rightarrow> u16 \<Rightarrow> u32 \<Rightarrow> size_t \<times> HeaderCCT" where
  "MakeHeader en rnd h protocol_no data_len =
     (sizeof_SD_HEADER,
      h\<lparr>hc_protocolNo := protocol_no, hc_dataLen := data_len,
        hc_header := (hc_header h)
          \<lparr>h_szSign := signature @ drop 7 (h_szSign (hc_header h)),
           h_type := host_to_network_u16 en protocol_no,
           h_nHandle := host_to_network_i32 en 1,
           h_cFindSig := 0x50,
           h_cVer := host_to_network_u16 en 1111,
           h_length := host_to_network_u32 en data_len,
           h_wOpt := host_to_network_u16 en (of_nat (rnd mod 40)),
           h_cEncType := 0\<rparr>\<rparr>)"

definition MakeEnder :: "HeaderCCT \<Rightarrow> u32 \<Rightarrow> size_t \<times> HeaderCCT" where
  "MakeEnder h packet_count =
     (sizeof_SD_ENDER,
      h\<lparr>hc_ender := (hc_ender h)
          \<lparr>e_cVer := h_cVer (hc_header h), e_type := h_type (hc_header h),
           e_length := h_length (hc_header h), e_wOpt := h_wOpt (hc_header h),
           e_dwSerial := packet_count\<rparr>\<rparr>)"

definition GetEnder :: "HeaderCCT \<Rightarrow> SD_ENDER" where
  "GetEnder h = hc_ender h"

definition server_vtbl :: "bool \<Rightarrow> HeaderCCT Header_vtbl" where
  "server_vtbl en =
     \<lparr>v_GetHeaderSize = GetHeaderSize, v_GetBodySize = GetBodySize, v_GetEnderSize = GetEnderSize,
      v_GetTotalSize = GetTotalSize, v_Serialize = Serialize, v_Deserialize = Deserialize en,
      v_Validate = Validate, v_CheckEndmarker = CheckEndmarker, v_SetHeaderSize = SetHeaderSize,
      v_SetDataSize = SetDataSize, v_HostToNetwork = HostToNetwork, v_NetworkToHost = NetworkToHost en,
      v_GetNetworkEndMarker = Header_GetNetworkEndMarker, v_GetProtocolNo = GetProtocolNo\<rparr>"

lemmas header_getters = GetHeaderSize_def GetBodySize_def GetEnderSize_def GetTotalSize_def
  GetProtocolNo_def Validate_def CheckEndmarker_def

section \<open>Invariant\<close>

definition good_header :: "HeaderCCT \<Rightarrow> bool" where
  "good_header h \<longleftrightarrow> hc_sizeOfHeader h = sizeof_SD_HEADER \<and> hc_sizeOfEnder h = sizeof_SD_ENDER
     \<and> wf_header (hc_header h)"

lemma good_header_new: "good_header (HeaderCCT_new e)"
  by (simp add: good_header_def HeaderCCT_new_def zero_header_def)

lemma good_header_MakeHeader: "good_header h \<Longrightarrow> good_header (snd (MakeHeader en rnd h no len))"
  by (simp add: good_header_def MakeHeader_def wf_header_def signature_def)

lemma good_header_MakeEnder: "good_header h \<Longrightarrow> good_header (snd (MakeEnder h n))"
  by (simp add: good_header_def MakeEnder_def)

lemma good_header_SetDataSize: "good_header h \<Longrightarrow> good_header (SetDataSize h n)"
  by (simp add: good_header_def SetDataSize_def)

lemma good_header_NetworkToHost: "good_header h \<Longrightarrow> good_header (NetworkToHost en h)"
  by (simp add: good_header_def NetworkToHost_def wf_header_def Let_def)

lemma sizeof_values [simp]: "unat sizeof_SD_HEADER = 33" "unat sizeof_SD_ENDER = 16"
  by (simp_all add: sizeof_SD_HEADER_def sizeof_SD_ENDER_def)

lemma Deserialize_ok:
  assumes "good_header h" and "33 \<le> unat sz" and "unat sz \<le> length buf"
  shows "Deserialize en h buf sz
    = Inr (sizeof_SD_HEADER, NetworkToHost en (h\<lparr>hc_header := header_of_bytes (take 33 buf)\<rparr>))"
  using assms
  by (simp add: Deserialize_def ReadFromBuffer_n_ok length_header_bytes good_header_def)

lemma Deserialize_short:
  assumes "good_header h" and "unat sz < 33"
  shows "Deserialize en h buf sz = Inr (0, NetworkToHost en h)"
  using assms
  by (simp add: Deserialize_def ReadFromBuffer_n_short good_header_def
      header_of_bytes_header_bytes[where rest = "[]", simplified])

lemma Serialize_ok:
  assumes "good_header h" and "33 \<le> unat sz" and "unat sz \<le> length buf"
  shows "Serialize h buf sz = Inr (sizeof_SD_HEADER, header_bytes (hc_header h) @ drop 33 buf)"
  using assms
  by (simp add: Serialize_def WriteToBuffer_n_ok length_header_bytes good_header_def)

interpretation server_header: header_class "server_vtbl en" good_header for en
proof unfold_locales
  fix h :: HeaderCCT and buf :: bytes
  assume h: "good_header h"
  show "v_GetTotalSize (server_vtbl en) h = v_GetHeaderSize (server_vtbl en) h
      + v_GetBodySize (server_vtbl en) h + v_GetEnderSize (server_vtbl en) h"
    by (simp add: server_vtbl_def header_getters)
  show "unat (v_GetBodySize (server_vtbl en) h) < 2 ^ 32"
    using unat_u32_less[of "hc_dataLen h"]
    by (simp add: server_vtbl_def GetBodySize_def unat_size_of_u32)
  show "unat (v_GetHeaderSize (server_vtbl en) h) + unat (v_GetEnderSize (server_vtbl en) h) < 2 ^ 32"
    using h by (simp add: server_vtbl_def header_getters good_header_def)
  assume "unat (v_GetHeaderSize (server_vtbl en) h) \<le> length buf"
  then have "33 \<le> length buf"
    using h by (simp add: server_vtbl_def GetHeaderSize_def good_header_def)
  moreover have "good_header (h\<lparr>hc_header := header_of_bytes (take 33 buf)\<rparr>)"
    using h calculation by (simp add: good_header_def)
  ultimately show "\<exists>h'. v_Deserialize (server_vtbl en) h buf (v_GetHeaderSize (server_vtbl en) h)
        = Inr (v_GetHeaderSize (server_vtbl en) h, h') \<and> good_header h'
      \<and> v_GetHeaderSize (server_vtbl en) h' = v_GetHeaderSize (server_vtbl en) h
      \<and> v_GetEnderSize (server_vtbl en) h' = v_GetEnderSize (server_vtbl en) h"
    using h good_header_NetworkToHost[of "h\<lparr>hc_header := header_of_bytes (take 33 buf)\<rparr>" en]
    by (auto simp: server_vtbl_def header_getters good_header_def Deserialize_ok)
qed

section \<open>Properties\<close>

text \<open>
  The comment on \<open>SD_HEADER\<close> asks that the fields up to \<open>szOpt\<close>, the part that is encoded, fill 24
  bytes and so a multiple of eight. As declared they fill 26: the first byte that is not encoded,
  \<open>cFindSig\<close>, is at offset 26.
\<close>

lemma encoded_part_is_26_bytes:
  "wf_header h \<Longrightarrow>
     drop 26 (header_bytes h)
       = le_bytes 1 (h_cFindSig h) @ le_bytes 4 (h_clientData h) @ le_bytes 2 (h_wOpt h)"
  by (simp add: header_bytes_def wf_header_def del: le_bytes.simps)

text \<open>
  The packed header structure and its 33 bytes determine each other: reading the bytes of a
  header gives the header back, and any 33 bytes are the bytes of the header read from them.
\<close>

lemma header_struct_roundtrip:
  "(wf_header h \<longrightarrow> length (header_bytes h) = 33 \<and> header_of_bytes (header_bytes h) = h) \<and>
   (length bs = 33 \<longrightarrow> wf_header (header_of_bytes bs) \<and> header_bytes (header_of_bytes bs) = bs)"
  using header_of_bytes_header_bytes[of h "[]"]
  by (auto simp: length_header_bytes header_bytes_header_of_bytes)

text \<open>
  C6. A header made for a protocol number and a body length, written to a buffer and read by the
  peer's header object, gives the peer the same protocol number and body length and the total size
  of 33 + length + 16 bytes, whether or not the byte order conversions are compiled in (the same way
  on both sides).
\<close>

theorem header_send_receive:
  assumes "good_header s" and "good_header r" and "33 \<le> unat sz" and "unat sz \<le> length buf"
  shows "bind_result (Serialize (snd (MakeHeader en rnd s no len)) buf sz) (\<lambda>(_, buf').
           bind_result (Deserialize en r buf' sz) (\<lambda>(_, r').
             Inr (GetProtocolNo r', GetBodySize r', unat (GetTotalSize r'))))
       = Inr (no, ucast len, 49 + unat len)"
proof -
  let ?s = "snd (MakeHeader en rnd s no len)"
  have s: "good_header ?s" by (rule good_header_MakeHeader) (rule assms(1))
  then have w: "wf_header (hc_header ?s)" by (simp add: good_header_def)
  then have read: "header_of_bytes (take 33 (header_bytes (hc_header ?s) @ drop 33 buf)) = hc_header ?s"
    using header_of_bytes_header_bytes[OF w, of "[]"] by (simp add: length_header_bytes)
  define r' where "r' = NetworkToHost en (r\<lparr>hc_header := hc_header ?s\<rparr>)"
  have fields: "GetProtocolNo r' = no" "GetBodySize r' = ucast len"
    by (simp_all add: r'_def NetworkToHost_def MakeHeader_def header_getters Let_def
        bo_u16.ntoh_hton bo_u32.ntoh_hton)
  have "good_header r'"
    unfolding r'_def
    by (rule good_header_NetworkToHost) (use assms(2) w in \<open>simp add: good_header_def\<close>)
  then have total: "unat (GetTotalSize r') = 49 + unat len"
    using server_header.total_size_nat[of r' en] fields(2)
    by (simp add: server_vtbl_def unat_size_of_u32) (simp add: good_header_def header_getters)
  have "Deserialize en r (header_bytes (hc_header ?s) @ drop 33 buf) sz = Inr (sizeof_SD_HEADER, r')"
    using assms read w by (simp add: Deserialize_ok length_header_bytes r'_def)
  then show ?thesis
    using s assms by (simp add: Serialize_ok fields total)
qed

theorem header_send_receive_witness:
  "bind_result (Serialize (snd (MakeHeader True 17 (HeaderCCT_new zero_ender) 1010 5)) (replicate 40 0) 40) (\<lambda>(_, buf').
     bind_result (Deserialize True (HeaderCCT_new zero_ender) buf' 40) (\<lambda>(_, r').
       Inr (GetProtocolNo r', GetBodySize r', unat (GetTotalSize r'))))
   = Inr (1010, 5, 54)"
  using header_send_receive[OF good_header_new good_header_new, of 40 "replicate 40 0"] by simp

text \<open>
  \<open>SetDataSize\<close> keeps a body size of at most 65535 and replaces a larger one by 65535.
\<close>

lemma SetDataSize_clamps: "unat (GetBodySize (SetDataSize h n)) = min (unat n) 65535"
proof (cases "n > MAXUINT16")
  case True
  then have "65535 < unat n"
    by (simp add: MAXUINT16_def word_less_nat_alt)
  then show ?thesis
    using True by (simp add: SetDataSize_def GetBodySize_def MAXUINT16_def)
next
  case False
  then have n: "unat n \<le> 65535"
    by (simp add: MAXUINT16_def word_less_nat_alt)
  then have "unat (ucast n :: u16) = unat n"
    by (simp add: unsigned_ucast_eq take_bit_nat_eq_self)
  then show ?thesis
    using n False
    by (simp add: SetDataSize_def GetBodySize_def unat_size_of_u32 unat_u32_of_u16)
qed

text \<open>
  The headers a program gets that makes, sends and receives packets: from the constructor by
  \<open>MakeHeader\<close>, \<open>MakeEnder\<close>, \<open>SetDataSize\<close> and by \<open>Deserialize\<close> of whatever bytes have arrived.
  \<open>SetHeaderSize\<close>, which nothing calls, is not among them.
\<close>

inductive header_reachable :: "bool \<Rightarrow> HeaderCCT \<Rightarrow> bool" for en where
  constructed: "header_reachable en (HeaderCCT_new e)"
| made: "header_reachable en h \<Longrightarrow> header_reachable en (snd (MakeHeader en rnd h no len))"
| ended: "header_reachable en h \<Longrightarrow> header_reachable en (snd (MakeEnder h n))"
| sized: "header_reachable en h \<Longrightarrow> header_reachable en (SetDataSize h k)"
| received: "header_reachable en h \<Longrightarrow> Deserialize en h buf sz = Inr (j, h') \<Longrightarrow> header_reachable en h'"

lemma good_header_Deserialize:
  assumes "good_header h" and "Deserialize en h buf sz = Inr (j, h')"
  shows "good_header h'"
proof (cases "unat sz < 33")
  case True
  then show ?thesis
    using assms Deserialize_short[of h sz en buf] good_header_NetworkToHost[of h en] by simp
next
  case False
  then have sz: "\<not> sz < 0 + sizeof_SD_HEADER"
    by (simp add: word_less_nat_alt)
  have "33 \<le> length buf"
    using assms(2) sz
    by (auto simp: Deserialize_def ReadFromBuffer_n_def memcpy_def mem_read_def split: if_splits)
  then have "h' = NetworkToHost en (h\<lparr>hc_header := header_of_bytes (take 33 buf)\<rparr>)"
    using assms sz
    by (auto simp: Deserialize_def ReadFromBuffer_n_def memcpy_def mem_read_def mem_write_def good_header_def
        length_header_bytes split: if_splits)
  moreover have "good_header (h\<lparr>hc_header := header_of_bytes (take 33 buf)\<rparr>)"
    using assms(1) \<open>33 \<le> length buf\<close> by (simp add: good_header_def)
  ultimately show ?thesis
    by (simp add: good_header_NetworkToHost)
qed

lemma header_reachable_good: "header_reachable en h \<Longrightarrow> good_header h"
  by (induction rule: header_reachable.induct)
    (auto intro: good_header_new good_header_MakeHeader good_header_MakeEnder good_header_SetDataSize
      good_header_Deserialize)

text \<open>
  C26. Every header of such a program is well formed: its arrays have their declared lengths, its
  representation has exactly 33 bytes, and its sizes are those of the packed structures, so that the
  total size is that of the body and 49. This holds even after headers with arbitrary contents were
  received.
\<close>

theorem headers_stay_well_formed:
  assumes "header_reachable en h"
  shows "wf_header (hc_header h) \<and> length (header_bytes (hc_header h)) = 33
    \<and> GetTotalSize h = GetBodySize h + 49"
  using header_reachable_good[OF assms]
  by (simp add: good_header_def length_header_bytes header_getters sizeof_SD_HEADER_def sizeof_SD_ENDER_def)

theorem headers_stay_well_formed_witness:
  "\<exists>h. Deserialize True (HeaderCCT_new zero_ender) (replicate 40 255) 40 = Inr (33, h)
    \<and> length (header_bytes (hc_header h)) = 33 \<and> GetTotalSize h = GetBodySize h + 49"
proof -
  obtain h where h: "Deserialize True (HeaderCCT_new zero_ender) (replicate 40 255) 40 = Inr (33, h)"
    using Deserialize_ok[OF good_header_new, of 40 "replicate 40 255" True zero_ender]
    by (simp add: sizeof_SD_HEADER_def del: replicate.simps)
  then have "header_reachable True h"
    by (rule header_reachable.received[OF header_reachable.constructed])
  from headers_stay_well_formed[OF this] h show ?thesis by blast
qed

end
