(* ===== verification/Header_Client.thy ===== *)
theory Header_Client
  imports Header_CCT
begin

text \<open>
  The class \<open>HeaderCCT\<close> as the sample client implements it (src/testClient/header_cct.h,
  src/testClient/header_cct.cpp), function by function. The client declares the same structures and
  members as the server, so the records are shared. Most functions turn out to be those of the server;
  what differs is that \<open>Serialize\<close> is empty, \<open>HostToNetwork\<close> converts the two members and not the
  structure, and \<open>MakeHeader\<close> stores values in host order and ends with \<open>HostToNetwork\<close>.
\<close>

section \<open>Operations\<close>

definition client_HeaderCCT_new :: "SD_ENDER \<Rightarrow> HeaderCCT" where
  "client_HeaderCCT_new uninit =
     \<lparr>hc_sizeOfHeader = sizeof_SD_HEADER, hc_sizeOfEnder = sizeof_SD_ENDER,
      hc_header = header_of_bytes (replicate 33 0), hc_ender = uninit, hc_protocolNo = 0, hc_dataLen = 0\<rparr>"

definition client_GetHeaderSize :: "HeaderCCT \<Rightarrow> size_t" where
  "client_GetHeaderSize h = hc_sizeOfHeader h"

definition client_GetBodySize :: "HeaderCCT \<Rightarrow> size_t" where
  "client_GetBodySize h = ucast (hc_dataLen h)"

definition client_GetEnderSize :: "HeaderCCT \<Rightarrow> size_t" where
  "client_GetEnderSize h = hc_sizeOfEnder h"

definition client_GetTotalSize :: "HeaderCCT \<Rightarrow> size_t" where
  "client_GetTotalSize h = hc_sizeOfHeader h + ucast (hc_dataLen h) + hc_sizeOfEnder h"

definition client_GetProtocolNo :: "HeaderCCT \<Rightarrow> u16" where
  "client_GetProtocolNo h = hc_protocolNo h"

definition client_Validate :: "HeaderCCT \<Rightarrow> bool" where
  "client_Validate h = True"

definition client_CheckEndmarker :: "HeaderCCT \<Rightarrow> bytes \<Rightarrow> size_t \<Rightarrow> bool" where
  "client_CheckEndmarker h buffer ender_len = True"

definition client_SetHeaderSize :: "HeaderCCT \<Rightarrow> size_t \<Rightarrow> HeaderCCT" where
  "client_SetHeaderSize h sz = h\<lparr>hc_sizeOfHeader := sz\<rparr>"

definition client_SetDataSize :: "HeaderCCT \<Rightarrow> size_t \<Rightarrow> HeaderCCT" where
  "client_SetDataSize h sz =
     (if sz > MAXUINT16 then h\<lparr>hc_dataLen := ucast MAXUINT16\<rparr>
      else h\<lparr>hc_dataLen := ucast (ucast sz :: u16)\<rparr>)"

definition client_MakeEnder :: "HeaderCCT \<Rightarrow> u32 \<Rightarrow> size_t \<times> HeaderCCT" where
  "client_MakeEnder h packet_count =
     (sizeof_SD_ENDER,
      h\<lparr>hc_ender := (hc_ender h)
          \<lparr>e_cVer := h_cVer (hc_header h), e_type := h_type (hc_header h),
           e_length := h_length (hc_header h), e_wOpt := h_wOpt (hc_header h),
           e_dwSerial := packet_count\<rparr>\<rparr>)"

definition client_Serialize :: "HeaderCCT \<Rightarrow> bytes \<Rightarrow> size_t \<Rightarrow> (size_t \<times> bytes) result" where
  "client_Serialize h p_buffer size_of_buffer = Inr (0, p_buffer)"

definition client_NetworkToHost :: "bool \<Rightarrow> HeaderCCT \<Rightarrow> HeaderCCT" where
  "client_NetworkToHost en h =
     (let hd = (hc_header h)\<lparr>h_type := network_to_host_u16 en (h_type (hc_header h)),
                             h_length := network_to_host_u32 en (h_length (hc_header h))\<rparr>
      in h\<lparr>hc_header := hd, hc_protocolNo := h_type hd, hc_dataLen := h_length hd\<rparr>)"

definition client_Deserialize :: "bool \<Rightarrow> HeaderCCT \<Rightarrow> bytes \<Rightarrow> size_t \<Rightarrow> (size_t \<times> HeaderCCT) result" where
  "client_Deserialize en h p_buffer size_of_buffer =
     bind_result (ReadFromBuffer_n p_buffer size_of_buffer 0 (header_bytes (hc_header h)) sizeof_SD_HEADER)
       (\<lambda>(ok, index, bs). Inr (index, client_NetworkToHost en (h\<lparr>hc_header := header_of_bytes bs\<rparr>)))"

definition client_HostToNetwork :: "bool \<Rightarrow> HeaderCCT \<Rightarrow> HeaderCCT" where
  "client_HostToNetwork en h =
     h\<lparr>hc_protocolNo := host_to_network_u16 en (hc_protocolNo h),
       hc_dataLen := host_to_network_u32 en (hc_dataLen h)\<rparr>"

definition client_MakeHeader :: "bool \<Rightarrow> nat \<Rightarrow> HeaderCCT \<Rightarrow> u16 \<Rightarrow> u32 \<Rightarrow> size_t \<times> HeaderCCT" where
  "client_MakeHeader en rnd h protocol_no data_len =
     (sizeof_SD_HEADER,
      client_HostToNetwork en
       (h\<lparr>hc_protocolNo := protocol_no, hc_dataLen := data_len,
          hc_header := (hc_header h)
            \<lparr>h_szSign := signature @ drop 7 (h_szSign (hc_header h)),
             h_type := protocol_no, h_nHandle := 1, h_cFindSig := 0x50, h_cVer := 1010,
             h_length := data_len, h_wOpt := of_nat (rnd mod 40), h_cEncType := 0\<rparr>\<rparr>))"

definition client_vtbl :: "bool \<Rightarrow> HeaderCCT Header_vtbl" where
  "client_vtbl en =
     \<lparr>v_GetHeaderSize = client_GetHeaderSize, v_GetBodySize = client_GetBodySize, v_GetEnderSize = client_GetEnderSize,
      v_GetTotalSize = client_GetTotalSize, v_Serialize = client_Serialize, v_Deserialize = client_Deserialize en,
      v_Validate = client_Validate, v_CheckEndmarker = client_CheckEndmarker, v_SetHeaderSize = client_SetHeaderSize,
      v_SetDataSize = client_SetDataSize, v_HostToNetwork = client_HostToNetwork en,
      v_NetworkToHost = client_NetworkToHost en, v_GetNetworkEndMarker = Header_GetNetworkEndMarker,
      v_GetProtocolNo = client_GetProtocolNo\<rparr>"

section \<open>The contract\<close>

text \<open>The functions the two classes have in common.\<close>

lemma client_as_server:
  "client_HeaderCCT_new = HeaderCCT_new" "client_GetHeaderSize = GetHeaderSize" "client_GetBodySize = GetBodySize"
  "client_GetEnderSize = GetEnderSize" "client_GetTotalSize = GetTotalSize" "client_GetProtocolNo = GetProtocolNo"
  "client_Validate = Validate" "client_CheckEndmarker = CheckEndmarker" "client_SetHeaderSize = SetHeaderSize"
  "client_SetDataSize = SetDataSize" "client_MakeEnder = MakeEnder" "client_NetworkToHost = NetworkToHost"
  "client_Deserialize = Deserialize"
  by (simp_all add: fun_eq_iff client_HeaderCCT_new_def HeaderCCT_new_def zero_header_def header_getters
      client_GetHeaderSize_def client_GetBodySize_def client_GetEnderSize_def client_GetTotalSize_def
      client_GetProtocolNo_def client_Validate_def client_CheckEndmarker_def client_SetHeaderSize_def SetHeaderSize_def
      client_SetDataSize_def SetDataSize_def client_MakeEnder_def MakeEnder_def client_NetworkToHost_def
      NetworkToHost_def client_Deserialize_def Deserialize_def)

lemma client_vtbl_simps [simp]:
  "v_GetHeaderSize (client_vtbl en) = v_GetHeaderSize (server_vtbl en)"
  "v_GetBodySize (client_vtbl en) = v_GetBodySize (server_vtbl en)"
  "v_GetEnderSize (client_vtbl en) = v_GetEnderSize (server_vtbl en)"
  "v_GetTotalSize (client_vtbl en) = v_GetTotalSize (server_vtbl en)"
  "v_Deserialize (client_vtbl en) = v_Deserialize (server_vtbl en)"
  "v_Validate (client_vtbl en) = v_Validate (server_vtbl en)"
  "v_CheckEndmarker (client_vtbl en) = v_CheckEndmarker (server_vtbl en)"
  by (simp_all add: client_vtbl_def server_vtbl_def client_as_server)

interpretation client_header: header_class "client_vtbl en" good_header for en
  by unfold_locales
    (simp_all only: client_vtbl_simps server_header.deserialize_ok server_header.total_size
      server_header.body_bound server_header.sizes_bound)

lemma good_header_client_MakeHeader:
  "good_header h \<Longrightarrow> good_header (snd (client_MakeHeader en rnd h no len))"
  by (simp add: good_header_def client_MakeHeader_def client_HostToNetwork_def wf_header_def signature_def)

section \<open>Properties\<close>

text \<open>
  With the byte order conversions compiled in, the size members of a client header made for a
  body of \<open>len\<close> bytes describe a body of the byte-swapped length, because \<open>HostToNetwork\<close> converts
  the members the size functions read; and the header never reaches the send buffer, because
  \<open>Serialize\<close> writes nothing.
\<close>

lemma client_header_not_sent:
  assumes "good_header h"
  shows "unat (GetTotalSize (snd (client_MakeHeader True rnd h no len))) = 49 + unat (bswap 4 len)
    \<and> v_Serialize (client_vtbl True) (snd (client_MakeHeader True rnd h no len)) buf sz = Inr (0, buf)"
proof
  let ?h = "snd (client_MakeHeader True rnd h no len)"
  have good: "good_header ?h"
    using assms by (rule good_header_client_MakeHeader)
  have "GetBodySize ?h = ucast (bswap 4 len)"
    by (simp add: client_MakeHeader_def client_HostToNetwork_def GetBodySize_def byte_order_defs)
  then show "unat (GetTotalSize ?h) = 49 + unat (bswap 4 len)"
    using server_header.total_size_nat[OF good, of True] good
    by (simp add: server_vtbl_def unat_size_of_u32) (simp add: good_header_def header_getters)
  show "v_Serialize (client_vtbl True) ?h buf sz = Inr (0, buf)"
    by (simp add: client_vtbl_def client_Serialize_def)
qed

end
