(* ===== verification/Async_Session.thy ===== *)
theory Async_Session
  imports Header_Class Common_Pool Object_Pool
begin

text \<open>
  The asynchronous session (include/net/async_session_impl.h, src/lib/async_session_impl.cpp), the
  packet queue it feeds (include/net/network_define.h, src/lib/packet_worker_manager.cpp) and the
  pool it lives in (src/lib/async_session_pool.cpp).

  Everything a session reaches through its pointers (its pool, the packet queue, the buffers, the
  operating system's pending receives and writes) is one record, \<open>Net\<close>. Sessions are numbered by
  the identifier the pool gives them; buffers live in a heap, so that two pointers to one buffer see
  the same bytes. What the outside decides is an argument of the operation that observes it: the data
  and the error of a completed receive, the address and the contents of a block a pool hands out,
  whether closing a socket throws, and the value read through a dangling reference. Calls on the
  buffer pools are appended to a log. Logging is left out; it has no effect on the state.
\<close>

section \<open>State\<close>

datatype SessionPoolState = kNoneRegister | kAcquire | kRestore

record 'h AsyncSession =
  as_spHeader :: 'h
  as_szHeaderBuffer :: addr
  as_szBodyBuffer :: addr
  as_id :: size_t
  as_sizeOfBodyBuffer :: size_t
  as_sizeOfPrevBodyBuffer :: size_t
  as_sizeOfMaxBuffer :: size_t
  as_nSessionPoolState :: SessionPoolState
  as_open :: bool

record PacketInfo =
  pi_session :: nat
  pi_protocolNo :: i32
  pi_pBuffer :: addr
  pi_sizeOfBuffer :: size_t

text \<open>
  The coroutine of \<open>RecvProcess\<close>, suspended at one of its two receives with the buffer and the size
  the receive was started with, and a write handed to the operating system.
\<close>

datatype recv_phase = Await_Header | Await_Body

record coroutine =
  co_session :: nat
  co_phase :: recv_phase
  co_buffer :: addr
  co_size :: size_t

record pending_write =
  pw_session :: nat
  pw_data :: addr
  pw_length :: size_t

record ('h, 'u) Net =
  n_sessions :: "nat \<Rightarrow> 'h AsyncSession"
  n_pool :: "nat Pool"
  n_heap :: "addr \<Rightarrow> bytes"
  n_coroutines :: "coroutine list"
  n_packetQueue :: "PacketInfo list"
  n_writes :: "pending_write list"
  n_wire :: "(nat \<times> bytes) list"
  n_log :: "pool_event list"
  n_accepting :: "nat option"
  n_user :: 'u

definition upd_session :: "nat \<Rightarrow> ('h AsyncSession \<Rightarrow> 'h AsyncSession) \<Rightarrow> ('h, 'u) Net \<Rightarrow> ('h, 'u) Net" where
  "upd_session self f w = w\<lparr>n_sessions := (n_sessions w)(self := f (n_sessions w self))\<rparr>"

definition log_event :: "pool_event \<Rightarrow> ('h, 'u) Net \<Rightarrow> ('h, 'u) Net" where
  "log_event e w = w\<lparr>n_log := n_log w @ [e]\<rparr>"

text \<open>
  \<open>COMMON_POOL::New\<close> and \<open>COMMON_POOL::Delete\<close>: the pool returns the block \<open>buf\<close>, filled with
  whatever \<open>junk\<close> it held.
\<close>

definition pool_new :: "addr \<Rightarrow> bytes \<Rightarrow> size_t \<Rightarrow> ('h, 'u) Net \<Rightarrow> ('h, 'u) Net" where
  "pool_new buf junk n w =
     log_event (Allocated (COMMON_POOL_New n) buf)
       (w\<lparr>n_heap := (n_heap w)(buf := take (unat n) (junk @ replicate (unat n) 0))\<rparr>)"

definition pool_delete :: "addr \<Rightarrow> size_t \<Rightarrow> ('h, 'u) Net \<Rightarrow> bool \<times> ('h, 'u) Net" where
  "pool_delete buf n w =
     (let (deleted, call) = COMMON_POOL_Delete buf n in (deleted, log_event (Released call) w))"

text \<open>A completed receive has stored its bytes at the start of its buffer.\<close>

definition received :: "addr \<Rightarrow> bytes \<Rightarrow> ('h, 'u) Net \<Rightarrow> ('h, 'u) Net" where
  "received buf data w =
     w\<lparr>n_heap := (n_heap w)(buf := data @ drop (length data) (n_heap w buf))\<rparr>"

section \<open>The packet queue\<close>

definition PacketWorkerManager_Insert :: "PacketInfo \<Rightarrow> ('h, 'u) Net \<Rightarrow> ('h, 'u) Net" where
  "PacketWorkerManager_Insert packet_info w = w\<lparr>n_packetQueue := n_packetQueue w @ [packet_info]\<rparr>"

text \<open>A worker that pops from an empty queue is blocked: \<open>None\<close>.\<close>

definition GetPacketInfo :: "('h, 'u) Net \<Rightarrow> (PacketInfo \<times> ('h, 'u) Net) option" where
  "GetPacketInfo w =
     (case n_packetQueue w of [] \<Rightarrow> None | p # ps \<Rightarrow> Some (p, w\<lparr>n_packetQueue := ps\<rparr>))"

section \<open>The session\<close>

text \<open>
  The constructor. \<open>uninit\<close> is the value of \<open>m_sizeOfPrevBodyBuffer\<close>, which it does not set;
  \<open>max_buffer\<close> is the configured \<open>SESSION_BUFFER_MAX\<close>. The header pointer is not null: the factory has
  its closure before a pool is made.
\<close>

definition AsyncSessionImpl_new :: "'h \<Rightarrow> size_t \<Rightarrow> size_t \<Rightarrow> 'h AsyncSession" where
  "AsyncSessionImpl_new p_header max_buffer uninit =
     \<lparr>as_spHeader = p_header, as_szHeaderBuffer = NULL, as_szBodyBuffer = NULL, as_id = 0,
      as_sizeOfBodyBuffer = 0, as_sizeOfPrevBodyBuffer = uninit, as_sizeOfMaxBuffer = max_buffer,
      as_nSessionPoolState = kNoneRegister, as_open = False\<rparr>"

definition SetId :: "nat \<Rightarrow> size_t \<Rightarrow> ('h, 'u) Net \<Rightarrow> ('h, 'u) Net" where
  "SetId self sid w = upd_session self (\<lambda>s. s\<lparr>as_id := sid\<rparr>) w"

definition SetSessionPoolState :: "nat \<Rightarrow> SessionPoolState \<Rightarrow> ('h, 'u) Net \<Rightarrow> ('h, 'u) Net" where
  "SetSessionPoolState self st w = upd_session self (\<lambda>s. s\<lparr>as_nSessionPoolState := st\<rparr>) w"

text \<open>The parameters are copies, so clearing them changes nothing for the caller.\<close>

definition BufferRelease :: "addr \<Rightarrow> u32 \<Rightarrow> ('h, 'u) Net \<Rightarrow> bool \<times> ('h, 'u) Net" where
  "BufferRelease buffer buffer_size w = pool_delete buffer (ucast buffer_size) w"

definition Close :: "nat \<Rightarrow> bool \<Rightarrow> ('h, 'u) Net \<Rightarrow> bool \<times> ('h, 'u) Net" where
  "Close self close_throws w =
     (let opened = as_open (n_sessions w self);
          w1 = (if opened then upd_session self (\<lambda>s. s\<lparr>as_open := False\<rparr>) w else w)
      in if opened \<and> close_throws then (False, w1)
         else
           let s = n_sessions w1 self;
               w2 = (if as_szBodyBuffer s \<noteq> NULL \<and> as_sizeOfPrevBodyBuffer s \<noteq> 0
                     then snd (BufferRelease (as_szBodyBuffer s) (ucast (as_sizeOfPrevBodyBuffer s)) w1)
                     else w1);
               w3 = (if as_nSessionPoolState s = kAcquire
                     then SetSessionPoolState self kRestore
                            (w2\<lparr>n_pool := snd (SessionPool_Restore (n_pool w2) (Some self))\<rparr>)
                     else w2)
           in (True, w3))"

text \<open>
  \<open>ReadHeader\<close> runs when the receive of the header has completed; \<open>buf\<close> and \<open>junk\<close> are the block
  \<open>COMMON_POOL::New\<close> returns if it is called.
\<close>

definition ReadHeader ::
  "'h Header_vtbl \<Rightarrow> nat \<Rightarrow> bool \<Rightarrow> size_t \<Rightarrow> addr \<Rightarrow> bytes \<Rightarrow> bool \<Rightarrow> ('h, 'u) Net
     \<Rightarrow> (bool \<times> ('h, 'u) Net) result" where
  "ReadHeader V self error bytes_transferred buf junk close_throws w =
     (let s = n_sessions w self; h0 = as_spHeader s;
          closed = (\<lambda>w'. Inr (False, snd (Close self close_throws w')))
      in if error then closed w
         else if bytes_transferred \<noteq> v_GetHeaderSize V h0 then closed w
         else bind_result (v_Deserialize V h0 (n_heap w (as_szHeaderBuffer s)) (v_GetHeaderSize V h0))
           (\<lambda>(index, h).
              let w1 = upd_session self (\<lambda>s. s\<lparr>as_spHeader := h\<rparr>) w
              in if \<not> v_Validate V h then closed w1
                 else
                   let body = v_GetBodySize V h + v_GetEnderSize V h;
                       w2 = upd_session self (\<lambda>s. s\<lparr>as_sizeOfBodyBuffer := body\<rparr>) w1
                   in if as_sizeOfMaxBuffer s < body then closed w2
                      else if body > 0 then
                        Inr (True, pool_new buf junk body
                          (upd_session self (\<lambda>s. s\<lparr>as_szBodyBuffer := buf, as_sizeOfPrevBodyBuffer := body\<rparr>) w2))
                      else Inr (True, w2)))"

definition ReadBody ::
  "'h Header_vtbl \<Rightarrow> nat \<Rightarrow> bool \<Rightarrow> size_t \<Rightarrow> bool \<Rightarrow> ('h, 'u) Net \<Rightarrow> bool \<times> ('h, 'u) Net" where
  "ReadBody V self error byte_transferred close_throws w =
     (let s = n_sessions w self; h = as_spHeader s
      in if v_CheckEndmarker V h (n_heap w (as_szBodyBuffer s)) byte_transferred \<and> \<not> error
            \<and> as_sizeOfBodyBuffer s = byte_transferred
         then
           (True, upd_session self (\<lambda>s. s\<lparr>as_szBodyBuffer := NULL\<rparr>)
             (PacketWorkerManager_Insert
               \<lparr>pi_session = self, pi_protocolNo = ucast (v_GetProtocolNo V h),
                pi_pBuffer = as_szBodyBuffer s,
                pi_sizeOfBuffer = as_sizeOfBodyBuffer s - v_GetEnderSize V h\<rparr> w))
         else (False, snd (Close self close_throws w)))"

text \<open>
  The coroutine of \<open>RecvProcess\<close>, cut at its two suspension points: starting it (it runs up to the
  receive of the header), the completion of the header receive and the completion of the body
  receive, which starts it again.
\<close>

definition RecvProcess :: "'h Header_vtbl \<Rightarrow> nat \<Rightarrow> ('h, 'u) Net \<Rightarrow> ('h, 'u) Net" where
  "RecvProcess V self w =
     (let s = n_sessions w self
      in w\<lparr>n_coroutines := n_coroutines w @
           [\<lparr>co_session = self, co_phase = Await_Header, co_buffer = as_szHeaderBuffer s,
             co_size = v_GetHeaderSize V (as_spHeader s)\<rparr>]\<rparr>)"

definition recv_header ::
  "'h Header_vtbl \<Rightarrow> coroutine \<Rightarrow> bool \<Rightarrow> bytes \<Rightarrow> addr \<Rightarrow> bytes \<Rightarrow> bool \<Rightarrow> ('h, 'u) Net
     \<Rightarrow> (('h, 'u) Net) result" where
  "recv_header V c error data buf junk close_throws w =
     (let self = co_session c;
          w1 = received (co_buffer c) data (w\<lparr>n_coroutines := remove1 c (n_coroutines w)\<rparr>)
      in bind_result (ReadHeader V self error (of_nat (length data)) buf junk close_throws w1)
           (\<lambda>(go_on, w2). Inr
              (if go_on then
                 let s = n_sessions w2 self
                 in w2\<lparr>n_coroutines := n_coroutines w2 @
                      [\<lparr>co_session = self, co_phase = Await_Body, co_buffer = as_szBodyBuffer s,
                        co_size = as_sizeOfBodyBuffer s\<rparr>]\<rparr>
               else w2)))"

definition recv_body ::
  "'h Header_vtbl \<Rightarrow> coroutine \<Rightarrow> bool \<Rightarrow> bytes \<Rightarrow> bool \<Rightarrow> ('h, 'u) Net \<Rightarrow> ('h, 'u) Net" where
  "recv_body V c error data close_throws w =
     (let self = co_session c;
          w1 = received (co_buffer c) data (w\<lparr>n_coroutines := remove1 c (n_coroutines w)\<rparr>);
          (go_on, w2) = ReadBody V self error (of_nat (length data)) close_throws w1
      in if go_on then RecvProcess V self w2 else w2)"

text \<open>\<open>Recv\<close> takes the header buffer on the first use of the session and starts the coroutine.\<close>

definition Recv :: "'h Header_vtbl \<Rightarrow> nat \<Rightarrow> addr \<Rightarrow> bytes \<Rightarrow> ('h, 'u) Net \<Rightarrow> bool \<times> ('h, 'u) Net" where
  "Recv V self buf junk w =
     (let s = n_sessions w self;
          w1 = (if as_szHeaderBuffer s = NULL
                then pool_new buf junk (v_GetHeaderSize V (as_spHeader s))
                       (upd_session self (\<lambda>s. s\<lparr>as_szHeaderBuffer := buf\<rparr>) w)
                else w)
      in (True, RecvProcess V self w1))"

text \<open>
  \<open>SendProcess\<close> starts the write and returns. The completion handler runs later; it captured the
  length, a parameter of the finished call, by reference: \<open>stale\<close> is what it reads there. A write
  that succeeds has put the buffer's bytes on the wire.
\<close>

definition SendProcess :: "nat \<Rightarrow> addr \<Rightarrow> size_t \<Rightarrow> ('h, 'u) Net \<Rightarrow> ('h, 'u) Net" where
  "SendProcess self data data_length w =
     w\<lparr>n_writes := n_writes w @ [\<lparr>pw_session = self, pw_data = data, pw_length = data_length\<rparr>]\<rparr>"

definition Send :: "nat \<Rightarrow> addr \<Rightarrow> size_t \<Rightarrow> ('h, 'u) Net \<Rightarrow> bool \<times> ('h, 'u) Net" where
  "Send self data data_length w = (True, SendProcess self data data_length w)"

definition send_completed :: "pending_write \<Rightarrow> size_t \<Rightarrow> bool \<Rightarrow> bool \<Rightarrow> ('h, 'u) Net \<Rightarrow> ('h, 'u) Net" where
  "send_completed pw stale error close_throws w =
     (let sent = take (unat (pw_length pw)) (n_heap w (pw_data pw));
          w1 = w\<lparr>n_writes := remove1 pw (n_writes w),
                 n_wire := (if error then n_wire w else n_wire w @ [(pw_session pw, sent)])\<rparr>;
          w2 = snd (pool_delete (pw_data pw) stale w1)
      in if error then snd (Close (pw_session pw) close_throws w2) else w2)"

section \<open>The pool of sessions\<close>

text \<open>
  \<open>AsyncSessionPool::Initialize\<close>: a new container of the configured size, filled with as many new
  sessions, numbered from zero. \<open>hdr i\<close> is the header the factory makes for session \<open>i\<close>.
\<close>

fun create_sessions ::
  "(nat \<Rightarrow> 'h) \<Rightarrow> size_t \<Rightarrow> (nat \<Rightarrow> size_t) \<Rightarrow> nat list \<Rightarrow> ('h, 'u) Net \<Rightarrow> ('h, 'u) Net" where
  "create_sessions hdr max_buffer uninit [] w = w"
| "create_sessions hdr max_buffer uninit (i # is) w =
     (let w1 = upd_session i (\<lambda>_. AsyncSessionImpl_new (hdr i) max_buffer (uninit i)) w;
          w2 = SetId i (of_nat i) w1;
          w3 = w2\<lparr>n_pool := snd (SessionPool_Create (n_pool w2) (Some i))\<rparr>
      in create_sessions hdr max_buffer uninit is w3)"

definition AsyncSessionPool_Initialize ::
  "(nat \<Rightarrow> 'h) \<Rightarrow> size_t \<Rightarrow> (nat \<Rightarrow> size_t) \<Rightarrow> size_t \<Rightarrow> ('h, 'u) Net \<Rightarrow> ('h, 'u) Net" where
  "AsyncSessionPool_Initialize hdr max_buffer uninit pool_amt w =
     create_sessions hdr max_buffer uninit [0..<unat pool_amt] (w\<lparr>n_pool := Pool_new pool_amt\<rparr>)"

section \<open>Basic facts\<close>

lemmas net_defs = upd_session_def log_event_def pool_new_def pool_delete_def received_def
  PacketWorkerManager_Insert_def RecvProcess_def SetSessionPoolState_def BufferRelease_def

text \<open>The block a session gives back when it is closed, if it has one.\<close>

definition close_log :: "'h AsyncSession \<Rightarrow> pool_event list" where
  "close_log s =
     (if as_szBodyBuffer s \<noteq> NULL \<and> as_sizeOfPrevBodyBuffer s \<noteq> 0
      then [Released (snd (COMMON_POOL_Delete (as_szBodyBuffer s) (ucast (ucast (as_sizeOfPrevBodyBuffer s) :: u32))))]
      else [])"

lemma Close_log:
  "n_log (snd (Close self t w)) =
     (if as_open (n_sessions w self) \<and> t then n_log w else n_log w @ close_log (n_sessions w self))"
  by (simp add: Close_def net_defs close_log_def Let_def split_beta)

lemma Close_session:
  "n_sessions (snd (Close self t w)) = (n_sessions w)(self := (n_sessions w self)
     \<lparr>as_open := False, as_nSessionPoolState :=
        (if as_nSessionPoolState (n_sessions w self) = kAcquire \<and> \<not> (as_open (n_sessions w self) \<and> t)
         then kRestore else as_nSessionPoolState (n_sessions w self))\<rparr>)"
  by (auto simp: Close_def net_defs Let_def split_beta fun_eq_iff intro!: AsyncSession.equality)

lemma Close_pool:
  "n_pool (snd (Close self t w)) =
     (if as_nSessionPoolState (n_sessions w self) = kAcquire \<and> \<not> (as_open (n_sessions w self) \<and> t)
      then snd (SessionPool_Restore (n_pool w) (Some self)) else n_pool w)"
  by (simp add: Close_def net_defs Let_def split_beta)

lemma Close_frame [simp]:
  "n_heap (snd (Close self t w)) = n_heap w"
  "n_coroutines (snd (Close self t w)) = n_coroutines w"
  "n_packetQueue (snd (Close self t w)) = n_packetQueue w"
  "n_writes (snd (Close self t w)) = n_writes w"
  "n_wire (snd (Close self t w)) = n_wire w"
  "n_accepting (snd (Close self t w)) = n_accepting w"
  "n_user (snd (Close self t w)) = n_user w"
  by (simp_all add: Close_def net_defs Let_def split_beta)

lemma Close_keeps_close_log: "close_log (n_sessions (snd (Close self t w)) i) = close_log (n_sessions w i)"
  by (simp add: Close_session close_log_def)

text \<open>Closing a second time does not put the session into its pool a second time.\<close>

lemma Close_Close_pool: "n_pool (snd (Close self t (snd (Close self False w)))) = n_pool (snd (Close self False w))"
  by (simp add: Close_pool Close_session)

lemma dead_stays_dead:
  "ledger_step l e = Some l' \<Longrightarrow> l a = None \<Longrightarrow> \<forall>c. e \<noteq> Allocated c a \<Longrightarrow> l' a = None"
  by (cases e) (auto split: option.splits if_splits)

lemma freed_is_dead:
  "ledger_step l (Released c) = Some l' \<Longrightarrow> freed_addr c = Some a \<Longrightarrow> l' a = None"
  by (auto split: option.splits if_splits)

text \<open>A block released twice is refused, whatever comes between, unless it is handed out again.\<close>

lemma released_twice_refused:
  assumes "freed_addr c = Some a" and "freed_addr d = Some a" and "\<And>k. Allocated k a \<notin> set between"
  shows "ledger_run l (Released c # between @ [Released d]) = None"
proof -
  have dead: "ledger_run l' (between @ [Released d]) = None" if "l' a = None" for l'
    using that assms(3)
  proof (induction between arbitrary: l')
    case Nil
    then show ?case using assms(2) by simp
  next
    case (Cons b bs)
    show ?case
    proof (cases "ledger_step l' b")
      case None
      then show ?thesis by (simp del: ledger_step.simps)
    next
      case (Some l'')
      then have "l'' a = None" using Cons.prems by (auto intro: dead_stays_dead)
      then show ?thesis using Some Cons.IH Cons.prems(2) by (simp del: ledger_step.simps)
    qed
  qed
  show ?thesis
  proof (cases "ledger_step l (Released c)")
    case (Some l')
    then show ?thesis
      using dead freed_is_dead[OF Some assms(1)] by (simp del: ledger_step.simps)
  qed (simp del: ledger_step.simps)
qed

lemma ledger_run_refused_tail: "(\<And>l. ledger_run l es = None) \<Longrightarrow> ledger_run l (log @ es) = None"
  by (cases "ledger_run l log") (simp_all add: ledger_run_append)

section \<open>Reading a packet, for any header class\<close>

text \<open>The suspended coroutine of a session, as its members determine it.\<close>

definition header_coroutine :: "'h Header_vtbl \<Rightarrow> nat \<Rightarrow> ('h, 'u) Net \<Rightarrow> coroutine" where
  "header_coroutine V self w =
     \<lparr>co_session = self, co_phase = Await_Header, co_buffer = as_szHeaderBuffer (n_sessions w self),
      co_size = v_GetHeaderSize V (as_spHeader (n_sessions w self))\<rparr>"

definition body_coroutine :: "nat \<Rightarrow> ('h, 'u) Net \<Rightarrow> coroutine" where
  "body_coroutine self w =
     \<lparr>co_session = self, co_phase = Await_Body, co_buffer = as_szBodyBuffer (n_sessions w self),
      co_size = as_sizeOfBodyBuffer (n_sessions w self)\<rparr>"

text \<open>
  A frame as it arrives: the bytes of the header, the bytes of body and trailer, and the block the
  pool hands out for them. \<open>recv_frame\<close> completes the two receives of one frame, \<open>recv_frames\<close>
  those of a sequence of frames.
\<close>

type_synonym frame = "bytes \<times> bytes \<times> addr \<times> bytes"

definition recv_frame :: "'h Header_vtbl \<Rightarrow> nat \<Rightarrow> frame \<Rightarrow> ('h, 'u) Net \<Rightarrow> (('h, 'u) Net) result" where
  "recv_frame V self f w =
     (case f of (hdr, body, buf, junk) \<Rightarrow>
        bind_result (recv_header V (header_coroutine V self w) False hdr buf junk False w)
          (\<lambda>w1. Inr (recv_body V (body_coroutine self w1) False body False w1)))"

fun recv_frames :: "'h Header_vtbl \<Rightarrow> nat \<Rightarrow> frame list \<Rightarrow> ('h, 'u) Net \<Rightarrow> (('h, 'u) Net) result" where
  "recv_frames V self [] w = Inr w"
| "recv_frames V self (f # fs) w = bind_result (recv_frame V self f w) (recv_frames V self fs)"

text \<open>The state after the header of a well-formed frame.\<close>

lemma recv_header_ok:
  fixes w :: "('h, 'u) Net" and self :: nat and h :: 'h and body :: size_t and buf :: addr
  defines "s \<equiv> n_sessions w self"
  assumes hdr: "length (n_heap w (as_szHeaderBuffer s)) = length hdr"
      "of_nat (length hdr) = v_GetHeaderSize V (as_spHeader s)"
    and read: "v_Deserialize V (as_spHeader s) hdr (v_GetHeaderSize V (as_spHeader s)) = Inr (k, h)"
    and valid: "v_Validate V h" "v_GetBodySize V h + v_GetEnderSize V h = body"
      "body \<le> as_sizeOfMaxBuffer s" "0 < body"
  shows "recv_header V (header_coroutine V self w) False hdr buf junk False w = Inr (w
      \<lparr>n_sessions := (n_sessions w)(self := s\<lparr>as_spHeader := h, as_sizeOfBodyBuffer := body,
         as_szBodyBuffer := buf, as_sizeOfPrevBodyBuffer := body\<rparr>),
       n_heap := (n_heap w)(as_szHeaderBuffer s := hdr,
         buf := take (unat body) (junk @ replicate (unat body) 0)),
       n_coroutines := remove1 (header_coroutine V self w) (n_coroutines w)
         @ [\<lparr>co_session = self, co_phase = Await_Body, co_buffer = buf, co_size = body\<rparr>],
       n_log := n_log w @ [Allocated (COMMON_POOL_New body) buf]\<rparr>)"
  using hdr read valid
  by (auto simp: recv_header_def ReadHeader_def net_defs header_coroutine_def s_def Let_def intro!: Net.equality)

text \<open>The state after one complete and well-formed frame.\<close>

lemma recv_frame_ok:
  fixes w :: "('h, 'u) Net" and self :: nat and h :: 'h and body :: size_t and buf :: addr
  defines "s \<equiv> n_sessions w self"
  assumes hdr: "length (n_heap w (as_szHeaderBuffer s)) = length hdr"
      "of_nat (length hdr) = v_GetHeaderSize V (as_spHeader s)"
    and read: "v_Deserialize V (as_spHeader s) hdr (v_GetHeaderSize V (as_spHeader s)) = Inr (k, h)"
    and valid: "v_Validate V h" "v_GetBodySize V h + v_GetEnderSize V h = body"
      "body \<le> as_sizeOfMaxBuffer s" "0 < body" "length data = unat body"
      "v_CheckEndmarker V h data body" "buf \<noteq> as_szHeaderBuffer s"
  defines "s' \<equiv> s\<lparr>as_spHeader := h, as_sizeOfBodyBuffer := body, as_szBodyBuffer := NULL,
      as_sizeOfPrevBodyBuffer := body\<rparr>"
    and "cb \<equiv> \<lparr>co_session = self, co_phase = Await_Body, co_buffer = buf, co_size = body\<rparr>"
  shows "recv_frame V self (hdr, data, buf, junk) w = Inr (w
    \<lparr>n_sessions := (n_sessions w)(self := s'),
     n_heap := (n_heap w)(as_szHeaderBuffer s := hdr, buf := data),
     n_coroutines := remove1 cb (remove1 (header_coroutine V self w) (n_coroutines w) @ [cb])
       @ [\<lparr>co_session = self, co_phase = Await_Header, co_buffer = as_szHeaderBuffer s,
           co_size = v_GetHeaderSize V h\<rparr>],
     n_packetQueue := n_packetQueue w @ [\<lparr>pi_session = self, pi_protocolNo = ucast (v_GetProtocolNo V h),
       pi_pBuffer = buf, pi_sizeOfBuffer = body - v_GetEnderSize V h\<rparr>],
     n_log := n_log w @ [Allocated (COMMON_POOL_New body) buf]\<rparr>)"
proof -
  have len: "length data = unat body" "of_nat (length data) = body" using valid(5) by simp_all
  note header = recv_header_ok[where buf = buf and junk = junk, OF hdr[unfolded s_def] read[unfolded s_def]
      valid(1,2) valid(3)[unfolded s_def] valid(4)]
  have "as_szHeaderBuffer s' = as_szHeaderBuffer s" by (simp add: s'_def)
  then show ?thesis
    using header valid len
    by (auto simp: recv_frame_def recv_body_def body_coroutine_def ReadBody_def net_defs cb_def s_def s'_def Let_def
        intro!: Net.equality)
qed

text \<open>
  What the session relies on from its header class gives a receive of the header that cannot fault,
  whatever bytes arrive, and a body buffer of at most the configured size.
\<close>

context header_class
begin

lemma recv_header_safe:
  assumes "good (as_spHeader (n_sessions w self))" and "co_session c = self"
    and "co_buffer c = as_szHeaderBuffer (n_sessions w self)"
    and "unat (v_GetHeaderSize V (as_spHeader (n_sessions w self))) \<le> length (n_heap w (co_buffer c))"
  obtains w' where "recv_header V c error data buf junk t w = Inr w'"
    and "good (as_spHeader (n_sessions w' self))"
    and "v_GetHeaderSize V (as_spHeader (n_sessions w' self))
      = v_GetHeaderSize V (as_spHeader (n_sessions w self))"
    and "n_packetQueue w' = n_packetQueue w"
    and "n_coroutines w' = remove1 c (n_coroutines w) \<and> \<not> as_open (n_sessions w' self) \<or>
      (\<exists>b. n_coroutines w' = remove1 c (n_coroutines w) @ [b] \<and> co_session b = self \<and> co_phase b = Await_Body
        \<and> co_size b \<le> as_sizeOfMaxBuffer (n_sessions w self)
        \<and> (co_size b > 0 \<longrightarrow> co_buffer b = buf \<and> length (n_heap w' buf) = unat (co_size b)))"
proof -
  let ?h0 = "as_spHeader (n_sessions w self)"
  let ?heap = "data @ drop (length data) (n_heap w (co_buffer c))"
  have "unat (v_GetHeaderSize V ?h0) \<le> length ?heap" using assms(4) by simp
  from deserialize_ok[OF assms(1) this] obtain h where h:
    "v_Deserialize V ?h0 ?heap (v_GetHeaderSize V ?h0) = Inr (v_GetHeaderSize V ?h0, h)"
    "good h" "v_GetHeaderSize V h = v_GetHeaderSize V ?h0" by blast
  show ?thesis
  proof (cases "recv_header V c error data buf junk t w")
    case (Inl e)
    then show ?thesis
      using assms h by (auto simp: recv_header_def ReadHeader_def net_defs Let_def split: if_splits)
  next
    case (Inr w')
    show ?thesis
    proof (rule that[OF Inr])
      show "good (as_spHeader (n_sessions w' self))"
        "v_GetHeaderSize V (as_spHeader (n_sessions w' self)) = v_GetHeaderSize V ?h0"
        "n_packetQueue w' = n_packetQueue w"
        "n_coroutines w' = remove1 c (n_coroutines w) \<and> \<not> as_open (n_sessions w' self) \<or>
          (\<exists>b. n_coroutines w' = remove1 c (n_coroutines w) @ [b] \<and> co_session b = self \<and> co_phase b = Await_Body
          \<and> co_size b \<le> as_sizeOfMaxBuffer (n_sessions w self)
          \<and> (co_size b > 0 \<longrightarrow> co_buffer b = buf \<and> length (n_heap w' buf) = unat (co_size b)))"
        using assms h Inr
        by (auto simp: recv_header_def ReadHeader_def net_defs Close_session Let_def not_less split: if_splits)
    qed
  qed
qed

end

end
