(* ===== verification/Packet_Worker.thy ===== *)
theory Packet_Worker
  imports Async_Session Handler_Manager
begin

text \<open>
  The packet workers (include/net/packet_worker.h, src/lib/packet_worker.cpp) and the manager that
  starts them (src/lib/packet_worker_manager.cpp). A worker takes a packet from the queue, lets the
  handler table process it, releases the packet's buffer and sends the response, if there is one.
\<close>

section \<open>Operations\<close>

text \<open>A worker: the handler table it was given and the number of its thread.\<close>

record 'w PacketWorker =
  pk_spHandlerManager :: "'w HandlerManager"
  pk_nWorkerId :: int

definition SetHandlerManager :: "'w HandlerManager \<Rightarrow> 'w PacketWorker \<Rightarrow> 'w PacketWorker" where
  "SetHandlerManager handler_manager pk = pk\<lparr>pk_spHandlerManager := handler_manager\<rparr>"

definition PacketWorker_new :: "'w HandlerManager \<Rightarrow> 'w PacketWorker" where
  "PacketWorker_new p_handler_manager =
     SetHandlerManager p_handler_manager \<lparr>pk_spHandlerManager = HandlerManager_new, pk_nWorkerId = 0\<rparr>"

definition Run :: "int \<Rightarrow> 'w PacketWorker \<Rightarrow> 'w PacketWorker" where
  "Run worker_id pk = pk\<lparr>pk_nWorkerId := worker_id\<rparr>"

definition PacketWorker_Processing_packet ::
  "(('h, 'u) Net) PacketWorker \<Rightarrow> PacketInfo \<Rightarrow> ('h, 'u) Net \<Rightarrow> (('h, 'u) Net) result" where
  "PacketWorker_Processing_packet pk packet w =
     bind_result
       (Processing (pk_spHandlerManager pk) (pi_protocolNo packet) (n_heap w (pi_pBuffer packet))
          (pi_sizeOfBuffer packet) w)
       (\<lambda>((response, response_size), w1).
          let w2 = (if pi_pBuffer packet \<noteq> NULL \<and> pi_sizeOfBuffer packet > 0
                    then snd (BufferRelease (pi_pBuffer packet) (ucast (pi_sizeOfBuffer packet)) w1)
                    else w1)
          in Inr (if response \<noteq> NULL \<and> response_size > 0
                  then snd (Send (pi_session packet) response response_size w2)
                  else w2))"

text \<open>One round of \<open>Task\<close>; \<open>None\<close>: the worker is blocked on the empty queue.\<close>

definition PacketWorker_Processing ::
  "(('h, 'u) Net) PacketWorker \<Rightarrow> ('h, 'u) Net \<Rightarrow> ((('h, 'u) Net) result) option" where
  "PacketWorker_Processing pk w =
     (case GetPacketInfo w of
        None \<Rightarrow> None
      | Some (packet, w1) \<Rightarrow> Some (PacketWorker_Processing_packet pk packet w1))"

text \<open>\<open>Task\<close>, cut off after a number of rounds or when the worker blocks.\<close>

fun Task :: "nat \<Rightarrow> (('h, 'u) Net) PacketWorker \<Rightarrow> ('h, 'u) Net \<Rightarrow> (('h, 'u) Net) result" where
  "Task 0 pk w = Inr w"
| "Task (Suc rounds) pk w =
     (case PacketWorker_Processing pk w of
        None \<Rightarrow> Inr w
      | Some r \<Rightarrow> bind_result r (Task rounds pk))"

definition PacketWorkerManager_Initialize :: "'w HandlerManager \<Rightarrow> nat \<Rightarrow> 'w PacketWorker list" where
  "PacketWorkerManager_Initialize p_handler_manager m_workerCnt =
     map (\<lambda>i. Run (int i + 1) (PacketWorker_new p_handler_manager)) [0..<m_workerCnt]"

text \<open>
  The constructor. \<open>asserts\<close>: the program was built with \<open>BOOST_ASSERT\<close>, which then ends it when there is to
  be no worker. Creating the threads is taken to succeed.
\<close>

definition PacketWorkerManager_new :: "bool \<Rightarrow> size_t \<Rightarrow> 'w HandlerManager \<Rightarrow> ('w PacketWorker list) result" where
  "PacketWorkerManager_new asserts worker_cnt p_handler_manager =
     (if asserts \<and> \<not> 0 < worker_cnt then Inl Assertion_Failed
      else Inr (PacketWorkerManager_Initialize p_handler_manager (unat worker_cnt)))"

section \<open>Handlers that mind their own business\<close>

text \<open>
  A handler allocates its response and keeps state of its own; it does not touch sessions, pools,
  queues or the buffers in \<open>live\<close>.
\<close>

definition handler_frame :: "addr set \<Rightarrow> ('h, 'u) Net \<Rightarrow> ('h, 'u) Net \<Rightarrow> bool" where
  "handler_frame live w w' \<longleftrightarrow>
     n_sessions w' = n_sessions w \<and> n_pool w' = n_pool w \<and> n_coroutines w' = n_coroutines w
     \<and> n_packetQueue w' = n_packetQueue w \<and> n_writes w' = n_writes w \<and> n_wire w' = n_wire w
     \<and> n_accepting w' = n_accepting w \<and> (\<forall>a \<in> live. n_heap w' a = n_heap w a)"

lemma handler_frame_refl [simp]: "handler_frame live w w"
  by (simp add: handler_frame_def)

definition well_behaved :: "addr set \<Rightarrow> (('h, 'u) Net) HandlerManager \<Rightarrow> bool" where
  "well_behaved live hm \<longleftrightarrow>
     (\<forall>f \<in> ran hm. \<forall>buf n w r w'. f buf n w = Inr (r, w') \<longrightarrow> handler_frame live w w')"

lemma well_behaved_Processing:
  "well_behaved live hm \<Longrightarrow> Processing hm no buf n w = Inr (r, w') \<Longrightarrow> handler_frame live w w'"
  by (cases r) (auto simp: Processing_def well_behaved_def ran_def no_response_def split: option.splits)

text \<open>A round of a worker in pieces: the packet, what its handler returns, and what is done with both.\<close>

lemma PacketWorker_round:
  assumes "PacketWorker_Processing pk w = Some (Inr w')"
  obtains packet packets response response_size w1 where "n_packetQueue w = packet # packets"
    and "Processing (pk_spHandlerManager pk) (pi_protocolNo packet) (n_heap w (pi_pBuffer packet))
      (pi_sizeOfBuffer packet) (w\<lparr>n_packetQueue := packets\<rparr>) = Inr ((response, response_size), w1)"
    and "w' = (let w2 = (if pi_pBuffer packet \<noteq> NULL \<and> pi_sizeOfBuffer packet > 0
         then snd (BufferRelease (pi_pBuffer packet) (ucast (pi_sizeOfBuffer packet)) w1) else w1)
       in if response \<noteq> NULL \<and> response_size > 0 then snd (Send (pi_session packet) response response_size w2) else w2)"
proof -
  obtain packet packets where q: "n_packetQueue w = packet # packets"
    using assms by (auto simp: PacketWorker_Processing_def GetPacketInfo_def split: list.splits)
  then have "PacketWorker_Processing_packet pk packet (w\<lparr>n_packetQueue := packets\<rparr>) = Inr w'"
    using assms by (simp add: PacketWorker_Processing_def GetPacketInfo_def)
  then show thesis
    by (auto simp: PacketWorker_Processing_packet_def bind_result_eq_Inr_iff Let_def split_beta intro: that[OF q])
qed

text \<open>What a whole round of a worker changes: the queue, the writes, the log and the handler's own state.\<close>

lemma PacketWorker_Processing_frame:
  assumes "well_behaved live (pk_spHandlerManager pk)" and "PacketWorker_Processing pk w = Some (Inr w')"
  shows "n_sessions w' = n_sessions w \<and> n_pool w' = n_pool w \<and> n_coroutines w' = n_coroutines w
    \<and> n_wire w' = n_wire w \<and> n_accepting w' = n_accepting w \<and> (\<forall>a \<in> live. n_heap w' a = n_heap w a)
    \<and> n_packetQueue w' = tl (n_packetQueue w)"
proof -
  obtain packet packets rs r w1 where q: "n_packetQueue w = packet # packets"
    and p: "Processing (pk_spHandlerManager pk) (pi_protocolNo packet) (n_heap w (pi_pBuffer packet))
      (pi_sizeOfBuffer packet) (w\<lparr>n_packetQueue := packets\<rparr>) = Inr ((rs, r), w1)"
    and w': "w' = (let w2 = (if pi_pBuffer packet \<noteq> NULL \<and> pi_sizeOfBuffer packet > 0
         then snd (BufferRelease (pi_pBuffer packet) (ucast (pi_sizeOfBuffer packet)) w1) else w1)
       in if rs \<noteq> NULL \<and> r > 0 then snd (Send (pi_session packet) rs r w2) else w2)"
    by (rule PacketWorker_round[OF assms(2)])
  have "handler_frame live (w\<lparr>n_packetQueue := packets\<rparr>) w1"
    using well_behaved_Processing[OF assms(1) p] .
  then show ?thesis
    unfolding w' by (simp add: handler_frame_def q Send_def SendProcess_def net_defs Let_def split_beta)
qed

section \<open>Properties\<close>

text \<open>
  C30. The buffer of a packet was taken from the pools with the size of body and trailer, but the
  worker returns it with the size of the body alone. For the server's trailer of 16 bytes: the
  buffer of an empty body is never returned, and that of any other body goes back to the pool it
  came from exactly when the two sizes are in the same size class (256, 1024, 2048, 3072, 4096,
  6144, 8192 or 32768 bytes).
\<close>

theorem packet_buffer_release_matched_iff:
  assumes "body \<le> 32752" and "buf \<noteq> NULL"
    and "Processing (pk_spHandlerManager pk) no (n_heap w buf) body w = Inr (res, w1)"
  shows "\<exists>w'. PacketWorker_Processing_packet pk
        \<lparr>pi_session = i, pi_protocolNo = no, pi_pBuffer = buf, pi_sizeOfBuffer = body\<rparr> w = Inr w'
    \<and> (if body = 0 then n_log w' = n_log w1
       else \<exists>r. n_log w' = n_log w1 @ [Released r] \<and> freed_addr r = Some buf
         \<and> (matches (COMMON_POOL_New (body + 16)) r \<longleftrightarrow> size_class (body + 16) = size_class body))"
proof -
  have small: "unat body \<le> 32752"
    using assms(1) by (simp add: size_le_iff)
  then have "unat (ucast body :: u32) = unat body"
    by (simp add: unsigned_ucast_eq take_bit_nat_eq_self)
  then have cast: "ucast (ucast body :: u32) = body"
    by (simp add: word_unat_eq_iff unat_size_of_u32)
  have "unat (body + 16) = unat body + 16"
    using small by (subst unat_add_nowrap) simp_all
  then have "body + 16 \<le> 32768" "body \<le> 32768"
    using small by (simp_all add: size_le_iff)
  note match = matches_class_iff[OF this, of buf]
  show ?thesis
    using assms(2,3) cast match
    by (cases res) (auto simp: PacketWorker_Processing_packet_def Send_def SendProcess_def net_defs
        Let_def split_beta word_gt_0)
qed

text \<open>A server with no handler and no session in use.\<close>

definition empty_net :: "(unit, unit) Net" where
  "empty_net = \<lparr>n_sessions = (\<lambda>_. AsyncSessionImpl_new () 32768 0), n_pool = Pool_new 4,
     n_heap = (\<lambda>_. []), n_coroutines = [], n_packetQueue = [], n_writes = [], n_wire = [], n_log = [],
     n_accepting = None, n_user = ()\<rparr>"

theorem packet_buffer_release_matched_iff_witness:
  "\<exists>w'. PacketWorker_Processing_packet (PacketWorker_new HandlerManager_new)
      \<lparr>pi_session = 0, pi_protocolNo = 101, pi_pBuffer = 5, pi_sizeOfBuffer = 250\<rparr> empty_net = Inr w'
    \<and> (\<exists>r. n_log w' = [Released r] \<and> \<not> matches (COMMON_POOL_New 266) r)"
proof -
  have "Processing (pk_spHandlerManager (PacketWorker_new HandlerManager_new)) 101
      (n_heap empty_net 5) 250 empty_net = Inr (no_response, empty_net)"
    by (simp add: Processing_def PacketWorker_new_def SetHandlerManager_def HandlerManager_new_def
        MapContainer_new_def)
  from packet_buffer_release_matched_iff[OF _ _ this, of 0] show ?thesis
    by (auto simp: size_class_def empty_net_def)
qed

end
