(* ===== verification/Packet_Flow.thy ===== *)
theory Packet_Flow
  imports Async_Session Header_CCT "HOL-Library.Multiset"
begin

text \<open>
  The receiving side of a session with the header class of the server (src/dummyServer): the frames
  a peer sends with \<open>HeaderCCT\<close> become packets of the queue, in order and unchanged, and no bytes a
  peer can send make the session fault. Two properties of the ownership of the body buffer follow;
  they hold for every header class.
\<close>

section \<open>Frames on the wire\<close>

text \<open>
  A message of the peer: protocol number, body, the value of \<open>rand()\<close> for its header, and, on the
  receiving side, the block the pool hands out for it.
\<close>

record message =
  msg_no :: u16
  msg_body :: bytes
  msg_rand :: nat
  msg_buf :: addr
  msg_junk :: bytes

text \<open>The peer sends the header it made, the body, and the trailer it made.\<close>

definition wire_frame :: "bool \<Rightarrow> HeaderCCT \<Rightarrow> u32 \<Rightarrow> message \<Rightarrow> frame" where
  "wire_frame en s packet_count m =
     (let h = snd (MakeHeader en (msg_rand m) s (msg_no m) (of_nat (length (msg_body m))));
          e = snd (MakeEnder h packet_count)
      in (header_bytes (hc_header h), msg_body m @ ender_bytes (GetEnder e), msg_buf m, msg_junk m))"

definition packet_of :: "nat \<Rightarrow> message \<Rightarrow> PacketInfo" where
  "packet_of self m = \<lparr>pi_session = self, pi_protocolNo = ucast (msg_no m), pi_pBuffer = msg_buf m,
     pi_sizeOfBuffer = of_nat (length (msg_body m))\<rparr>"

text \<open>A session ready for the next header.\<close>

definition session_ready :: "nat \<Rightarrow> (HeaderCCT, 'u) Net \<Rightarrow> bool" where
  "session_ready self w \<longleftrightarrow> good_header (as_spHeader (n_sessions w self))
     \<and> length (n_heap w (as_szHeaderBuffer (n_sessions w self))) = 33"

definition fits :: "size_t \<Rightarrow> message \<Rightarrow> bool" where
  "fits limit m \<longleftrightarrow> length (msg_body m) < 2 ^ 32 \<and> length (msg_body m) + 16 \<le> unat limit"

lemma unat_of_nat_u32: "n < 2 ^ 32 \<Longrightarrow> unat (of_nat n :: u32) = n"
  by (simp add: unat_of_nat mod_less)

lemma made_header_read_back:
  assumes "good_header s" and "good_header r"
  obtains r' where "Deserialize en r (header_bytes (hc_header (snd (MakeHeader en rnd s no len)))) sizeof_SD_HEADER
      = Inr (sizeof_SD_HEADER, r')"
    and "good_header r'" and "GetProtocolNo r' = no" and "GetBodySize r' = ucast len"
proof -
  let ?s = "snd (MakeHeader en rnd s no len)"
  have w: "wf_header (hc_header ?s)"
    using good_header_MakeHeader[OF assms(1)] by (simp add: good_header_def)
  let ?r = "r\<lparr>hc_header := hc_header ?s\<rparr>"
  have "good_header ?r" using assms(2) w by (simp add: good_header_def)
  then have "good_header (NetworkToHost en ?r)" by (rule good_header_NetworkToHost)
  moreover have "header_of_bytes (header_bytes (hc_header ?s)) = hc_header ?s"
    using header_of_bytes_header_bytes[OF w, of "[]"] by simp
  then have "Deserialize en r (header_bytes (hc_header ?s)) sizeof_SD_HEADER
      = Inr (sizeof_SD_HEADER, NetworkToHost en ?r)"
    using assms(2) w by (simp add: Deserialize_ok length_header_bytes)
  moreover have "GetProtocolNo (NetworkToHost en ?r) = no" "GetBodySize (NetworkToHost en ?r) = ucast len"
    by (simp_all add: NetworkToHost_def MakeHeader_def header_getters Let_def
        bo_u16.ntoh_hton bo_u32.ntoh_hton)
  ultimately show thesis by (intro that)
qed

lemma wire_frame_bytes:
  assumes "good_header s" and "wf_ender (hc_ender s)"
  shows "length (ender_bytes (GetEnder (snd (MakeEnder (snd (MakeHeader en rnd s no len)) packet_count)))) = 16"
  using assms by (simp add: GetEnder_def MakeEnder_def MakeHeader_def ender_bytes_def wf_ender_def)

text \<open>What a session that is ready reads from the header of the frame, and the size of the body it
  then expects.\<close>

lemma wire_frame_header:
  fixes en :: bool and s :: HeaderCCT and m :: message
  defines "made \<equiv> hc_header (snd (MakeHeader en (msg_rand m) s (msg_no m) (of_nat (length (msg_body m)))))"
  assumes s: "good_header s" and ready: "session_ready self w"
    and fit: "fits (as_sizeOfMaxBuffer (n_sessions w self)) m"
  obtains r' where "Deserialize en (as_spHeader (n_sessions w self)) (header_bytes made) sizeof_SD_HEADER
      = Inr (sizeof_SD_HEADER, r')"
    and "good_header r'" and "GetProtocolNo r' = msg_no m" and "length (header_bytes made) = unat sizeof_SD_HEADER"
    and "unat (GetBodySize r' + GetEnderSize r') = length (msg_body m) + 16"
    and "GetBodySize r' = of_nat (length (msg_body m))"
proof -
  let ?n = "length (msg_body m)"
  have r: "good_header (as_spHeader (n_sessions w self))" using ready by (simp add: session_ready_def)
  obtain r' where r': "Deserialize en (as_spHeader (n_sessions w self)) (header_bytes made) sizeof_SD_HEADER
      = Inr (sizeof_SD_HEADER, r')"
    and good: "good_header r'" and no: "GetProtocolNo r' = msg_no m"
    and len: "GetBodySize r' = ucast (of_nat ?n :: u32)"
    using made_header_read_back[OF s r] unfolding made_def by blast
  have n: "unat (GetBodySize r') = ?n"
    using fit len by (simp add: fits_def unat_size_of_u32 unat_of_nat_u32)
  have "unat (GetBodySize r' + GetEnderSize r') = ?n + 16"
    using server_header.body_and_ender[OF good, of en] n good
    by (simp add: server_vtbl_def GetEnderSize_def good_header_def)
  moreover have "GetBodySize r' = of_nat ?n" using n[symmetric] by simp
  moreover have "length (header_bytes made) = unat sizeof_SD_HEADER"
    using good_header_MakeHeader[OF s] by (simp add: good_header_def made_def length_header_bytes)
  ultimately show thesis using r' good no by (intro that)
qed

lemma recv_wire_frame:
  assumes s: "good_header s" "wf_ender (hc_ender s)" and ready: "session_ready self w"
    and fit: "fits (as_sizeOfMaxBuffer (n_sessions w self)) m"
    and buf: "msg_buf m \<noteq> as_szHeaderBuffer (n_sessions w self)"
  obtains w' where "recv_frame (server_vtbl en) self (wire_frame en s packet_count m) w = Inr w'"
    and "session_ready self w'"
    and "as_sizeOfMaxBuffer (n_sessions w' self) = as_sizeOfMaxBuffer (n_sessions w self)"
    and "as_szHeaderBuffer (n_sessions w' self) = as_szHeaderBuffer (n_sessions w self)"
    and "n_packetQueue w' = n_packetQueue w @ [packet_of self m]"
    and "take (length (msg_body m)) (n_heap w' (msg_buf m)) = msg_body m"
    and "\<forall>a. a \<noteq> as_szHeaderBuffer (n_sessions w self) \<longrightarrow> a \<noteq> msg_buf m \<longrightarrow> n_heap w' a = n_heap w a"
    and "header_coroutine (server_vtbl en) self w \<in> set (n_coroutines w) \<longrightarrow>
      mset (n_coroutines w') = mset (n_coroutines w)"
    and "\<forall>j. as_szHeaderBuffer (n_sessions w' j) = as_szHeaderBuffer (n_sessions w j)"
    and "n_writes w' = n_writes w" and "n_wire w' = n_wire w" and "n_user w' = n_user w"
    and "n_pool w' = n_pool w" and "n_accepting w' = n_accepting w"
    and "\<forall>j. as_nSessionPoolState (n_sessions w' j) = as_nSessionPoolState (n_sessions w j)"
proof -
  let ?r = "as_spHeader (n_sessions w self)"
  obtain r' where r': "Deserialize en ?r (header_bytes (hc_header
        (snd (MakeHeader en (msg_rand m) s (msg_no m) (of_nat (length (msg_body m))))))) sizeof_SD_HEADER
      = Inr (sizeof_SD_HEADER, r')"
    and good: "good_header r'" and no: "GetProtocolNo r' = msg_no m"
    and hdr: "length (header_bytes (hc_header
        (snd (MakeHeader en (msg_rand m) s (msg_no m) (of_nat (length (msg_body m))))))) = unat sizeof_SD_HEADER"
    and body: "unat (GetBodySize r' + GetEnderSize r') = length (msg_body m) + 16"
    and size_of: "GetBodySize r' = of_nat (length (msg_body m))"
    by (rule wire_frame_header[OF s(1) ready fit])
  have size: "hc_sizeOfHeader ?r = sizeof_SD_HEADER" "hc_sizeOfHeader r' = sizeof_SD_HEADER"
    using ready good by (simp_all add: good_header_def session_ready_def)
  let ?body = "GetBodySize r' + GetEnderSize r'"
  note sender = hdr wire_frame_bytes[OF s]
  have pos: "0 < ?body" "?body \<le> as_sizeOfMaxBuffer (n_sessions w self)"
    using body fit by (simp_all add: fits_def size_le_iff size_less_iff)
  show thesis
  proof (rule that)
    show "recv_frame (server_vtbl en) self (wire_frame en s packet_count m) w = Inr (
       w\<lparr>n_sessions := (n_sessions w)(self := (n_sessions w self)\<lparr>as_spHeader := r',
           as_sizeOfBodyBuffer := ?body, as_szBodyBuffer := NULL, as_sizeOfPrevBodyBuffer := ?body\<rparr>),
         n_heap := (n_heap w)(as_szHeaderBuffer (n_sessions w self) := fst (wire_frame en s packet_count m),
           msg_buf m := fst (snd (wire_frame en s packet_count m))),
         n_coroutines := remove1 \<lparr>co_session = self, co_phase = Await_Body, co_buffer = msg_buf m, co_size = ?body\<rparr>
           (remove1 (header_coroutine (server_vtbl en) self w) (n_coroutines w)
             @ [\<lparr>co_session = self, co_phase = Await_Body, co_buffer = msg_buf m, co_size = ?body\<rparr>])
           @ [\<lparr>co_session = self, co_phase = Await_Header, co_buffer = as_szHeaderBuffer (n_sessions w self),
               co_size = GetHeaderSize r'\<rparr>],
         n_packetQueue := n_packetQueue w @ [packet_of self m],
         n_log := n_log w @ [Allocated (COMMON_POOL_New ?body) (msg_buf m)]\<rparr>)" (is "_ = Inr ?w'")
      unfolding wire_frame_def Let_def fst_conv snd_conv packet_of_def
      using ready r' sender body pos size_of buf size(1) no
      by (subst recv_frame_ok[where h = r' and k = sizeof_SD_HEADER and body = ?body])
        (simp_all add: session_ready_def server_vtbl_def header_getters sizeof_SD_HEADER_def)
    show "session_ready self ?w'"
      using good sender buf by (simp add: session_ready_def wire_frame_def Let_def)
    show "header_coroutine (server_vtbl en) self w \<in> set (n_coroutines w) \<longrightarrow>
        mset (n_coroutines ?w') = mset (n_coroutines w)"
      using size by (simp add: header_coroutine_def server_vtbl_def header_getters)
  qed (use buf in \<open>simp_all add: wire_frame_def Let_def\<close>)
qed

text \<open>Between the two receives of a frame: the session expects exactly the rest of the frame.\<close>

lemma wire_frame_rest_expected:
  assumes s: "good_header s" "wf_ender (hc_ender s)" and ready: "session_ready self w"
    and fit: "fits (as_sizeOfMaxBuffer (n_sessions w self)) m"
    and frame: "wire_frame en s packet_count m = (hdr, body, buf, junk)"
  shows "\<exists>w1. recv_header (server_vtbl en) (header_coroutine (server_vtbl en) self w) False hdr buf junk False w = Inr w1
    \<and> body_coroutine self w1 \<in> set (n_coroutines w1) \<and> length body = unat (co_size (body_coroutine self w1))
    \<and> length hdr = 33 \<and> n_packetQueue w1 = n_packetQueue w
    \<and> mset (n_coroutines w1) = mset (remove1 (header_coroutine (server_vtbl en) self w) (n_coroutines w)) + {#body_coroutine self w1#}
    \<and> as_szBodyBuffer (n_sessions w1 self) = buf \<and> as_sizeOfPrevBodyBuffer (n_sessions w1 self) \<noteq> 0
    \<and> as_szHeaderBuffer (n_sessions w1 self) = as_szHeaderBuffer (n_sessions w self)
    \<and> as_nSessionPoolState (n_sessions w1 self) = as_nSessionPoolState (n_sessions w self)
    \<and> n_pool w1 = n_pool w \<and> n_accepting w1 = n_accepting w \<and> n_writes w1 = n_writes w"
proof -
  let ?r = "as_spHeader (n_sessions w self)"
  obtain r' where r': "Deserialize en ?r (header_bytes (hc_header
        (snd (MakeHeader en (msg_rand m) s (msg_no m) (of_nat (length (msg_body m))))))) sizeof_SD_HEADER
      = Inr (sizeof_SD_HEADER, r')"
    and hdr: "length (header_bytes (hc_header
        (snd (MakeHeader en (msg_rand m) s (msg_no m) (of_nat (length (msg_body m))))))) = unat sizeof_SD_HEADER"
    and size: "unat (GetBodySize r' + GetEnderSize r') = length (msg_body m) + 16"
    by (rule wire_frame_header[OF s(1) ready fit])
  let ?body = "GetBodySize r' + GetEnderSize r'"
  have "0 < ?body" "?body \<le> as_sizeOfMaxBuffer (n_sessions w self)"
    using size fit by (simp_all add: fits_def size_le_iff size_less_iff)
  moreover have "hc_sizeOfHeader ?r = sizeof_SD_HEADER"
    using ready by (simp add: good_header_def session_ready_def)
  moreover have "hdr = header_bytes (hc_header (snd (MakeHeader en (msg_rand m) s (msg_no m) (of_nat (length (msg_body m))))))"
    "length body = length (msg_body m) + 16" "msg_buf m = buf"
    using frame wire_frame_bytes[OF s] by (auto simp: wire_frame_def Let_def)
  ultimately show ?thesis
    using ready r' hdr size
    by (subst recv_header_ok[where h = r' and k = sizeof_SD_HEADER and body = ?body])
      (simp_all add: session_ready_def server_vtbl_def header_getters sizeof_SD_HEADER_def body_coroutine_def word_gt_0)
qed

section \<open>Sequences of frames\<close>

text \<open>
  What the arrival of messages does to the state: the session waits for a header again, the packets
  are queued in order, their buffers hold the bodies, and apart from those buffers and the header
  buffer memory is unchanged.
\<close>

definition delivered :: "nat \<Rightarrow> message list \<Rightarrow> (HeaderCCT, 'u) Net \<Rightarrow> (HeaderCCT, 'u) Net \<Rightarrow> bool" where
  "delivered self ms w w' \<longleftrightarrow> session_ready self w'
     \<and> as_sizeOfMaxBuffer (n_sessions w' self) = as_sizeOfMaxBuffer (n_sessions w self)
     \<and> as_szHeaderBuffer (n_sessions w' self) = as_szHeaderBuffer (n_sessions w self)
     \<and> n_packetQueue w' = n_packetQueue w @ map (packet_of self) ms
     \<and> (\<forall>m \<in> set ms. take (length (msg_body m)) (n_heap w' (msg_buf m)) = msg_body m)
     \<and> (\<forall>a. a \<notin> set (as_szHeaderBuffer (n_sessions w self) # map msg_buf ms) \<longrightarrow> n_heap w' a = n_heap w a)
     \<and> mset (n_coroutines w') = mset (n_coroutines w)"

lemma delivered_none: "session_ready self w \<Longrightarrow> delivered self [] w w"
  by (simp add: delivered_def)

lemma delivered_one:
  assumes "good_header s" "wf_ender (hc_ender s)" "session_ready self w"
    and "fits (as_sizeOfMaxBuffer (n_sessions w self)) m" "msg_buf m \<noteq> as_szHeaderBuffer (n_sessions w self)"
    and "header_coroutine (server_vtbl en) self w \<in> set (n_coroutines w)"
  shows "\<exists>w'. recv_frame (server_vtbl en) self (wire_frame en s packet_count m) w = Inr w' \<and> delivered self [m] w w'"
  by (rule recv_wire_frame[OF assms(1-5), of en packet_count]) (use assms(6) in \<open>auto simp: delivered_def\<close>)

lemma delivered_trans:
  assumes "delivered self ms w w1" and "delivered self ms' w1 w'"
    and "distinct (as_szHeaderBuffer (n_sessions w self) # map msg_buf (ms @ ms'))"
  shows "delivered self (ms @ ms') w w'"
proof -
  have frame: "n_heap w' a = n_heap w1 a" if "a \<notin> set (as_szHeaderBuffer (n_sessions w1 self) # map msg_buf ms')" for a
    using assms(2) that unfolding delivered_def by blast
  have "n_heap w' (msg_buf m) = n_heap w1 (msg_buf m)" if "m \<in> set ms" for m
  proof (rule frame)
    have "msg_buf m \<in> msg_buf ` set ms" "as_szHeaderBuffer (n_sessions w1 self) = as_szHeaderBuffer (n_sessions w self)"
      using that assms(1) by (simp_all add: delivered_def)
    then show "msg_buf m \<notin> set (as_szHeaderBuffer (n_sessions w1 self) # map msg_buf ms')"
      using assms(3) by auto
  qed
  then have "\<forall>m \<in> set (ms @ ms'). take (length (msg_body m)) (n_heap w' (msg_buf m)) = msg_body m"
    using assms(1,2) by (auto simp: delivered_def)
  then show ?thesis
    using assms(1,2) by (simp add: delivered_def)
qed

lemma delivered_waiting:
  assumes "delivered self ms w w'" and "session_ready self w"
    and "header_coroutine (server_vtbl en) self w \<in> set (n_coroutines w)"
  shows "header_coroutine (server_vtbl en) self w' \<in> set (n_coroutines w')"
proof -
  have "header_coroutine (server_vtbl en) self w' = header_coroutine (server_vtbl en) self w"
    using assms(1,2)
    by (simp add: delivered_def header_coroutine_def session_ready_def good_header_def server_vtbl_def GetHeaderSize_def)
  then show ?thesis
    using assms(1,3) by (simp add: delivered_def) (metis set_mset_mset)
qed

lemma frames_delivered:
  assumes "good_header s" and "wf_ender (hc_ender s)" and "session_ready self w"
    and "\<forall>m \<in> set ms. fits (as_sizeOfMaxBuffer (n_sessions w self)) m"
    and "distinct (as_szHeaderBuffer (n_sessions w self) # map msg_buf ms)"
    and "header_coroutine (server_vtbl en) self w \<in> set (n_coroutines w)"
  shows "\<exists>w'. recv_frames (server_vtbl en) self (map (wire_frame en s packet_count) ms) w = Inr w' \<and> delivered self ms w w'"
  using assms(3-)
proof (induction ms arbitrary: w)
  case Nil
  then show ?case by (simp add: delivered_none)
next
  case (Cons m ms)
  then obtain w1 where w1: "recv_frame (server_vtbl en) self (wire_frame en s packet_count m) w = Inr w1"
    "delivered self [m] w w1"
    using delivered_one[OF assms(1,2), of self w m en packet_count] by auto
  have "session_ready self w1" "\<forall>m \<in> set ms. fits (as_sizeOfMaxBuffer (n_sessions w1 self)) m"
    "distinct (as_szHeaderBuffer (n_sessions w1 self) # map msg_buf ms)"
    using w1(2) Cons.prems by (simp_all add: delivered_def)
  from Cons.IH[OF this delivered_waiting[OF w1(2) Cons.prems(1,4)]] obtain w' where
    "recv_frames (server_vtbl en) self (map (wire_frame en s packet_count) ms) w1 = Inr w'" "delivered self ms w1 w'"
    by blast
  then show ?case
    using w1 delivered_trans[OF w1(2), of ms w'] Cons.prems(3) by auto
qed

section \<open>Properties\<close>

text \<open>A session that has been accepted and waits for its first header.\<close>

definition waiting_net :: "(HeaderCCT, unit) Net" where
  "waiting_net =
     \<lparr>n_sessions = (\<lambda>_. (AsyncSessionImpl_new (HeaderCCT_new zero_ender) 32768 0)
        \<lparr>as_szHeaderBuffer := 1, as_nSessionPoolState := kAcquire, as_open := True\<rparr>),
      n_pool = Pool_new 4, n_heap = (\<lambda>_. replicate 33 0),
      n_coroutines = [\<lparr>co_session = 0, co_phase = Await_Header, co_buffer = 1, co_size = 33\<rparr>],
      n_packetQueue = [], n_writes = [], n_wire = [], n_log = [], n_accepting = None, n_user = ()\<rparr>"

lemma waiting_net_ready: "session_ready i waiting_net"
  by (simp add: session_ready_def waiting_net_def AsyncSessionImpl_new_def good_header_new)

text \<open>
  C2. Messages whose body and trailer fit into the configured buffer, whose frames the network delivers in
  two pieces each, header and rest, and for which the pools hand out blocks that are not in use (neither the
  header buffer nor the block of another of these messages), arrive in the packet queue in the order they
  were sent, each with its protocol number, its session and the size of its body
  without the trailer; the buffer of each holds the body that was sent; and the session is waiting
  for the next header with its receiving coroutine in place.
\<close>

theorem messages_arrive_in_order:
  assumes "good_header s" and "wf_ender (hc_ender s)" and "session_ready self w"
    and "\<forall>m \<in> set ms. fits (as_sizeOfMaxBuffer (n_sessions w self)) m"
    and "distinct (as_szHeaderBuffer (n_sessions w self) # map msg_buf ms)"
    and "header_coroutine (server_vtbl en) self w \<in> set (n_coroutines w)"
  shows "\<exists>w'. recv_frames (server_vtbl en) self (map (wire_frame en s packet_count) ms) w = Inr w'
    \<and> n_packetQueue w' = n_packetQueue w @ map (packet_of self) ms
    \<and> (\<forall>m \<in> set ms. take (length (msg_body m)) (n_heap w' (msg_buf m)) = msg_body m)
    \<and> session_ready self w' \<and> mset (n_coroutines w') = mset (n_coroutines w)"
  using frames_delivered[OF assms, of packet_count] unfolding delivered_def by blast

theorem messages_arrive_in_order_witness:
  "\<exists>w'. recv_frames (server_vtbl True) 0 (map (wire_frame True (HeaderCCT_new zero_ender) 9)
       [\<lparr>msg_no = 101, msg_body = [1, 2, 3], msg_rand = 5, msg_buf = 2, msg_junk = []\<rparr>,
        \<lparr>msg_no = 501, msg_body = [], msg_rand = 6, msg_buf = 3, msg_junk = [4]\<rparr>]) waiting_net = Inr w'
    \<and> map pi_protocolNo (n_packetQueue w') = [101, 501] \<and> map pi_sizeOfBuffer (n_packetQueue w') = [3, 0]
    \<and> take 3 (n_heap w' 2) = [1, 2, 3]"
proof -
  let ?ms = "[\<lparr>msg_no = 101, msg_body = [1, 2, 3], msg_rand = 5, msg_buf = 2, msg_junk = []\<rparr>,
        \<lparr>msg_no = 501, msg_body = [], msg_rand = 6, msg_buf = 3, msg_junk = [4]\<rparr>]"
  have "\<forall>m \<in> set ?ms. fits (as_sizeOfMaxBuffer (n_sessions waiting_net 0)) m"
    "distinct (as_szHeaderBuffer (n_sessions waiting_net 0) # map msg_buf ?ms)"
    "header_coroutine (server_vtbl True) 0 waiting_net \<in> set (n_coroutines waiting_net)"
    by (simp_all add: waiting_net_def fits_def AsyncSessionImpl_new_def header_coroutine_def
        server_vtbl_def GetHeaderSize_def HeaderCCT_new_def sizeof_SD_HEADER_def)
  from messages_arrive_in_order[OF good_header_new _ waiting_net_ready this, of zero_ender 9]
  obtain w' where "recv_frames (server_vtbl True) 0 (map (wire_frame True (HeaderCCT_new zero_ender) 9) ?ms)
      waiting_net = Inr w'"
    "n_packetQueue w' = n_packetQueue waiting_net @ map (packet_of 0) ?ms"
    "\<forall>m \<in> set ?ms. take (length (msg_body m)) (n_heap w' (msg_buf m)) = msg_body m"
    by (auto simp: HeaderCCT_new_def zero_ender_def wf_ender_def)
  then show ?thesis
    by (intro exI[of _ w']) (simp_all add: packet_of_def waiting_net_def numeral_3_eq_3)
qed

text \<open>
  C13. Whatever a peer sends as the header, the completion of the header receive of the server's
  session does not fault and puts nothing into the packet queue; afterwards the session's socket is
  closed and it receives nothing more, or it receives a body of at most the configured size into a buffer
  of exactly that size.
\<close>

theorem header_receive_is_safe:
  assumes "session_ready self w" and "co_session c = self"
    and "co_buffer c = as_szHeaderBuffer (n_sessions w self)"
  shows "\<exists>w'. recv_header (server_vtbl en) c error data buf junk t w = Inr w'
    \<and> good_header (as_spHeader (n_sessions w' self)) \<and> n_packetQueue w' = n_packetQueue w
    \<and> (n_coroutines w' = remove1 c (n_coroutines w) \<and> \<not> as_open (n_sessions w' self) \<or>
       (\<exists>b. n_coroutines w' = remove1 c (n_coroutines w) @ [b] \<and> co_session b = self
          \<and> co_phase b = Await_Body \<and> co_size b \<le> as_sizeOfMaxBuffer (n_sessions w self)
          \<and> (co_size b > 0 \<longrightarrow> co_buffer b = buf \<and> length (n_heap w' buf) = unat (co_size b))))"
proof -
  have "good_header (as_spHeader (n_sessions w self))"
    "unat (v_GetHeaderSize (server_vtbl en) (as_spHeader (n_sessions w self))) \<le> length (n_heap w (co_buffer c))"
    using assms by (simp_all add: session_ready_def good_header_def server_vtbl_def GetHeaderSize_def)
  from header_class.recv_header_safe[OF server_header.header_class_axioms this(1) assms(2,3) this(2), of error data buf junk t]
  show ?thesis by metis
qed

theorem header_receive_is_safe_witness:
  "\<exists>w'. recv_header (server_vtbl True) \<lparr>co_session = 0, co_phase = Await_Header, co_buffer = 1, co_size = 33\<rparr>
     False (replicate 33 255) 2 [] False waiting_net = Inr w' \<and> good_header (as_spHeader (n_sessions w' 0))"
  using header_receive_is_safe[OF waiting_net_ready[of 0],
      of "\<lparr>co_session = 0, co_phase = Await_Header, co_buffer = 1, co_size = 33\<rparr>" True False "replicate 33 255" 2 "[]" False]
  by (auto simp: waiting_net_def AsyncSessionImpl_new_def)

text \<open>
  When the receive of a body fails, the session is closed and its body buffer is released, but
  the member keeps pointing at it. If then a pending write of the same session fails, it is closed
  again and the buffer is released again: no allocator that started in any state accepts this
  sequence of calls.
\<close>

lemma failed_body_then_failed_send_frees_twice:
  assumes "as_szBodyBuffer (n_sessions w self) \<noteq> NULL"
    and "as_sizeOfPrevBodyBuffer (n_sessions w self) \<noteq> 0"
    and "co_session c = self" and "pw_session pw = self"
  shows "ledger_run l (n_log (send_completed pw stale True t (recv_body V c True data False w))) = None"
proof -
  let ?r = "snd (COMMON_POOL_Delete (as_szBodyBuffer (n_sessions w self))
      (ucast (ucast (as_sizeOfPrevBodyBuffer (n_sessions w self)) :: u32)))"
  have "n_log (send_completed pw stale True t (recv_body V c True data False w))
      = n_log w @ (Released ?r # [Released (snd (COMMON_POOL_Delete (pw_data pw) stale))] @ [Released ?r])"
    using assms
    by (simp add: send_completed_def recv_body_def ReadBody_def net_defs Close_log Close_session
        close_log_def Let_def split_beta)
  then show ?thesis
    by (simp only:) (rule ledger_run_refused_tail, rule released_twice_refused, rule Delete_freed, rule Delete_freed, simp)
qed

text \<open>
  A packet that is read completely hands its buffer over to the packet queue exactly once: the
  packet carries the pointer, the session forgets it, nothing is released, and closing the session
  afterwards releases nothing either.
\<close>

lemma body_buffer_handed_over:
  fixes w :: "('h, 'u) Net" and self :: nat and n :: size_t and error t :: bool
    and V :: "'h Header_vtbl"
  assumes "fst (ReadBody V self error n t w)"
  defines "w' \<equiv> snd (ReadBody V self error n t w)"
  shows "(\<exists>p. n_packetQueue w' = n_packetQueue w @ [p] \<and> pi_session p = self
            \<and> pi_pBuffer p = as_szBodyBuffer (n_sessions w self)
            \<and> pi_sizeOfBuffer p + v_GetEnderSize V (as_spHeader (n_sessions w self)) = n)
       \<and> as_szBodyBuffer (n_sessions w' self) = NULL
       \<and> n_log w' = n_log w \<and> n_log (snd (Close self t' w')) = n_log w"
  using assms(1) unfolding w'_def
  by (auto simp: ReadBody_def net_defs Close_log close_log_def Let_def split: if_splits)

text \<open>The session is closed, its coroutine has ended, and no packet has been queued.\<close>

definition hung_up :: "bool \<Rightarrow> nat \<Rightarrow> (HeaderCCT, 'u) Net \<Rightarrow> (HeaderCCT, 'u) Net \<Rightarrow> bool" where
  "hung_up en self w w' \<longleftrightarrow> \<not> as_open (n_sessions w' self) \<and> n_packetQueue w' = n_packetQueue w
     \<and> mset (n_coroutines w') = mset (remove1 (header_coroutine (server_vtbl en) self w) (n_coroutines w))"

text \<open>
  C14. A frame has to arrive in two pieces of exactly the right sizes. When the network delivers a
  correct frame in other pieces, so that the receive of the header, or the one of body and trailer,
  completes with fewer bytes than asked for, the session is closed and the message is lost, although
  the rest of it would have followed.
\<close>

theorem split_frame_closes_session:
  assumes "good_header s" and "wf_ender (hc_ender s)" and "session_ready self w"
    and "fits (as_sizeOfMaxBuffer (n_sessions w self)) m"
    and "wire_frame en s packet_count m = (hdr, body, buf, junk)"
  shows "(\<forall>j < length hdr. \<exists>w'. recv_header (server_vtbl en) (header_coroutine (server_vtbl en) self w) False (take j hdr)
        buf junk t w = Inr w' \<and> hung_up en self w w')
    \<and> (\<forall>j < length body. \<exists>w1. recv_header (server_vtbl en) (header_coroutine (server_vtbl en) self w) False hdr
        buf junk False w = Inr w1 \<and> hung_up en self w (recv_body (server_vtbl en) (body_coroutine self w1) False (take j body) t w1))"
proof -
  obtain w1 where w1: "recv_header (server_vtbl en) (header_coroutine (server_vtbl en) self w) False hdr buf junk False w = Inr w1"
    "body_coroutine self w1 \<in> set (n_coroutines w1)" "length body = unat (co_size (body_coroutine self w1))"
    "length hdr = 33" "n_packetQueue w1 = n_packetQueue w"
    "mset (n_coroutines w1) = mset (remove1 (header_coroutine (server_vtbl en) self w) (n_coroutines w)) + {#body_coroutine self w1#}"
    using wire_frame_rest_expected[OF assms] by blast
  have "\<exists>w'. recv_header (server_vtbl en) (header_coroutine (server_vtbl en) self w) False (take j hdr)
        buf junk t w = Inr w' \<and> hung_up en self w w'" if "j < length hdr" for j
  proof -
    have "unat (of_nat j :: size_t) = j"
      using that w1(4) by (intro unat_of_nat_size) simp
    then have "(of_nat j :: size_t) \<noteq> 33" "min (length hdr) j = j"
      using that w1(4) by (auto simp: word_unat_eq_iff)
    moreover have "v_GetHeaderSize (server_vtbl en) (as_spHeader (n_sessions w self)) = 33"
      using assms(3) by (simp add: session_ready_def good_header_def server_vtbl_def GetHeaderSize_def sizeof_SD_HEADER_def)
    ultimately show ?thesis
      by (simp add: recv_header_def ReadHeader_def received_def header_coroutine_def hung_up_def Close_session Let_def)
  qed
  moreover have "hung_up en self w (recv_body (server_vtbl en) (body_coroutine self w1) False (take j body) t w1)"
    if "j < length body" for j
  proof -
    have "unat (of_nat j :: size_t) = j"
      using that w1(3) unat_size_less[of "co_size (body_coroutine self w1)"] by (simp add: unat_of_nat)
    then have "as_sizeOfBodyBuffer (n_sessions w1 self) \<noteq> of_nat j" "min (length body) j = j"
      using that w1(3) by (auto simp: body_coroutine_def)
    then show ?thesis
      using w1(2,5,6)
      by (simp add: recv_body_def ReadBody_def received_def hung_up_def Close_session Let_def) (simp add: body_coroutine_def)
  qed
  ultimately show ?thesis
    using w1(1) by blast
qed

theorem split_frame_closes_session_witness:
  "\<exists>w'. recv_header (server_vtbl True) (header_coroutine (server_vtbl True) 0 waiting_net) False
      (take 20 (fst (wire_frame True (HeaderCCT_new zero_ender) 9
        \<lparr>msg_no = 101, msg_body = [1, 2, 3], msg_rand = 5, msg_buf = 2, msg_junk = []\<rparr>))) 2 [] False waiting_net = Inr w'
    \<and> \<not> as_open (n_sessions w' 0) \<and> n_packetQueue w' = []"
proof -
  let ?m = "\<lparr>msg_no = 101, msg_body = [1, 2, 3], msg_rand = 5, msg_buf = 2, msg_junk = []\<rparr>"
  obtain hdr body where frame: "wire_frame True (HeaderCCT_new zero_ender) 9 ?m = (hdr, body, 2, [])"
    by (simp add: wire_frame_def Let_def)
  have wf: "wf_ender (hc_ender (HeaderCCT_new zero_ender))"
    by (simp add: HeaderCCT_new_def zero_ender_def wf_ender_def)
  have fit: "fits (as_sizeOfMaxBuffer (n_sessions waiting_net 0)) ?m"
    by (simp add: waiting_net_def fits_def AsyncSessionImpl_new_def)
  have "length hdr = 33"
    using frame good_header_MakeHeader[OF good_header_new, of True 5 zero_ender 101 3]
    by (auto simp: wire_frame_def Let_def length_header_bytes good_header_def)
  then have "20 < length hdr" by simp
  then show ?thesis
    using split_frame_closes_session[OF good_header_new wf waiting_net_ready fit frame, of False]
    by (auto simp: frame hung_up_def waiting_net_def)
qed

end
