(* ===== verification/Skeleton_Server.thy ===== *)
theory Skeleton_Server
  imports Packet_Worker Packet_Flow
begin

text \<open>
  The server (include/net/skeleton_server.h, src/lib/skeleton_server.cpp): it creates the session
  pool and the packet workers and runs the accepting coroutine. The second half is the whole server
  as a transition system: every completion the operating system can deliver and every round of a
  worker is a step, and steps interleave in any order.
\<close>

section \<open>Operations\<close>

text \<open>
  \<open>Initialize\<close>: the workers with the handler table, and the pool of sessions. The configured worker
  and session counts, the buffer limit and the headers of the factory are arguments.
\<close>

definition SkltServer_Initialize ::
  "bool \<Rightarrow> (('h, 'u) Net) HandlerManager \<Rightarrow> size_t \<Rightarrow> size_t \<Rightarrow> size_t \<Rightarrow> (nat \<Rightarrow> 'h) \<Rightarrow> (nat \<Rightarrow> size_t) \<Rightarrow> ('h, 'u) Net
     \<Rightarrow> (bool \<times> (('h, 'u) Net) PacketWorker list \<times> ('h, 'u) Net) result" where
  "SkltServer_Initialize asserts p_handler_manager worker_count session_pool_count max_buffer hdr uninit w =
     bind_result (PacketWorkerManager_new asserts worker_count p_handler_manager) (\<lambda>workers.
       Inr (True, workers, AsyncSessionPool_Initialize hdr max_buffer uninit session_pool_count w))"

text \<open>
  The accepting coroutine, cut at its suspension point. The loop body takes a session from the pool;
  a missing one is logged and then dereferenced all the same.
\<close>

definition accept_ready :: "('h, 'u) Net \<Rightarrow> (('h, 'u) Net) result" where
  "accept_ready w =
     (case SessionPool_Acquire (n_pool w) of
        (None, p) \<Rightarrow> Inl Empty_Optional
      | (Some i, p) \<Rightarrow> Inr (w\<lparr>n_pool := p, n_accepting := Some i\<rparr>))"

lemma accept_ready_Cons:
  "m_queue (n_pool w) = i # rest \<Longrightarrow> accept_ready w = Inr (w\<lparr>n_pool := (n_pool w)\<lparr>m_queue := rest,
     m_sizeUseCnt := m_sizeUseCnt (n_pool w) + 1\<rparr>, n_accepting := Some i\<rparr>)"
  by (simp add: accept_ready_def SessionPool_Acquire_def)

text \<open>The accept has completed; the loop then goes on with \<open>accept_ready\<close>.\<close>

definition accept_done ::
  "'h Header_vtbl \<Rightarrow> bool \<Rightarrow> addr \<Rightarrow> bytes \<Rightarrow> nat \<Rightarrow> ('h, 'u) Net \<Rightarrow> ('h, 'u) Net" where
  "accept_done V error buf junk i w =
     (let w1 = w\<lparr>n_accepting := None\<rparr>
      in if \<not> error
         then snd (Recv V i buf junk
                (SetSessionPoolState i kAcquire (upd_session i (\<lambda>s. s\<lparr>as_open := True\<rparr>) w1)))
         else w1)"

definition StartAccept :: "('h, 'u) Net \<Rightarrow> (bool \<times> ('h, 'u) Net) result" where
  "StartAccept w = bind_result (accept_ready w) (\<lambda>w'. Inr (True, w'))"

section \<open>The server as a transition system\<close>

definition header_buffers :: "('h, 'u) Net \<Rightarrow> addr set" where
  "header_buffers w = {as_szHeaderBuffer (n_sessions w i) | i. True}"

text \<open>
  Steps for a header class \<open>V\<close> and a set \<open>W\<close> of workers. Header buffers are never given back, so the
  pools never hand one out again, neither to a session nor to a handler; no other property of the
  pools is used. A receive transfers at most the size it was started with.
\<close>

inductive server_step ::
  "'h Header_vtbl \<Rightarrow> ((('h, 'u) Net) PacketWorker) set \<Rightarrow> ('h, 'u) Net \<Rightarrow> ('h, 'u) Net \<Rightarrow> bool"
  for V W where
  step_accept_ready: "n_accepting w = None \<Longrightarrow> accept_ready w = Inr w' \<Longrightarrow> server_step V W w w'"
| step_accept_done: "n_accepting w = Some i \<Longrightarrow> buf \<notin> header_buffers w \<Longrightarrow> buf \<noteq> NULL \<Longrightarrow>
    server_step V W w (accept_done V error buf junk i w)"
| step_header: "c \<in> set (n_coroutines w) \<Longrightarrow> co_phase c = Await_Header \<Longrightarrow> length data \<le> unat (co_size c) \<Longrightarrow>
    buf \<notin> header_buffers w \<Longrightarrow> buf \<noteq> NULL \<Longrightarrow> recv_header V c error data buf junk t w = Inr w' \<Longrightarrow> server_step V W w w'"
| step_body: "c \<in> set (n_coroutines w) \<Longrightarrow> co_phase c = Await_Body \<Longrightarrow> length data \<le> unat (co_size c) \<Longrightarrow>
    server_step V W w (recv_body V c error data t w)"
| step_worker: "pk \<in> W \<Longrightarrow> well_behaved (header_buffers w) (pk_spHandlerManager pk) \<Longrightarrow>
    PacketWorker_Processing pk w = Some (Inr w') \<Longrightarrow> server_step V W w w'"
| step_sent: "pw \<in> set (n_writes w) \<Longrightarrow> server_step V W w (send_completed pw stale error t w)"

inductive server_reachable ::
  "'h Header_vtbl \<Rightarrow> ((('h, 'u) Net) PacketWorker) set \<Rightarrow> ('h, 'u) Net \<Rightarrow> ('h, 'u) Net \<Rightarrow> bool"
  for V W w0 where
  reach_start: "server_reachable V W w0 w0"
| reach_step: "server_reachable V W w0 w \<Longrightarrow> server_step V W w w' \<Longrightarrow> server_reachable V W w0 w'"

lemma server_reachable_trans:
  assumes "server_reachable V W w w'" and "server_reachable V W w' w''"
  shows "server_reachable V W w w''"
  using assms(2) by (induction rule: server_reachable.induct) (use assms(1) in \<open>auto intro: reach_step\<close>)

section \<open>The sessions and their pool\<close>

text \<open>
  The invariant: no session is in the free list twice, a session in the free list is neither in use
  nor being accepted, and the pool counts every session it was created with.
\<close>

definition pool_inv :: "nat \<Rightarrow> ('h, 'u) Net \<Rightarrow> bool" where
  "pool_inv N w \<longleftrightarrow>
     pool_ready (n_pool w) \<and> unat (m_sizeFlexibleMaxCnt (n_pool w)) = N \<and> distinct (m_queue (n_pool w))
     \<and> (\<forall>i \<in> set (m_queue (n_pool w)). i < N \<and> as_nSessionPoolState (n_sessions w i) \<noteq> kAcquire)
     \<and> (\<forall>i. as_nSessionPoolState (n_sessions w i) = kAcquire \<longrightarrow> i < N)
     \<and> (\<forall>i. n_accepting w = Some i \<longrightarrow> i < N \<and> i \<notin> set (m_queue (n_pool w))
           \<and> as_nSessionPoolState (n_sessions w i) \<noteq> kAcquire)
     \<and> pool_total (n_pool w) = of_nat N"

text \<open>Only what the invariant looks at matters.\<close>

lemma pool_inv_cong:
  assumes "n_pool w' = n_pool w" and "n_accepting w' = n_accepting w"
    and "\<And>i. as_nSessionPoolState (n_sessions w' i) = as_nSessionPoolState (n_sessions w i)"
  shows "pool_inv N w' = pool_inv N w"
  using assms by (simp add: pool_inv_def)

lemma in_use_not_full:
  assumes "pool_inv N w" and "as_nSessionPoolState (n_sessions w i) = kAcquire"
  shows "length (m_queue (n_pool w)) < N"
proof -
  have "set (m_queue (n_pool w)) \<subseteq> {..<N} - {i}" "i < N"
    using assms by (auto simp: pool_inv_def)
  then have "card (set (m_queue (n_pool w))) < N"
    by (metis card_Diff_singleton card_lessThan card_mono diff_less finite_Diff finite_lessThan
        gr_implies_not0 lessThan_iff less_one not_gr_zero order.strict_trans1)
  then show ?thesis
    using assms(1) by (simp add: pool_inv_def distinct_card)
qed

text \<open>Closing a session that is in use puts it into the free list; the room test does not refuse it.\<close>

lemma Close_restores:
  assumes "pool_inv N w" and "as_nSessionPoolState (n_sessions w i) = kAcquire"
  shows "SessionPool_Restore (n_pool w) (Some i) = (True, (n_pool w)\<lparr>m_queue := m_queue (n_pool w) @ [i],
      m_sizeUseCnt := m_sizeUseCnt (n_pool w) - 1\<rparr>)"
  using assms in_use_not_full[OF assms]
  by (simp add: SessionPool_Restore_def Restore_room pool_inv_def)

lemma pool_inv_Close:
  assumes inv: "pool_inv N w"
  shows "pool_inv N (snd (Close i t w))"
proof (cases "as_nSessionPoolState (n_sessions w i) = kAcquire \<and> \<not> (as_open (n_sessions w i) \<and> t)")
  case True
  note restored = Close_restores[OF inv conjunct1[OF True]]
  have room: "length (m_queue (n_pool w)) < N"
    using in_use_not_full[OF inv] True by blast
  have "pool_total (n_pool (snd (Close i t w))) = pool_total (n_pool w)"
    using True restored by (simp add: Close_pool pool_total_def)
  moreover have "pool_ready (n_pool (snd (Close i t w)))"
    using True restored room inv by (simp add: Close_pool pool_ready_def pool_inv_def)
  ultimately show ?thesis
    using True restored inv by (auto simp: pool_inv_def Close_pool Close_session)
next
  case False
  then show ?thesis
    by (subst pool_inv_cong[where w = w]) (use inv in \<open>auto simp: Close_pool Close_session\<close>)
qed

text \<open>
  A property of the sessions' pool, its bookkeeping and nothing else, that closing a session keeps:
  it is kept by every operation that does not accept connections.
\<close>

locale pool_property =
  fixes P :: "('h, 'u) Net \<Rightarrow> bool"
  assumes cong: "n_pool w' = n_pool w \<Longrightarrow> n_accepting w' = n_accepting w \<Longrightarrow>
      (\<And>i. as_nSessionPoolState (n_sessions w' i) = as_nSessionPoolState (n_sessions w i)) \<Longrightarrow> P w' = P w"
    and close: "P w \<Longrightarrow> P (snd (Close i t w))"
begin

lemma upd_session_keeps:
  "(\<And>s. as_nSessionPoolState (f s) = as_nSessionPoolState s) \<Longrightarrow> P (upd_session i f w) = P w"
  by (rule cong) (simp_all add: upd_session_def)

lemma simple_keeps:
  "P (pool_new buf junk n w) = P w"
  "P (snd (pool_delete buf n w)) = P w"
  "P (received buf data w) = P w"
  "P (PacketWorkerManager_Insert p w) = P w"
  "P (RecvProcess V i w) = P w"
  "P (w\<lparr>n_coroutines := cs\<rparr>) = P w"
  "P (w\<lparr>n_writes := ws\<rparr>) = P w"
  "P (w\<lparr>n_wire := out\<rparr>) = P w"
  by (rule cong; simp add: net_defs split_beta Let_def)+

lemmas keeps = upd_session_keeps simple_keeps

lemma ReadHeader_keeps: "P w \<Longrightarrow> ReadHeader V i error n buf junk t w = Inr (b, w') \<Longrightarrow> P w'"
  by (auto simp: ReadHeader_def Let_def bind_result_eq_Inr_iff keeps close split: if_splits)

lemma recv_header_keeps:
  assumes "P w" and "recv_header V c error data buf junk t w = Inr w'"
  shows "P w'"
proof -
  obtain go_on w2 where "ReadHeader V (co_session c) error (of_nat (length data)) buf junk t
      (received (co_buffer c) data (w\<lparr>n_coroutines := remove1 c (n_coroutines w)\<rparr>)) = Inr (go_on, w2)"
    and w': "w' = w2 \<or> (\<exists>cs. w' = w2\<lparr>n_coroutines := cs\<rparr>)"
    using assms(2) by (auto simp: recv_header_def Let_def bind_result_eq_Inr_iff split: if_splits)
  then have "P w2"
    using assms(1) ReadHeader_keeps by (metis keeps)
  then show ?thesis
    using w' by (auto simp: keeps)
qed

lemma recv_body_keeps: "P w \<Longrightarrow> P (recv_body V c error data t w)"
  by (simp add: recv_body_def ReadBody_def Let_def keeps close)

lemma send_completed_keeps: "P w \<Longrightarrow> P (send_completed pw stale error t w)"
  by (simp add: send_completed_def Let_def keeps close)

lemma Recv_keeps: "P w \<Longrightarrow> P (snd (Recv V i buf junk w))"
  by (simp add: Recv_def Let_def keeps)

lemma worker_keeps:
  assumes "P w" and "well_behaved live (pk_spHandlerManager pk)"
    and "PacketWorker_Processing pk w = Some (Inr w')"
  shows "P w'"
  using assms(1) PacketWorker_Processing_frame[OF assms(2,3)] cong[of w' w] by auto

text \<open>With the two halves of the accepting coroutine it is kept by every step.\<close>

lemma step_keeps:
  assumes "server_step V W w w'" and "P w"
    and "\<And>w'. n_accepting w = None \<Longrightarrow> accept_ready w = Inr w' \<Longrightarrow> P w'"
    and "\<And>error buf junk i. n_accepting w = Some i \<Longrightarrow> P (accept_done V error buf junk i w)"
  shows "P w'"
  using assms
  by (cases rule: server_step.cases)
    (auto intro: recv_header_keeps recv_body_keeps worker_keeps send_completed_keeps)

end

interpretation pool_inv: pool_property "pool_inv N" for N
  by unfold_locales (rule pool_inv_cong, assumption+, rule pool_inv_Close)

lemma pool_inv_accept_ready:
  assumes inv: "pool_inv N w" and "n_accepting w = None" and "accept_ready w = Inr w'"
  shows "pool_inv N w'"
proof -
  obtain i rest where q: "m_queue (n_pool w) = i # rest"
    and w': "w' = w\<lparr>n_pool := (n_pool w)\<lparr>m_queue := rest, m_sizeUseCnt := m_sizeUseCnt (n_pool w) + 1\<rparr>,
      n_accepting := Some i\<rparr>"
    using assms(3) by (auto simp: accept_ready_def SessionPool_Acquire_def Acquire_def split: list.splits)
  show ?thesis
    using inv q unfolding w' by (auto simp: pool_inv_def pool_ready_def pool_total_def add.assoc)
qed

lemma pool_inv_accept_done:
  assumes inv: "pool_inv N w" and "n_accepting w = Some i"
  shows "pool_inv N (accept_done V error buf junk i w)"
proof -
  let ?w = "SetSessionPoolState i kAcquire (upd_session i (\<lambda>s. s\<lparr>as_open := True\<rparr>) (w\<lparr>n_accepting := None\<rparr>))"
  have "pool_inv N (w\<lparr>n_accepting := None\<rparr>)" "pool_inv N ?w"
    using assms by (auto simp: pool_inv_def net_defs)
  then show ?thesis
    by (simp add: accept_done_def Let_def pool_inv.Recv_keeps)
qed

lemma pool_inv_step: "server_step V W w w' \<Longrightarrow> pool_inv N w \<Longrightarrow> pool_inv N w'"
  by (erule pool_inv.step_keeps) (auto intro: pool_inv_accept_ready pool_inv_accept_done)

lemma pool_inv_reachable:
  assumes "server_reachable V W w0 w" and "pool_inv N w0"
  shows "pool_inv N w"
  using assms(1)
proof induction
  case reach_start
  show ?case by (rule assms(2))
next
  case (reach_step w w')
  then show ?case using pool_inv_step by blast
qed

section \<open>The initial state\<close>

text \<open>Creating the sessions fills the pool with the identifiers in order.\<close>

lemma create_sessions_effect:
  assumes "pool_ready (n_pool w)" and "length (m_queue (n_pool w)) + length is \<le> unat (m_sizeFlexibleMaxCnt (n_pool w))"
    and "distinct is"
  shows "n_pool (create_sessions hdr mb uninit is w) = (n_pool w)\<lparr>m_queue := m_queue (n_pool w) @ is\<rparr>
    \<and> n_accepting (create_sessions hdr mb uninit is w) = n_accepting w
    \<and> n_coroutines (create_sessions hdr mb uninit is w) = n_coroutines w
    \<and> n_heap (create_sessions hdr mb uninit is w) = n_heap w
    \<and> n_log (create_sessions hdr mb uninit is w) = n_log w
    \<and> n_packetQueue (create_sessions hdr mb uninit is w) = n_packetQueue w
    \<and> n_writes (create_sessions hdr mb uninit is w) = n_writes w
    \<and> (\<forall>j. n_sessions (create_sessions hdr mb uninit is w) j =
        (if j \<in> set is then (AsyncSessionImpl_new (hdr j) mb (uninit j))\<lparr>as_id := of_nat j\<rparr>
         else n_sessions w j))"
  using assms
proof (induction "is" arbitrary: w)
  case (Cons i "is")
  let ?w1 = "upd_session i (\<lambda>_. AsyncSessionImpl_new (hdr i) mb (uninit i)) w"
  let ?w2 = "SetId i (of_nat i) ?w1"
  let ?w3 = "?w2\<lparr>n_pool := snd (SessionPool_Create (n_pool ?w2) (Some i))\<rparr>"
  have pool: "n_pool ?w3 = (n_pool w)\<lparr>m_queue := m_queue (n_pool w) @ [i]\<rparr>"
    using Cons.prems
    by (simp add: SetId_def upd_session_def SessionPool_Create_def Create_def Restore_room)
  have "pool_ready (n_pool ?w3)"
    using Cons.prems pool by (simp add: pool_ready_def)
  moreover have "length (m_queue (n_pool ?w3)) + length is \<le> unat (m_sizeFlexibleMaxCnt (n_pool ?w3))"
    using Cons.prems pool by simp
  ultimately have IH: "n_pool (create_sessions hdr mb uninit is ?w3)
        = (n_pool ?w3)\<lparr>m_queue := m_queue (n_pool ?w3) @ is\<rparr>"
      "n_accepting (create_sessions hdr mb uninit is ?w3) = n_accepting ?w3"
      "n_coroutines (create_sessions hdr mb uninit is ?w3) = n_coroutines ?w3"
      "n_heap (create_sessions hdr mb uninit is ?w3) = n_heap ?w3"
      "n_log (create_sessions hdr mb uninit is ?w3) = n_log ?w3"
      "n_packetQueue (create_sessions hdr mb uninit is ?w3) = n_packetQueue ?w3"
      "n_writes (create_sessions hdr mb uninit is ?w3) = n_writes ?w3"
      "n_sessions (create_sessions hdr mb uninit is ?w3) j =
        (if j \<in> set is then (AsyncSessionImpl_new (hdr j) mb (uninit j))\<lparr>as_id := of_nat j\<rparr>
         else n_sessions ?w3 j)" for j
    using Cons.IH[of ?w3] Cons.prems by simp_all
  have "create_sessions hdr mb uninit (i # is) w = create_sessions hdr mb uninit is ?w3"
    by (simp add: Let_def)
  then show ?case
    using IH pool Cons.prems(3) by (simp add: SetId_def upd_session_def)
qed simp

lemma pool_inv_initial:
  assumes "unat pool_amt < 2 ^ 31" and "n_accepting w = None"
    and "\<And>i. as_nSessionPoolState (n_sessions w i) \<noteq> kAcquire"
  shows "pool_inv (unat pool_amt) (AsyncSessionPool_Initialize hdr mb uninit pool_amt w)"
proof -
  let ?w = "w\<lparr>n_pool := Pool_new pool_amt\<rparr>"
  have "pool_ready (n_pool ?w)"
    using assms(1) by (simp add: pool_ready_new)
  then have effect: "n_pool (AsyncSessionPool_Initialize hdr mb uninit pool_amt w)
        = (Pool_new pool_amt)\<lparr>m_queue := [0..<unat pool_amt]\<rparr>"
      "n_accepting (AsyncSessionPool_Initialize hdr mb uninit pool_amt w) = None"
      "as_nSessionPoolState (n_sessions (AsyncSessionPool_Initialize hdr mb uninit pool_amt w) j) \<noteq> kAcquire" for j
    using create_sessions_effect[of ?w "[0..<unat pool_amt]" hdr mb uninit] assms(2,3)
    by (simp_all add: AsyncSessionPool_Initialize_def Pool_new_def AsyncSessionImpl_new_def)
  show ?thesis
    using assms(1) effect by (simp add: pool_inv_def pool_ready_def pool_total_def Pool_new_def)
qed

section \<open>The receiving side\<close>

text \<open>
  The invariant: every session has a good header and, once it has a header buffer, one that is large
  enough; a session with a coroutine has a header buffer, and a coroutine that waits for a header
  receives into it.
\<close>

definition session_inv :: "'h Header_vtbl \<Rightarrow> ('h \<Rightarrow> bool) \<Rightarrow> ('h, 'u) Net \<Rightarrow> nat \<Rightarrow> bool" where
  "session_inv V good w i \<longleftrightarrow> good (as_spHeader (n_sessions w i)) \<and>
     (as_szHeaderBuffer (n_sessions w i) \<noteq> NULL \<longrightarrow>
        unat (v_GetHeaderSize V (as_spHeader (n_sessions w i)))
          \<le> length (n_heap w (as_szHeaderBuffer (n_sessions w i))))"

definition coroutine_inv :: "('h, 'u) Net \<Rightarrow> coroutine \<Rightarrow> bool" where
  "coroutine_inv w c \<longleftrightarrow> as_szHeaderBuffer (n_sessions w (co_session c)) \<noteq> NULL \<and>
     (co_phase c = Await_Header \<longrightarrow> co_buffer c = as_szHeaderBuffer (n_sessions w (co_session c)))"

definition recv_inv :: "'h Header_vtbl \<Rightarrow> ('h \<Rightarrow> bool) \<Rightarrow> ('h, 'u) Net \<Rightarrow> bool" where
  "recv_inv V good w \<longleftrightarrow> (\<forall>i. session_inv V good w i) \<and> (\<forall>c \<in> set (n_coroutines w). coroutine_inv w c)"

text \<open>
  What the operations of session \<open>i\<close> do to headers and header buffers: the buffers stay where they
  are, those of other sessions' headers too, and no block but \<open>buf\<close> shrinks.
\<close>

definition hdr_frame :: "nat \<Rightarrow> addr \<Rightarrow> ('h, 'u) Net \<Rightarrow> ('h, 'u) Net \<Rightarrow> bool" where
  "hdr_frame i buf w w' \<longleftrightarrow>
     (\<forall>j. as_szHeaderBuffer (n_sessions w' j) = as_szHeaderBuffer (n_sessions w j))
     \<and> (\<forall>j. j \<noteq> i \<longrightarrow> as_spHeader (n_sessions w' j) = as_spHeader (n_sessions w j))
     \<and> (\<forall>a. a \<noteq> buf \<longrightarrow> length (n_heap w a) \<le> length (n_heap w' a))"

named_theorems hdr_frame_intros "operations that keep the header buffers"

lemma hdr_frame_refl [hdr_frame_intros]: "hdr_frame i buf w w"
  by (simp add: hdr_frame_def)

lemma hdr_frame_Close [hdr_frame_intros]:
  "hdr_frame i buf w0 w \<Longrightarrow> hdr_frame i buf w0 (snd (Close i t w))"
  by (simp add: hdr_frame_def Close_session)

lemma hdr_frame_upd_session [hdr_frame_intros]:
  "(\<And>s. as_szHeaderBuffer (f s) = as_szHeaderBuffer s) \<Longrightarrow> hdr_frame i buf w0 w \<Longrightarrow>
     hdr_frame i buf w0 (upd_session i f w)"
  by (simp add: hdr_frame_def upd_session_def)

lemma hdr_frame_pool_new [hdr_frame_intros]:
  "hdr_frame i buf w0 w \<Longrightarrow> hdr_frame i buf w0 (pool_new buf junk n w)"
  by (simp add: hdr_frame_def pool_new_def log_event_def)

lemma received_length: "length (n_heap w a) \<le> length (n_heap (received buf data w) a)"
  by (simp add: received_def) linarith

lemma hdr_frame_received [hdr_frame_intros]:
  assumes "hdr_frame i buf w0 w"
  shows "hdr_frame i buf w0 (received b data w)"
proof -
  have "length (n_heap w0 a) \<le> length (n_heap (received b data w) a)" if "a \<noteq> buf" for a
    using assms that received_length[of w a b data] by (fastforce simp: hdr_frame_def)
  then show ?thesis
    using assms by (simp add: hdr_frame_def received_def)
qed

lemma hdr_frame_coroutines [hdr_frame_intros]:
  "hdr_frame i buf w0 w \<Longrightarrow> hdr_frame i buf w0 (w\<lparr>n_coroutines := cs\<rparr>)"
  "hdr_frame i buf w0 w \<Longrightarrow> hdr_frame i buf w0 (RecvProcess V i w)"
  "hdr_frame i buf w0 w \<Longrightarrow> hdr_frame i buf w0 (PacketWorkerManager_Insert p w)"
  by (simp_all add: hdr_frame_def RecvProcess_def PacketWorkerManager_Insert_def Let_def)

lemma ReadHeader_frame:
  "hdr_frame i buf w0 w \<Longrightarrow> ReadHeader V i error n buf junk t w = Inr (b, w') \<Longrightarrow> hdr_frame i buf w0 w'"
  by (auto simp: ReadHeader_def Let_def bind_result_eq_Inr_iff split: if_splits intro!: hdr_frame_intros)

lemma recv_header_frame:
  assumes "recv_header V c error data buf junk t w = Inr w'"
  shows "hdr_frame (co_session c) buf w w'"
proof -
  let ?w1 = "received (co_buffer c) data (w\<lparr>n_coroutines := remove1 c (n_coroutines w)\<rparr>)"
  obtain go_on w2 where "ReadHeader V (co_session c) error (of_nat (length data)) buf junk t ?w1 = Inr (go_on, w2)"
    and w': "w' = w2 \<or> (\<exists>cs. w' = w2\<lparr>n_coroutines := cs\<rparr>)"
    using assms by (auto simp: recv_header_def Let_def bind_result_eq_Inr_iff split: if_splits)
  then have "hdr_frame (co_session c) buf w w2"
    using ReadHeader_frame[of "co_session c" buf w ?w1] by (blast intro: hdr_frame_intros)
  then show ?thesis
    using w' by (auto intro: hdr_frame_intros)
qed

lemma recv_body_frame: "hdr_frame (co_session c) NULL w (recv_body V c error data t w)"
  by (auto simp: recv_body_def ReadBody_def Let_def intro!: hdr_frame_intros)

lemma recv_body_headers:
  "as_spHeader (n_sessions (recv_body V c error data t w) j) = as_spHeader (n_sessions w j)"
  by (simp add: recv_body_def ReadBody_def net_defs Let_def Close_session)

lemma recv_body_coroutines:
  "d \<in> set (n_coroutines (recv_body V c error data t w)) \<Longrightarrow> d \<in> set (n_coroutines w) \<or>
     co_session d = co_session c \<and> co_buffer d = as_szHeaderBuffer (n_sessions w (co_session c))"
  using set_remove1_subset[of c "n_coroutines w"]
  by (auto simp: recv_body_def ReadBody_def net_defs Let_def Close_session split: if_splits)

lemma recv_inv_frame:
  assumes inv: "recv_inv V good w" and frame: "hdr_frame i buf w w'"
    and buf: "buf = NULL \<or> buf \<notin> header_buffers w"
    and hdr: "good (as_spHeader (n_sessions w' i))"
      "v_GetHeaderSize V (as_spHeader (n_sessions w' i)) = v_GetHeaderSize V (as_spHeader (n_sessions w i))"
    and co: "\<And>c. c \<in> set (n_coroutines w') \<Longrightarrow> c \<in> set (n_coroutines w) \<or> coroutine_inv w c"
  shows "recv_inv V good w'"
proof -
  have "session_inv V good w' j" for j
  proof -
    let ?a = "as_szHeaderBuffer (n_sessions w j)"
    have "length (n_heap w ?a) \<le> length (n_heap w' ?a)" if "?a \<noteq> NULL"
      using that frame buf by (auto simp: hdr_frame_def header_buffers_def)
    moreover have "v_GetHeaderSize V (as_spHeader (n_sessions w' j)) = v_GetHeaderSize V (as_spHeader (n_sessions w j))"
      "good (as_spHeader (n_sessions w' j))"
      using inv frame hdr by (cases "j = i"; simp add: hdr_frame_def recv_inv_def session_inv_def)+
    moreover have "session_inv V good w j"
      using inv by (simp add: recv_inv_def)
    moreover have "as_szHeaderBuffer (n_sessions w' j) = ?a"
      using frame by (simp add: hdr_frame_def)
    ultimately show ?thesis
      by (auto simp: session_inv_def)
  qed
  moreover have "coroutine_inv w' c" if "c \<in> set (n_coroutines w')" for c
  proof -
    have "coroutine_inv w c"
      using co[OF that] inv by (auto simp: recv_inv_def)
    then show ?thesis
      using frame by (simp add: coroutine_inv_def hdr_frame_def)
  qed
  ultimately show ?thesis
    by (simp add: recv_inv_def)
qed

lemma Recv_inv:
  assumes inv: "recv_inv V good w" and buf: "buf \<noteq> NULL" "buf \<notin> header_buffers w"
  shows "recv_inv V good (snd (Recv V i buf junk w))"
proof (cases "as_szHeaderBuffer (n_sessions w i) = NULL")
  case False
  then show ?thesis
    using inv by (auto simp: Recv_def RecvProcess_def recv_inv_def session_inv_def coroutine_inv_def Let_def)
next
  case True
  have other: "as_szHeaderBuffer (n_sessions w j) \<noteq> buf" for j
    using buf(2) by (auto simp: header_buffers_def)
  have "session_inv V good (snd (Recv V i buf junk w)) j" for j
    using inv True other[of j]
    by (cases "j = i") (auto simp: Recv_def net_defs recv_inv_def session_inv_def Let_def)
  moreover have "coroutine_inv (snd (Recv V i buf junk w)) c"
    if "c \<in> set (n_coroutines (snd (Recv V i buf junk w)))" for c
  proof -
    have "coroutine_inv w c \<and> co_session c \<noteq> i \<or> co_session c = i \<and> co_buffer c = buf"
    proof (cases "c \<in> set (n_coroutines w)")
      case old: True
      then show ?thesis using inv True by (auto simp: recv_inv_def coroutine_inv_def)
    next
      case False
      then show ?thesis using that True by (auto simp: Recv_def net_defs Let_def)
    qed
    then show ?thesis
      using True buf(1) by (auto simp: Recv_def net_defs coroutine_inv_def Let_def)
  qed
  ultimately show ?thesis
    by (simp add: recv_inv_def)
qed

text \<open>The other operations leave headers, header buffers and coroutines as they are.\<close>

lemma recv_inv_same:
  assumes "recv_inv V good w" and "n_coroutines w' = n_coroutines w"
    and "\<And>j. as_spHeader (n_sessions w' j) = as_spHeader (n_sessions w j)"
    and "\<And>j. as_szHeaderBuffer (n_sessions w' j) = as_szHeaderBuffer (n_sessions w j)"
    and "\<forall>a \<in> header_buffers w. n_heap w' a = n_heap w a"
  shows "recv_inv V good w'"
proof -
  have "n_heap w' (as_szHeaderBuffer (n_sessions w j)) = n_heap w (as_szHeaderBuffer (n_sessions w j))" for j
    using assms(5) by (auto simp: header_buffers_def)
  then show ?thesis
    using assms(1-4) by (simp add: recv_inv_def session_inv_def coroutine_inv_def)
qed

lemma recv_inv_accept_done:
  assumes "recv_inv V good w" and "buf \<noteq> NULL" and "buf \<notin> header_buffers w"
  shows "recv_inv V good (accept_done V error buf junk i w)"
proof -
  let ?w1 = "w\<lparr>n_accepting := None\<rparr>"
  let ?w2 = "SetSessionPoolState i kAcquire (upd_session i (\<lambda>s. s\<lparr>as_open := True\<rparr>) ?w1)"
  have "recv_inv V good ?w1" "recv_inv V good ?w2"
    by (rule recv_inv_same[OF assms(1)]; simp add: net_defs)+
  moreover have "buf \<notin> header_buffers ?w2"
    using assms(3) by (auto simp: header_buffers_def net_defs)
  ultimately show ?thesis
    using Recv_inv[of V good ?w2 buf i junk] assms(2) by (simp add: accept_done_def Let_def)
qed

lemma recv_inv_send_completed:
  assumes "recv_inv V good w"
  shows "recv_inv V good (send_completed pw stale error t w)"
  by (rule recv_inv_same[OF assms]) (simp_all add: send_completed_def net_defs Close_session Let_def split_beta)

context header_class
begin

lemma recv_header_step:
  assumes inv: "recv_inv V good w" and c: "c \<in> set (n_coroutines w)" "co_phase c = Await_Header"
    and buf: "buf \<notin> header_buffers w"
  obtains w' where "recv_header V c error data buf junk t w = Inr w'" and "recv_inv V good w'"
proof -
  let ?i = "co_session c"
  have i: "good (as_spHeader (n_sessions w ?i))" "co_buffer c = as_szHeaderBuffer (n_sessions w ?i)"
    "unat (v_GetHeaderSize V (as_spHeader (n_sessions w ?i))) \<le> length (n_heap w (co_buffer c))"
    "as_szHeaderBuffer (n_sessions w ?i) \<noteq> NULL"
    using inv c by (auto simp: recv_inv_def session_inv_def coroutine_inv_def)
  obtain w' where w': "recv_header V c error data buf junk t w = Inr w'"
    "good (as_spHeader (n_sessions w' ?i))"
    "v_GetHeaderSize V (as_spHeader (n_sessions w' ?i)) = v_GetHeaderSize V (as_spHeader (n_sessions w ?i))"
    "n_coroutines w' = remove1 c (n_coroutines w) \<or>
      (\<exists>b. n_coroutines w' = remove1 c (n_coroutines w) @ [b] \<and> co_session b = ?i \<and> co_phase b = Await_Body
        \<and> co_size b \<le> as_sizeOfMaxBuffer (n_sessions w ?i)
        \<and> (co_size b > 0 \<longrightarrow> co_buffer b = buf \<and> length (n_heap w' buf) = unat (co_size b)))"
    using recv_header_safe[OF i(1) refl i(2,3)] by metis
  have "d \<in> set (n_coroutines w) \<or> coroutine_inv w d" if "d \<in> set (n_coroutines w')" for d
    using that w'(4) i(4) set_remove1_subset[of c "n_coroutines w"]
    by (auto simp: coroutine_inv_def)
  then have "recv_inv V good w'"
    using recv_inv_frame[OF inv recv_header_frame[OF w'(1)]] buf w'(2,3) by blast
  then show thesis using that w'(1) by blast
qed

lemma recv_inv_recv_body:
  assumes inv: "recv_inv V good w" and c: "c \<in> set (n_coroutines w)"
  shows "recv_inv V good (recv_body V c error data t w)"
proof (rule recv_inv_frame[OF inv recv_body_frame])
  show "good (as_spHeader (n_sessions (recv_body V c error data t w) (co_session c)))"
    using inv by (simp add: recv_body_headers recv_inv_def session_inv_def)
  fix d
  assume "d \<in> set (n_coroutines (recv_body V c error data t w))"
  then show "d \<in> set (n_coroutines w) \<or> coroutine_inv w d"
    using recv_body_coroutines[of d V c error data t w] inv c by (auto simp: recv_inv_def coroutine_inv_def)
qed (simp_all add: recv_body_headers)

lemma recv_inv_step:
  assumes "server_step V W w w'" and inv: "recv_inv V good w"
  shows "recv_inv V good w'"
  using assms(1)
proof (cases rule: server_step.cases)
  case step_accept_ready
  then have "\<exists>p i. w' = w\<lparr>n_pool := p, n_accepting := Some i\<rparr>"
    by (auto simp: accept_ready_def split: prod.splits option.splits)
  then show ?thesis
    using inv by (auto intro: recv_inv_same)
next
  case (step_accept_done i buf error junk)
  then show ?thesis using inv recv_inv_accept_done by blast
next
  case (step_header c data buf error junk t)
  then show ?thesis using recv_header_step[OF inv, of c buf] by (metis sum.inject(2))
next
  case (step_body c data error t)
  then show ?thesis using inv recv_inv_recv_body by blast
next
  case (step_worker pk)
  show ?thesis
    using PacketWorker_Processing_frame[OF step_worker(2,3)] by (intro recv_inv_same[OF inv]) auto
next
  case (step_sent pw stale error t)
  then show ?thesis using inv recv_inv_send_completed by blast
qed

lemma recv_inv_reachable:
  assumes "server_reachable V W w0 w" and "recv_inv V good w0"
  shows "recv_inv V good w"
  using assms(1)
proof induction
  case reach_start
  show ?case by (rule assms(2))
next
  case (reach_step w w')
  then show ?case using recv_inv_step by blast
qed

end

section \<open>Sessions that are lost\<close>

text \<open>A session that is neither free, nor in use, nor being accepted.\<close>

definition lost :: "nat \<Rightarrow> ('h, 'u) Net \<Rightarrow> bool" where
  "lost i w \<longleftrightarrow> i \<notin> set (m_queue (n_pool w)) \<and> n_accepting w \<noteq> Some i
     \<and> as_nSessionPoolState (n_sessions w i) \<noteq> kAcquire"

lemma lost_Close: "lost i w \<Longrightarrow> lost i (snd (Close j t w))"
  by (auto simp: lost_def Close_pool Close_session SessionPool_Restore_def Restore_def queue_push_def Let_def
      split: if_splits)

interpretation lost: pool_property "lost i" for i
  by unfold_locales (simp_all add: lost_def lost_Close[unfolded lost_def])

lemma lost_accept_ready: "lost i w \<Longrightarrow> accept_ready w = Inr w' \<Longrightarrow> lost i w'"
  by (auto simp: lost_def accept_ready_def SessionPool_Acquire_def Acquire_def split: list.splits)

lemma lost_accept_done: "lost i w \<Longrightarrow> n_accepting w = Some j \<Longrightarrow> lost i (accept_done V error buf junk j w)"
  unfolding accept_done_def Let_def
  by (auto intro!: lost.Recv_keeps) (auto simp: lost_def net_defs)

lemma lost_step: "server_step V W w w' \<Longrightarrow> lost i w \<Longrightarrow> lost i w'"
  by (erule lost.step_keeps) (auto intro: lost_accept_ready lost_accept_done)

lemma lost_reachable: "server_reachable V W w0 w \<Longrightarrow> lost i w0 \<Longrightarrow> lost i w"
  by (induction rule: server_reachable.induct) (auto intro: lost_step)

section \<open>Accepting without closing\<close>

text \<open>A number of turns of the accepting loop with no connection closed in between.\<close>

fun accept_rounds :: "'h Header_vtbl \<Rightarrow> (bool \<times> addr \<times> bytes) list \<Rightarrow> ('h, 'u) Net \<Rightarrow> (('h, 'u) Net) result" where
  "accept_rounds V [] w = Inr w"
| "accept_rounds V ((error, buf, junk) # rs) w =
     bind_result (accept_ready w)
       (\<lambda>w1. accept_rounds V rs (case n_accepting w1 of
            Some i \<Rightarrow> accept_done V error buf junk i w1 | None \<Rightarrow> w1))"

lemma accept_round_pool:
  assumes "m_queue (n_pool w) = i # rest"
  obtains w1 where "accept_ready w = Inr w1" and "n_accepting w1 = Some i"
    and "m_queue (n_pool (accept_done V error buf junk i w1)) = rest"
proof -
  let ?w1 = "w\<lparr>n_pool := (n_pool w)\<lparr>m_queue := rest, m_sizeUseCnt := m_sizeUseCnt (n_pool w) + 1\<rparr>,
      n_accepting := Some i\<rparr>"
  show thesis
    by (rule that[of ?w1])
      (use assms in \<open>simp_all add: accept_ready_def SessionPool_Acquire_def accept_done_def Recv_def net_defs Let_def\<close>)
qed

lemma accept_rounds_exhaust:
  "length rs = length (m_queue (n_pool w)) \<Longrightarrow>
     \<exists>w'. accept_rounds V rs w = Inr w' \<and> m_queue (n_pool w') = []"
proof (induction rs arbitrary: w)
  case (Cons r rs)
  obtain error buf junk where r: "r = (error, buf, junk)" by (cases r)
  obtain i rest where q: "m_queue (n_pool w) = i # rest"
    using Cons.prems by (cases "m_queue (n_pool w)") auto
  obtain w1 where w1: "accept_ready w = Inr w1" "n_accepting w1 = Some i"
    "m_queue (n_pool (accept_done V error buf junk i w1)) = rest"
    by (rule accept_round_pool[OF q])
  then show ?case
    using Cons.IH[of "accept_done V error buf junk i w1"] Cons.prems q r by simp
qed simp

section \<open>Properties\<close>

text \<open>
  The server of src/dummyServer before any connection, as \<open>SkltServer_Initialize\<close> leaves it; \<open>e\<close> are the
  uninitialised trailers.
\<close>

definition blank_net :: "(nat \<Rightarrow> SD_ENDER) \<Rightarrow> size_t \<Rightarrow> 'u \<Rightarrow> (HeaderCCT, 'u) Net" where
  "blank_net e max_buffer u =
     \<lparr>n_sessions = (\<lambda>i. AsyncSessionImpl_new (HeaderCCT_new (e i)) max_buffer 0), n_pool = Pool_new 0,
      n_heap = (\<lambda>_. []), n_coroutines = [], n_packetQueue = [], n_writes = [], n_wire = [], n_log = [],
      n_accepting = None, n_user = u\<rparr>"

definition started :: "(nat \<Rightarrow> SD_ENDER) \<Rightarrow> size_t \<Rightarrow> size_t \<Rightarrow> 'u \<Rightarrow> (HeaderCCT, 'u) Net" where
  "started e max_buffer session_pool_count u =
     AsyncSessionPool_Initialize (\<lambda>i. HeaderCCT_new (e i)) max_buffer (\<lambda>_. 0) session_pool_count (blank_net e max_buffer u)"

lemma started_pool_inv: "unat n < 2 ^ 31 \<Longrightarrow> pool_inv (unat n) (started e mb n u)"
  unfolding started_def
  by (rule pool_inv_initial) (simp_all add: blank_net_def AsyncSessionImpl_new_def)

lemma started_effect:
  assumes "unat n < 2 ^ 31"
  shows "n_pool (started e mb n u) = (Pool_new n)\<lparr>m_queue := [0..<unat n]\<rparr>"
    and "n_coroutines (started e mb n u) = []"
    and "as_spHeader (n_sessions (started e mb n u) j) = HeaderCCT_new (e j)"
    and "as_szHeaderBuffer (n_sessions (started e mb n u) j) = NULL"
    and "n_accepting (started e mb n u) = None"
    and "as_szBodyBuffer (n_sessions (started e mb n u) j) = NULL"
    and "as_sizeOfMaxBuffer (n_sessions (started e mb n u) j) = mb"
    and "n_log (started e mb n u) = []"
    and "n_packetQueue (started e mb n u) = []"
    and "n_writes (started e mb n u) = []"
proof -
  let ?w = "(blank_net e mb u)\<lparr>n_pool := Pool_new n\<rparr>"
  have pool: "n_pool ?w = Pool_new n" "m_queue (Pool_new n) = []" "m_sizeFlexibleMaxCnt (Pool_new n) = n"
    by (simp_all add: Pool_new_def)
  have "started e mb n u = create_sessions (\<lambda>i. HeaderCCT_new (e i)) mb (\<lambda>_. 0) [0..<unat n] ?w"
    by (simp add: started_def AsyncSessionPool_Initialize_def)
  note effect = create_sessions_effect[of ?w "[0..<unat n]" "\<lambda>i. HeaderCCT_new (e i)" mb "\<lambda>_. 0",
      folded this, unfolded pool, OF pool_ready_new[OF assms], simplified]
  show "n_pool (started e mb n u) = (Pool_new n)\<lparr>m_queue := [0..<unat n]\<rparr>"
    using effect by simp
  show "n_coroutines (started e mb n u) = []" "n_accepting (started e mb n u) = None"
    "as_spHeader (n_sessions (started e mb n u) j) = HeaderCCT_new (e j)"
    "as_szHeaderBuffer (n_sessions (started e mb n u) j) = NULL"
    "as_szBodyBuffer (n_sessions (started e mb n u) j) = NULL"
    "as_sizeOfMaxBuffer (n_sessions (started e mb n u) j) = mb"
    "n_log (started e mb n u) = []" "n_packetQueue (started e mb n u) = []" "n_writes (started e mb n u) = []"
    using effect by (simp_all add: blank_net_def AsyncSessionImpl_new_def)
qed

lemma started_recv_inv:
  "unat n < 2 ^ 31 \<Longrightarrow> recv_inv (server_vtbl en) good_header (started e mb n u)"
  by (simp add: recv_inv_def session_inv_def started_effect good_header_new)

text \<open>
  C3. In every reachable state of the server the free list holds no session twice and none that is in
  use or being accepted; the use count and the length of the free list add up to the number of
  sessions; and closing a session in use puts it at the end of the free list, marks it as returned and
  lowers the use count, unless its socket is open and closing it throws, in which case the pool and the
  mark stay as they were.
\<close>

theorem session_pool_sound:
  assumes "unat n < 2 ^ 31" and "server_reachable (server_vtbl en) W (started e mb n u) w"
  shows "distinct (m_queue (n_pool w))
    \<and> (\<forall>i. i \<in> set (m_queue (n_pool w)) \<longrightarrow>
          n_accepting w \<noteq> Some i \<and> as_nSessionPoolState (n_sessions w i) \<noteq> kAcquire)
    \<and> SessionPool_GetUseCount (n_pool w) + of_nat (length (m_queue (n_pool w))) = n
    \<and> (\<forall>i t. as_nSessionPoolState (n_sessions w i) = kAcquire \<longrightarrow>
          (if as_open (n_sessions w i) \<and> t
           then n_pool (snd (Close i t w)) = n_pool w \<and> as_nSessionPoolState (n_sessions (snd (Close i t w)) i) = kAcquire
           else m_queue (n_pool (snd (Close i t w))) = m_queue (n_pool w) @ [i]
             \<and> as_nSessionPoolState (n_sessions (snd (Close i t w)) i) = kRestore
             \<and> SessionPool_GetUseCount (n_pool (snd (Close i t w))) = SessionPool_GetUseCount (n_pool w) - 1))"
proof -
  have inv: "pool_inv (unat n) w"
    using pool_inv_reachable[OF assms(2) started_pool_inv[OF assms(1)]] .
  then show ?thesis
    by (auto simp: pool_inv_def pool_total_def Close_pool Close_session Close_restores[OF inv]
        SessionPool_GetUseCount_def GetUseCount_def)
qed

theorem session_pool_sound_witness:
  "\<exists>w. server_reachable (server_vtbl True) {} (started (\<lambda>_. zero_ender) 32768 3 ()) w
     \<and> m_queue (n_pool w) = [1, 2] \<and> m_queue (n_pool (snd (Close 0 False w))) = [1, 2, 0]"
proof -
  let ?w0 = "started (\<lambda>_. zero_ender) 32768 3 ()"
  have queue: "m_queue (n_pool ?w0) = [0, 1, 2]"
    by (simp add: started_effect upt_rec)
  note ready = accept_ready_Cons[OF this]
  let ?w1 = "?w0\<lparr>n_pool := (n_pool ?w0)\<lparr>m_queue := [1, 2], m_sizeUseCnt := m_sizeUseCnt (n_pool ?w0) + 1\<rparr>, n_accepting := Some 0\<rparr>"
  let ?w2 = "accept_done (server_vtbl True) False 7 [] 0 ?w1"
  have step1: "server_step (server_vtbl True) {} ?w0 ?w1"
    by (rule step_accept_ready[OF _ ready]) (simp add: started_effect)
  have step2: "server_step (server_vtbl True) {} ?w1 ?w2"
    by (rule step_accept_done) (auto simp: header_buffers_def started_effect)
  have reach: "server_reachable (server_vtbl True) {} ?w0 ?w2"
    by (rule reach_step[OF reach_step[OF reach_start step1] step2])
  have w2: "as_nSessionPoolState (n_sessions ?w2 0) = kAcquire" "m_queue (n_pool ?w2) = [1, 2]"
    by (simp_all add: accept_done_def Recv_def net_defs Let_def)
  have "unat (3 :: size_t) < 2 ^ 31"
    by simp
  from session_pool_sound[OF this reach, THEN conjunct2, THEN conjunct2, THEN conjunct2, rule_format, OF w2(1), of False]
  have "m_queue (n_pool (snd (Close 0 False ?w2))) = [1, 2, 0]"
    unfolding w2(2) by simp
  with reach w2(2) show ?thesis
    by blast
qed

text \<open>
  C12. In every reachable state, whatever bytes complete the receive of a header, with or without an
  error, reading it does not fault.
\<close>

theorem server_reads_headers_safely:
  assumes "unat n < 2 ^ 31" and "server_reachable (server_vtbl en) W (started e mb n u) w"
    and "c \<in> set (n_coroutines w)" and "co_phase c = Await_Header" and "buf \<notin> header_buffers w"
  shows "\<exists>w'. recv_header (server_vtbl en) c error data buf junk t w = Inr w'"
proof -
  note header = server_header.header_class_axioms[of en]
  have "recv_inv (server_vtbl en) good_header w"
    using header_class.recv_inv_reachable[OF header assms(2) started_recv_inv[OF assms(1)]] .
  from header_class.recv_header_step[OF header this assms(3-5)] show ?thesis
    by metis
qed

text \<open>
  C31. When an accept fails, its session is lost for good: no later step of the server puts it into
  the free list, into use, or before the acceptor again.
\<close>

theorem failed_accept_loses_session:
  assumes "unat n < 2 ^ 31" and "server_reachable (server_vtbl en) W (started e mb n u) w"
    and "n_accepting w = Some i"
    and "server_reachable (server_vtbl en) W (accept_done (server_vtbl en) True buf junk i w) w'"
  shows "i \<notin> set (m_queue (n_pool w')) \<and> n_accepting w' \<noteq> Some i
    \<and> as_nSessionPoolState (n_sessions w' i) \<noteq> kAcquire"
proof -
  have "pool_inv (unat n) w"
    using pool_inv_reachable[OF assms(2) started_pool_inv[OF assms(1)]] .
  then have "lost i (accept_done (server_vtbl en) True buf junk i w)"
    using assms(3) by (auto simp: lost_def pool_inv_def accept_done_def)
  then have "lost i w'"
    using lost_reachable assms(4) by blast
  then show ?thesis by (simp add: lost_def)
qed

text \<open>
  C32. A server with \<open>n\<close> sessions that has accepted \<open>n\<close> connections (or failed to) with none closed
  goes on to take a session from the empty pool and dereferences the missing one.
\<close>

theorem accepting_faults_when_exhausted:
  assumes "unat n < 2 ^ 31" and "length rs = unat n"
  shows "\<exists>w. accept_rounds V rs (started e mb n u) = Inr w \<and> accept_ready w = Inl Empty_Optional"
proof -
  have "length rs = length (m_queue (n_pool (started e mb n u)))"
    using assms by (simp add: started_effect)
  from accept_rounds_exhaust[OF this, of V] show ?thesis
    by (auto simp: accept_ready_def SessionPool_Acquire_def)
qed

theorem accepting_faults_when_exhausted_witness:
  "\<exists>w. accept_rounds (server_vtbl True) [(False, 1, []), (True, 2, [])] (started (\<lambda>_. zero_ender) 32768 2 ()) = Inr w
     \<and> accept_ready w = Inl Empty_Optional"
  by (rule accepting_faults_when_exhausted) simp_all

text \<open>Two steps of a server: it is ready to accept, and the first connection has come.\<close>

definition one_ready :: "(HeaderCCT, unit) Net" where
  "one_ready = (case accept_ready (started (\<lambda>_. zero_ender) 32768 2 ()) of Inr w \<Rightarrow> w | Inl _ \<Rightarrow> undefined)"

definition one_connected :: "(HeaderCCT, unit) Net" where
  "one_connected = accept_done (server_vtbl True) False 7 [] 0 one_ready"

lemma two_sessions: "n_pool (started (\<lambda>_. zero_ender) 32768 2 ()) = (Pool_new 2)\<lparr>m_queue := [0, 1]\<rparr>"
  by (simp add: started_effect upt_rec)

lemma one_ready_step: "accept_ready (started (\<lambda>_. zero_ender) 32768 2 ()) = Inr one_ready" "n_accepting one_ready = Some 0"
  by (simp_all add: one_ready_def accept_ready_def SessionPool_Acquire_def two_sessions)

lemma one_ready_reachable: "server_reachable (server_vtbl True) {} (started (\<lambda>_. zero_ender) 32768 2 ()) one_ready"
  by (rule reach_step[OF reach_start], rule step_accept_ready) (simp_all add: started_effect one_ready_step)

lemma one_ready_sessions: "as_szHeaderBuffer (n_sessions one_ready i) = NULL" "n_coroutines one_ready = []"
  by (simp_all add: one_ready_def accept_ready_def SessionPool_Acquire_def two_sessions started_effect)

lemma one_connected_reachable: "server_reachable (server_vtbl True) {} (started (\<lambda>_. zero_ender) 32768 2 ()) one_connected"
  unfolding one_connected_def
  by (rule reach_step[OF one_ready_reachable], rule step_accept_done)
    (auto simp: one_ready_step header_buffers_def one_ready_sessions)

lemma one_connected_coroutine:
  "\<exists>c \<in> set (n_coroutines one_connected). co_phase c = Await_Header"
  by (simp add: one_connected_def accept_done_def Recv_def net_defs Let_def)

theorem server_reads_headers_safely_witness:
  "\<exists>c \<in> set (n_coroutines one_connected).
     \<exists>w'. recv_header (server_vtbl True) c False (replicate 33 255) 9 [] False one_connected = Inr w'"
proof -
  obtain c where c: "c \<in> set (n_coroutines one_connected)" "co_phase c = Await_Header"
    using one_connected_coroutine by blast
  have "9 \<notin> header_buffers one_connected"
    using one_ready_sessions
    by (auto simp: header_buffers_def one_connected_def accept_done_def Recv_def net_defs Let_def split: if_splits)
  from server_reads_headers_safely[OF _ one_connected_reachable c this] show ?thesis
    using c(1) by (intro bexI[of _ c]) simp_all
qed

theorem failed_accept_loses_session_witness:
  "0 \<notin> set (m_queue (n_pool (accept_done (server_vtbl True) True 7 [] 0 one_ready)))"
  using failed_accept_loses_session[OF _ one_ready_reachable one_ready_step(2) reach_start] by simp

end
