(* ===== verification/Dummy_Server.thy ===== *)
theory Dummy_Server
  imports Skeleton_Server
begin

text \<open>
  The sample server (src/dummyServer/dummyServer.cpp): its two packet handlers and their
  registration. The state of the handlers is the global counter \<open>test_count\<close>. What a call depends on
  besides its arguments (the block the pool returns, the value of \<open>rand()\<close>, the bytes of local
  variables that are not initialised) is a record.
\<close>

section \<open>Operations\<close>

record handler_env =
  he_block :: addr
  he_junk :: bytes
  he_rand :: nat
  he_ender :: SD_ENDER
  he_ck :: bytes

text \<open>The packed structure \<open>CK_KEEPALIVE\<close>: a char and an int.\<close>

record CK_KEEPALIVE =
  cRes :: u8
  nRes :: i32

definition ck_bytes :: "CK_KEEPALIVE \<Rightarrow> bytes" where
  "ck_bytes ck = le_bytes 1 (cRes ck) @ le_bytes 4 (nRes ck)"

definition sizeof_CK_KEEPALIVE :: nat where
  "sizeof_CK_KEEPALIVE = 5"

definition TestProtocol :: "bool \<Rightarrow> handler_env \<Rightarrow> ((HeaderCCT, i32) Net) FunctionObject" where
  "TestProtocol en env buffer buffer_size w =
     (let w1 = w\<lparr>n_user := n_user w + 1\<rparr>
      in bind_result (ReadFromBuffer_n buffer buffer_size 0 (le_bytes 4 (0 :: i32)) 4) (\<lambda>_.
        let ck = \<lparr>cRes = 66, nRes = 100\<rparr>;
            (index, header) = MakeHeader en (he_rand env) (HeaderCCT_new (he_ender env)) 1010
              (of_nat sizeof_CK_KEEPALIVE);
            total = GetTotalSize header;
            szResponseBuffer = he_block env;
            w2 = pool_new szResponseBuffer (he_junk env) total w1
        in if szResponseBuffer = NULL then Inl Null_Pointer
           else bind_result (Serialize header (replicate (unat total) 0) total) (\<lambda>(_, b1).
             bind_result (WriteToBuffer b1 total index (ck_bytes ck)) (\<lambda>(_, index2, b2).
               let header2 = snd (MakeEnder header (n_user w1))
               in bind_result (WriteToBuffer_n b2 total index2 (ender_bytes (GetEnder header2)) (GetEnderSize header2))
                 (\<lambda>(_, _, b3).
                    Inr ((szResponseBuffer, GetTotalSize header2),
                      w2\<lparr>n_heap := (n_heap w2)(szResponseBuffer := b3)\<rparr>))))))"

definition KeepAlive :: "handler_env \<Rightarrow> ((HeaderCCT, i32) Net) FunctionObject" where
  "KeepAlive env buffer buffer_size w =
     bind_result (ReadFromBuffer_n buffer buffer_size 0 (he_ck env) (of_nat sizeof_CK_KEEPALIVE))
       (\<lambda>_. Inr ((NULL, 0), w))"

definition HandlerSet ::
  "bool \<Rightarrow> handler_env \<Rightarrow> ((HeaderCCT, i32) Net) HandlerManager \<Rightarrow> ((HeaderCCT, i32) Net) HandlerManager" where
  "HandlerSet en env handler_manager =
     ProtocolRegister (ProtocolRegister handler_manager 101 (TestProtocol en env)) 501 (KeepAlive env)"

section \<open>The handlers\<close>

lemma HandlerSet_table:
  "HandlerSet en env HandlerManager_new no =
     (if no = 101 then Some (TestProtocol en env) else if no = 501 then Some (KeepAlive env) else None)"
proof -
  have "HandlerSet en env HandlerManager_new
      = register_all [(101, TestProtocol en env), (501, KeepAlive env)] HandlerManager_new"
    by (simp add: HandlerSet_def register_all_def)
  then show ?thesis
    by (simp add: register_all_lookup)
qed

lemma length_ck_bytes [simp]: "length (ck_bytes ck) = 5"
  by (simp add: ck_bytes_def del: le_bytes.simps)

text \<open>A bounded read of a few bytes at the start of a packet never faults.\<close>

lemma small_read:
  assumes "unat n \<le> length buf" and "length t = unat k" and "unat k < 2 ^ 32"
  shows "\<exists>r. ReadFromBuffer_n buf n 0 t k = Inr r"
proof (cases "unat k \<le> unat n")
  case True
  then show ?thesis
    using assms ReadFromBuffer_n_ok[of 0 k n buf t] by auto
next
  case False
  then show ?thesis
    using assms ReadFromBuffer_n_short[of n 0 k buf t] by auto
qed

text \<open>The message \<open>TestProtocol\<close> answers with.\<close>

definition response_message :: "handler_env \<Rightarrow> message" where
  "response_message env =
     \<lparr>msg_no = 1010, msg_body = ck_bytes \<lparr>cRes = 66, nRes = 100\<rparr>, msg_rand = he_rand env,
      msg_buf = he_block env, msg_junk = he_junk env\<rparr>"

definition response_bytes :: "bool \<Rightarrow> handler_env \<Rightarrow> u32 \<Rightarrow> bytes" where
  "response_bytes en env packet_count =
     (case wire_frame en (HeaderCCT_new (he_ender env)) packet_count (response_message env) of
        (header, body, _) \<Rightarrow> header @ body)"

lemma TestProtocol_effect:
  assumes "unat n \<le> length buf" and "he_block env \<noteq> NULL" and "wf_ender (he_ender env)"
  shows "TestProtocol en env buf n w = Inr ((he_block env, 54),
    w\<lparr>n_user := n_user w + 1,
      n_heap := (n_heap w)(he_block env := response_bytes en env (n_user w + 1)),
      n_log := n_log w @ [Allocated (COMMON_POOL_New 54) (he_block env)]\<rparr>)"
proof -
  define h where "h = snd (MakeHeader en (he_rand env) (HeaderCCT_new (he_ender env)) 1010 5)"
  define e where "e = snd (MakeEnder h (n_user w + 1))"
  obtain r where r: "ReadFromBuffer_n buf n 0 (le_bytes 4 (0 :: i32)) 4 = Inr r"
    using small_read[OF assms(1), of "le_bytes 4 (0 :: i32)" 4] by (auto simp del: le_bytes.simps)
  have good: "good_header h" "good_header e"
    unfolding h_def e_def by (intro good_header_MakeEnder good_header_MakeHeader good_header_new)+
  have len: "length (header_bytes (hc_header h)) = 33"
    using good(1) by (simp add: good_header_def length_header_bytes)
  have elen: "length (ender_bytes (GetEnder e)) = 16"
    unfolding e_def h_def
    by (rule wire_frame_bytes[OF good_header_new]) (simp add: HeaderCCT_new_def assms(3))
  have total: "GetTotalSize h = 54" "GetTotalSize e = 54" "GetEnderSize e = 16"
    by (simp_all add: h_def e_def MakeHeader_def MakeEnder_def HeaderCCT_new_def header_getters
        sizeof_SD_HEADER_def sizeof_SD_ENDER_def)
  have mk: "MakeHeader en (he_rand env) (HeaderCCT_new (he_ender env)) 1010 5 = (33, h)"
    by (simp add: h_def MakeHeader_def sizeof_SD_HEADER_def)
  let ?ck = "ck_bytes \<lparr>cRes = 66, nRes = 100\<rparr>"
  have frame: "response_bytes en env (n_user w + 1) = header_bytes (hc_header h) @ ?ck @ ender_bytes (GetEnder e)"
    by (simp add: response_bytes_def response_message_def wire_frame_def h_def e_def Let_def)
  have ser: "Serialize h (replicate 54 0) 54 = Inr (33, header_bytes (hc_header h) @ replicate 21 0)"
    using Serialize_ok[OF good(1), of 54 "replicate 54 0"] by (simp add: sizeof_SD_HEADER_def)
  have w1: "WriteToBuffer (header_bytes (hc_header h) @ replicate 21 0) 54 33 ?ck
      = Inr (True, 38, header_bytes (hc_header h) @ ?ck @ replicate 16 0)"
    using len by (subst WriteToBuffer_ok) simp_all
  have w2: "WriteToBuffer_n (header_bytes (hc_header h) @ ?ck @ replicate 16 0) 54 38 (ender_bytes (GetEnder e)) 16
      = Inr (True, 54, header_bytes (hc_header h) @ ?ck @ ender_bytes (GetEnder e))"
    using len elen by (subst WriteToBuffer_n_ok) simp_all
  show ?thesis
    using assms(2) r ser w1 w2
    by (simp add: TestProtocol_def sizeof_CK_KEEPALIVE_def mk total frame pool_new_def log_event_def
        e_def[symmetric] Let_def del: le_bytes.simps)
qed


lemma KeepAlive_effect:
  assumes "unat n \<le> length buf" and "length (he_ck env) = 5"
  shows "KeepAlive env buf n w = Inr (no_response, w)"
  using small_read[OF assms(1), of "he_ck env" 5] assms(2)
  by (auto simp: KeepAlive_def sizeof_CK_KEEPALIVE_def no_response_def)

text \<open>
  The handlers mind their own business: they may be run by the workers of the transition system
  whenever the pool does not hand out a buffer that is in use.
\<close>

lemma TestProtocol_frame:
  assumes "TestProtocol en env buf n w = Inr (r, w')" and "he_block env \<notin> live"
  shows "handler_frame live w w'"
  using assms
  by (auto simp: TestProtocol_def handler_frame_def bind_result_eq_Inr_iff pool_new_def log_event_def Let_def
      split_beta split: if_splits)

lemma HandlerSet_well_behaved:
  assumes "he_block env \<notin> live"
  shows "well_behaved live (HandlerSet en env HandlerManager_new)"
proof -
  have "handler_frame live w w'"
    if "f \<in> ran (HandlerSet en env HandlerManager_new)" and "f buf n w = Inr (r, w')" for f buf n w r w'
  proof -
    from that(1) consider "f = TestProtocol en env" | "f = KeepAlive env"
      by (auto simp: ran_def HandlerSet_table split: if_splits)
    then show ?thesis
      using that(2) assms TestProtocol_frame
      by cases (auto simp: KeepAlive_def bind_result_eq_Inr_iff)
  qed
  then show ?thesis
    by (auto simp: well_behaved_def)
qed

lemma length_response_bytes:
  assumes "wf_ender (he_ender env)"
  shows "length (response_bytes en env k) = 54"
  using assms wire_frame_bytes[OF good_header_new, of "he_ender env"] good_header_MakeHeader[OF good_header_new]
  by (simp add: response_bytes_def response_message_def wire_frame_def HeaderCCT_new_def Let_def
      length_header_bytes good_header_def)

text \<open>The release of the buffer of a packet: its address with the size of the body, unless that is empty.\<close>

definition released_with :: "PacketInfo \<Rightarrow> pool_event list" where
  "released_with p =
     (if pi_pBuffer p \<noteq> NULL \<and> pi_sizeOfBuffer p > 0
      then [Released (snd (COMMON_POOL_Delete (pi_pBuffer p) (ucast (ucast (pi_sizeOfBuffer p) :: u32))))] else [])"

text \<open>What a worker makes of a request for protocol 101.\<close>

lemma request_processed:
  assumes "unat (pi_sizeOfBuffer p) \<le> length (n_heap w (pi_pBuffer p))" and "pi_protocolNo p = 101"
    and "he_block env \<noteq> NULL" and "wf_ender (he_ender env)"
  obtains w' where
    "PacketWorker_Processing_packet (PacketWorker_new (HandlerSet en env HandlerManager_new)) p w = Inr w'"
    and "n_user w' = n_user w + 1"
    and "n_writes w' = n_writes w @ [\<lparr>pw_session = pi_session p, pw_data = he_block env, pw_length = 54\<rparr>]"
    and "n_heap w' = (n_heap w)(he_block env := response_bytes en env (n_user w + 1))"
    and "n_sessions w' = n_sessions w" and "n_coroutines w' = n_coroutines w" and "n_wire w' = n_wire w"
    and "n_packetQueue w' = n_packetQueue w"
    and "n_log w' = n_log w @ Allocated (COMMON_POOL_New 54) (he_block env) # released_with p"
  unfolding released_with_def using assms TestProtocol_effect[OF assms(1,3,4), of en w]
  by (simp add: PacketWorker_Processing_packet_def PacketWorker_new_def SetHandlerManager_def Processing_def
      HandlerSet_table Send_def SendProcess_def net_defs Let_def split_beta)

text \<open>A write that succeeds puts the response on the wire.\<close>

lemma response_sent:
  assumes "wf_ender (he_ender env)" and "n_heap w (he_block env) = response_bytes en env k"
  shows "n_wire (send_completed \<lparr>pw_session = i, pw_data = he_block env, pw_length = 54\<rparr> stale False t w)
    = n_wire w @ [(i, response_bytes en env k)]"
  using assms length_response_bytes[OF assms(1), of en k]
  by (simp add: send_completed_def pool_delete_def log_event_def Let_def split_beta)

section \<open>Properties\<close>

text \<open>
  C9. A request for protocol 101 is answered once: a worker that processes the packet counts it,
  returns no fault, and starts exactly one write for the packet's session; when that write
  completes, the bytes on the wire are a complete frame for protocol 1010 with the five bytes of
  the answer, serial number included. Besides taking the block of the response from the pools, the worker
  gives the buffer of the request back to them, once, unless the request has an empty body or
  no buffer.
\<close>

theorem request_is_answered:
  assumes "unat (pi_sizeOfBuffer p) \<le> length (n_heap w (pi_pBuffer p))" and "pi_protocolNo p = 101"
    and "he_block env \<noteq> NULL" and "wf_ender (he_ender env)"
  shows "\<exists>w'. PacketWorker_Processing_packet (PacketWorker_new (HandlerSet en env HandlerManager_new)) p w = Inr w'
    \<and> n_user w' = n_user w + 1
    \<and> n_writes w' = n_writes w @ [\<lparr>pw_session = pi_session p, pw_data = he_block env, pw_length = 54\<rparr>]
    \<and> n_wire (send_completed \<lparr>pw_session = pi_session p, pw_data = he_block env, pw_length = 54\<rparr> stale False t w')
        = n_wire w @ [(pi_session p, response_bytes en env (n_user w + 1))]
    \<and> (if pi_pBuffer p = NULL \<or> pi_sizeOfBuffer p = 0
       then n_log w' = n_log w @ [Allocated (COMMON_POOL_New 54) (he_block env)]
       else \<exists>r. n_log w' = n_log w @ [Allocated (COMMON_POOL_New 54) (he_block env), Released r]
         \<and> freed_addr r = Some (pi_pBuffer p))"
  by (rule request_processed[OF assms, of en]) (auto simp: response_sent[OF assms(4)] released_with_def word_gt_0)

definition sample_env :: handler_env where
  "sample_env = \<lparr>he_block = 9, he_junk = [], he_rand = 3, he_ender = zero_ender, he_ck = [0, 0, 0, 0, 0]\<rparr>"

lemma sample_env_ok: "he_block sample_env = 9" "wf_ender (he_ender sample_env)"
  by (simp_all add: sample_env_def wf_ender_def zero_ender_def)

theorem request_is_answered_witness:
  "\<exists>w' r. PacketWorker_Processing_packet (PacketWorker_new (HandlerSet True sample_env HandlerManager_new))
      \<lparr>pi_session = 1, pi_protocolNo = 101, pi_pBuffer = 4, pi_sizeOfBuffer = 3\<rparr>
      ((blank_net (\<lambda>_. zero_ender) 32768 6)\<lparr>n_heap := (\<lambda>_. [1, 2, 3])\<rparr>) = Inr w'
    \<and> n_user w' = 7 \<and> map pw_session (n_writes w') = [1]
    \<and> n_log w' = [Allocated (COMMON_POOL_New 54) 9, Released r] \<and> freed_addr r = Some 4"
  using request_is_answered[of "\<lparr>pi_session = 1, pi_protocolNo = 101, pi_pBuffer = 4, pi_sizeOfBuffer = 3\<rparr>"
      "(blank_net (\<lambda>_. zero_ender) 32768 6)\<lparr>n_heap := (\<lambda>_. [1, 2, 3])\<rparr>" sample_env True 0 False]
  by (auto simp: sample_env_ok blank_net_def)

text \<open>
  The answer to a request, cut into header and rest, is received by a peer's session as one
  packet for protocol 1010 whose buffer starts with the five bytes of the answer.
\<close>

lemma answer_is_understood:
  assumes "wf_ender (he_ender env)" and "session_ready self w"
    and "as_sizeOfMaxBuffer (n_sessions w self) = 32768"
    and "he_block env \<noteq> as_szHeaderBuffer (n_sessions w self)"
  shows "\<exists>w'. recv_frame (server_vtbl en) self
      (take 33 (response_bytes en env k), drop 33 (response_bytes en env k), he_block env, he_junk env) w = Inr w'
    \<and> n_packetQueue w' = n_packetQueue w @
        [\<lparr>pi_session = self, pi_protocolNo = 1010, pi_pBuffer = he_block env, pi_sizeOfBuffer = 5\<rparr>]
    \<and> take 5 (n_heap w' (he_block env)) = [66, 100, 0, 0, 0]"
proof -
  let ?s = "HeaderCCT_new (he_ender env)" and ?m = "response_message env"
  have "wf_header (hc_header (snd (MakeHeader en (he_rand env) ?s 1010 5)))"
    using good_header_MakeHeader[OF good_header_new] by (simp add: good_header_def)
  then have frame: "(take 33 (response_bytes en env k), drop 33 (response_bytes en env k), he_block env, he_junk env)
      = wire_frame en ?s k ?m"
    by (simp add: response_bytes_def response_message_def wire_frame_def Let_def length_header_bytes)
  have m: "wf_ender (hc_ender ?s)" "fits (as_sizeOfMaxBuffer (n_sessions w self)) ?m"
    "msg_buf ?m \<noteq> as_szHeaderBuffer (n_sessions w self)"
    using assms by (simp_all add: fits_def response_message_def HeaderCCT_new_def)
  obtain w' where w': "recv_frame (server_vtbl en) self (wire_frame en ?s k ?m) w = Inr w'"
    "n_packetQueue w' = n_packetQueue w @ [packet_of self ?m]"
    and body: "take (length (msg_body ?m)) (n_heap w' (msg_buf ?m)) = msg_body ?m"
    by (rule recv_wire_frame[OF good_header_new m(1) assms(2) m(2,3)]) (rule that, assumption+)
  have m: "msg_body ?m = [66, 100, 0, 0, 0]" "length (msg_body ?m) = 5" "msg_buf ?m = he_block env"
    "msg_no ?m = 1010"
    by (simp_all add: response_message_def ck_bytes_def le_bytes_eval)
  have "take 5 (n_heap w' (he_block env)) = [66, 100, 0, 0, 0]"
    using body[unfolded m(2), unfolded m(1,3)] .
  then show ?thesis
    using w' m unfolding frame by (intro exI[of _ w']) (simp add: packet_of_def)
qed

end
