(* ===== verification/Sync_Session.thy ===== *)
theory Sync_Session
  imports Header_Class Memory_Manager
begin

text \<open>
  The synchronous client session (include/net/sync_session_impl.h, src/lib/sync_session_impl.cpp)
  and the class \<open>SyncSession\<close> that wraps it (src/lib/sync_session.cpp).

  A socket is what the operating system makes of it: the bytes the peer will have sent, how many of
  them each call of \<open>recv\<close> transfers at most, what each call of \<open>send\<close> returns at most, whether
  closing it fails, and whether a call of \<open>recv\<close> that finds nothing has met the end of the stream
  (it returns 0) or has timed out (it returns -1). Bytes are copied into the caller's buffer where the source says, and a copy that
  leaves the buffer is a fault. Logging is left out.
\<close>

section \<open>Sockets\<close>

record timeval =
  tv_sec :: i32
  tv_usec :: i32

record sock =
  so_open :: bool
  so_in :: bytes
  so_chunks :: "nat list"
  so_out :: bytes
  so_sends :: "int list"
  so_sndtimeo :: "timeval option"
  so_rcvtimeo :: "timeval option"
  so_close_error :: bool
  so_timeout :: bool

definition closed_sock :: sock where
  "closed_sock = \<lparr>so_open = False, so_in = [], so_chunks = [], so_out = [], so_sends = [],
     so_sndtimeo = None, so_rcvtimeo = None, so_close_error = False, so_timeout = False\<rparr>"

text \<open>
  The call \<open>recv\<close>: how many bytes it transfers, the bytes, and the socket afterwards. With no bound
  given it transfers all there is; -1 is an error, a count of zero the end of the stream.
\<close>

definition sys_recv :: "int \<Rightarrow> bool \<Rightarrow> sock \<Rightarrow> int \<times> bytes \<times> sock" where
  "sys_recv n peek s =
     (let k = (case so_chunks s of [] \<Rightarrow> length (so_in s) | c # _ \<Rightarrow> min c (length (so_in s)));
          data = take (min k (nat n)) (so_in s);
          s' = s\<lparr>so_chunks := tl (so_chunks s)\<rparr>
      in if n < 0 \<or> (data = [] \<and> 0 < n \<and> so_timeout s) then (- 1, [], s')
         else (int (length data), data, if peek then s' else s'\<lparr>so_in := drop (length data) (so_in s)\<rparr>))"

text \<open>
  The call \<open>send\<close> with a length \<open>n\<close>: what it returns and how many of the bytes it has taken. A
  negative length is an error.
\<close>

definition sys_send :: "int \<Rightarrow> bytes \<Rightarrow> sock \<Rightarrow> int \<times> sock" where
  "sys_send n data s =
     (let k = (if n < 0 then - 1 else case so_sends s of [] \<Rightarrow> n | c # _ \<Rightarrow> min c n);
          s' = s\<lparr>so_sends := tl (so_sends s)\<rparr>
      in if k < 0 then (k, s') else (k, s'\<lparr>so_out := so_out s @ take (nat k) data\<rparr>))"

section \<open>The class SyncSessionImpl\<close>

record 'h SyncSessionImpl =
  ss_sock :: sock
  ss_sendTimeInterval :: timeval
  ss_recvTimeInterval :: timeval
  ss_sendPacketNo :: i32
  ss_pHeader :: 'h

definition timerclear :: timeval where
  "timerclear = \<lparr>tv_sec = 0, tv_usec = 0\<rparr>"

definition SetSendTimeout :: "timeval \<Rightarrow> 'h SyncSessionImpl \<Rightarrow> 'h SyncSessionImpl" where
  "SetSendTimeout settime s = s\<lparr>ss_sendTimeInterval := settime\<rparr>"

definition SetRecvTimeout :: "timeval \<Rightarrow> 'h SyncSessionImpl \<Rightarrow> 'h SyncSessionImpl" where
  "SetRecvTimeout settime s = s\<lparr>ss_recvTimeInterval := settime\<rparr>"

definition ClearSendTimeout :: "'h SyncSessionImpl \<Rightarrow> 'h SyncSessionImpl" where
  "ClearSendTimeout s = s\<lparr>ss_sendTimeInterval := timerclear\<rparr>"

definition ClearRecvTimeout :: "'h SyncSessionImpl \<Rightarrow> 'h SyncSessionImpl" where
  "ClearRecvTimeout s = s\<lparr>ss_recvTimeInterval := timerclear\<rparr>"

text \<open>\<open>u\<close> and \<open>v\<close>: the time intervals before the constructor clears them.\<close>

definition SyncSessionImpl_new :: "timeval \<Rightarrow> timeval \<Rightarrow> 'h \<Rightarrow> 'h SyncSessionImpl" where
  "SyncSessionImpl_new u v pheader =
     ClearRecvTimeout (ClearSendTimeout
       \<lparr>ss_sock = closed_sock, ss_sendTimeInterval = u, ss_recvTimeInterval = v, ss_sendPacketNo = 1,
        ss_pHeader = pheader\<rparr>)"

definition SetTimeWait :: "'h SyncSessionImpl \<Rightarrow> 'h SyncSessionImpl" where
  "SetTimeWait s =
     (let t = ss_sendTimeInterval s; r = ss_recvTimeInterval s; k0 = ss_sock s;
          k1 = (if tv_sec t \<noteq> 0 \<or> tv_usec t \<noteq> 0 then k0\<lparr>so_sndtimeo := Some t\<rparr> else k0);
          k2 = (if tv_sec r \<noteq> 0 \<or> tv_usec r \<noteq> 0 then k1\<lparr>so_rcvtimeo := Some r\<rparr> else k1)
      in s\<lparr>ss_sock := k2\<rparr>)"

definition IsConnection :: "'h SyncSessionImpl \<Rightarrow> bool" where
  "IsConnection s = so_open (ss_sock s)"

text \<open>
  \<open>Close\<close> throws the error code of a failed close itself; neither handler of the function catches
  an error code, so the exception leaves the function.
\<close>

definition SyncSessionImpl_Close :: "'h SyncSessionImpl \<Rightarrow> (bool \<times> 'h SyncSessionImpl) result" where
  "SyncSessionImpl_Close s =
     (if IsConnection s
      then if so_close_error (ss_sock s) then Inl Uncaught_Exception
           else Inr (True, s\<lparr>ss_sock := (ss_sock s)\<lparr>so_open := False\<rparr>\<rparr>)
      else Inr (True, s))"

text \<open>The destructor; an exception that leaves it ends the program.\<close>

definition SyncSessionImpl_destroy :: "'h SyncSessionImpl \<Rightarrow> ('h SyncSessionImpl) result" where
  "SyncSessionImpl_destroy s = bind_result (SyncSessionImpl_Close s) (\<lambda>(_, s'). Inr s')"

text \<open>
  \<open>Connect\<close>: \<open>resolved\<close> tells whether the name was resolved (the resolver throws otherwise, outside
  the \<open>try\<close> block), \<open>peer\<close> is the socket of an established connection. A socket whose connect
  failed stays open.
\<close>

definition SyncSessionImpl_Connect ::
  "bool \<Rightarrow> sock option \<Rightarrow> 'h SyncSessionImpl \<Rightarrow> (bool \<times> 'h SyncSessionImpl) result" where
  "SyncSessionImpl_Connect resolved peer s =
     bind_result (if IsConnection s then SyncSessionImpl_Close s else Inr (True, s))
       (\<lambda>(_, s1).
          if \<not> resolved then Inl Uncaught_Exception
          else case peer of
            None \<Rightarrow> Inr (False, s1\<lparr>ss_sock := closed_sock\<lparr>so_open := True\<rparr>\<rparr>)
          | Some k \<Rightarrow> Inr (True, SetTimeWait (s1\<lparr>ss_sock := k\<lparr>so_open := True\<rparr>\<rparr>)))"

text \<open>
  \<open>Send\<close>: at most \<open>try_count\<close> calls of \<open>send\<close>. \<open>None\<close> as the Boolean of the loop: the loop was left
  by \<open>break\<close> or ran out.
\<close>

fun send_tries :: "nat \<Rightarrow> bytes \<Rightarrow> size_t \<Rightarrow> size_t \<Rightarrow> sock \<Rightarrow> (bool option \<times> size_t \<times> sock) result" where
  "send_tries 0 buffer buffer_size total_transferred s = Inr (None, total_transferred, s)"
| "send_tries (Suc i) buffer buffer_size total_transferred s =
     (let n = sint (ucast (buffer_size - total_transferred) :: i32)
      in bind_result (mem_read buffer (unat total_transferred) (nat n)) (\<lambda>data.
       let (bytes_transferred, s') = sys_send n data s;
           total' = total_transferred + word_of_int bytes_transferred
       in if bytes_transferred < 0 then Inr (Some False, total', s')
          else if total' < buffer_size then send_tries i buffer buffer_size total' s'
          else Inr (None, total', s')))"

definition try_count :: nat where
  "try_count = 5"

definition SyncSessionImpl_Send :: "bytes \<Rightarrow> size_t \<Rightarrow> 'h SyncSessionImpl \<Rightarrow> (bool \<times> 'h SyncSessionImpl) result" where
  "SyncSessionImpl_Send buffer buffer_size s =
     (if \<not> IsConnection s then Inr (False, s)
      else if buffer_size = 0 then Inr (False, s)
      else bind_result (send_tries try_count buffer buffer_size 0 (ss_sock s))
        (\<lambda>(r, total_transferred, k).
           let s' = s\<lparr>ss_sock := k\<rparr>
           in case r of
                Some b \<Rightarrow> Inr (b, s')
              | None \<Rightarrow> Inr (\<not> total_transferred < buffer_size, s')))"

definition HeaderPaser ::
  "'h Header_vtbl \<Rightarrow> bytes \<Rightarrow> size_t \<Rightarrow> 'h SyncSessionImpl \<Rightarrow> (size_t \<times> bytes \<times> 'h SyncSessionImpl) result" where
  "HeaderPaser V buffer buffer_size s =
     (let h0 = ss_pHeader s; hs = v_GetHeaderSize V h0;
          (available, data, k) = sys_recv (sint (ucast hs :: i32)) True (ss_sock s);
          s1 = s\<lparr>ss_sock := k\<rparr>
      in bind_result (mem_write buffer 0 data) (\<lambda>buffer1.
        if (word_of_int available :: size_t) \<noteq> hs then Inr (0, buffer1, s1)
        else bind_result (v_Deserialize V h0 buffer1 hs) (\<lambda>(index, h).
          let s2 = s1\<lparr>ss_pHeader := h\<rparr>
          in if \<not> v_Validate V h then Inr (0, buffer1, s2)
             else Inr (v_GetTotalSize V h, buffer1, s2))))"

text \<open>The loop of \<open>BodyPaser\<close>; every round transfers at least one byte or leaves the loop.\<close>

function body_loop :: "size_t \<Rightarrow> nat \<Rightarrow> bytes \<Rightarrow> sock \<Rightarrow> (bool \<times> nat \<times> bytes \<times> sock) result" where
  "body_loop total_length bytes_transferred buffer k =
     (if bytes_transferred < unat total_length then
        let (transferred, data, k') =
              sys_recv (sint (ucast total_length :: i32) - int bytes_transferred) False k
        in if transferred \<le> 0 then Inr (False, bytes_transferred, buffer, k')
           else bind_result (mem_write buffer bytes_transferred data)
             (\<lambda>buffer'. body_loop total_length (bytes_transferred + nat transferred) buffer' k')
      else Inr (True, bytes_transferred, buffer, k))"
  by pat_completeness auto
termination
  by (relation "measure (\<lambda>(total_length, bytes_transferred, _). unat total_length - bytes_transferred)") auto

declare body_loop.simps [simp del]

definition BodyPaser ::
  "'h Header_vtbl \<Rightarrow> bytes \<Rightarrow> size_t \<Rightarrow> 'h SyncSessionImpl \<Rightarrow> (bool \<times> bytes \<times> 'h SyncSessionImpl) result" where
  "BodyPaser V buffer total_length s =
     bind_result (body_loop total_length 0 buffer (ss_sock s)) (\<lambda>(ok, bytes_transferred, buffer', k).
       let s' = s\<lparr>ss_sock := k\<rparr>
       in if \<not> ok then Inr (False, buffer', s')
          else Inr (v_CheckEndmarker V (ss_pHeader s') buffer' (of_nat bytes_transferred), buffer', s'))"

text \<open>The test \<open>total_length < 0\<close> on an unsigned length is never true.\<close>

definition Paser ::
  "'h Header_vtbl \<Rightarrow> bytes \<Rightarrow> size_t \<Rightarrow> 'h SyncSessionImpl \<Rightarrow> (bool \<times> bytes \<times> 'h SyncSessionImpl) result" where
  "Paser V buffer buffer_size s =
     bind_result (HeaderPaser V buffer buffer_size s) (\<lambda>(total_length, buffer1, s1).
       if total_length < 0 then Inr (False, buffer1, s1) else BodyPaser V buffer1 total_length s1)"

definition SyncSessionImpl_Recv ::
  "'h Header_vtbl \<Rightarrow> bytes \<Rightarrow> size_t \<Rightarrow> 'h SyncSessionImpl \<Rightarrow> (bool \<times> bytes \<times> 'h SyncSessionImpl) result" where
  "SyncSessionImpl_Recv V buffer buffer_size s =
     (if \<not> IsConnection s then Inr (False, buffer, s)
      else bind_result (Paser V buffer buffer_size s) (\<lambda>(_, buffer', s'). Inr (True, buffer', s')))"

definition GetSendPacketNo :: "'h SyncSessionImpl \<Rightarrow> i32 \<times> 'h SyncSessionImpl" where
  "GetSendPacketNo s = (let s' = s\<lparr>ss_sendPacketNo := ss_sendPacketNo s + 1\<rparr> in (ss_sendPacketNo s', s'))"

section \<open>The class SyncSession\<close>

text \<open>It passes every call on to its \<open>SyncSessionImpl\<close>.\<close>

type_synonym 'h SyncSession = "'h SyncSessionImpl"

definition SyncSession_new :: "timeval \<Rightarrow> timeval \<Rightarrow> 'h \<Rightarrow> 'h SyncSession" where
  "SyncSession_new u v pheader = SyncSessionImpl_new u v pheader"

definition SyncSession_IsConnection :: "'h SyncSession \<Rightarrow> bool" where
  "SyncSession_IsConnection s = IsConnection s"

definition SyncSession_Connect :: "bool \<Rightarrow> sock option \<Rightarrow> 'h SyncSession \<Rightarrow> (bool \<times> 'h SyncSession) result" where
  "SyncSession_Connect resolved peer s = SyncSessionImpl_Connect resolved peer s"

definition SyncSession_SetSendTimeout :: "timeval \<Rightarrow> 'h SyncSession \<Rightarrow> 'h SyncSession" where
  "SyncSession_SetSendTimeout settime s = SetSendTimeout settime s"

definition SyncSession_SetRecvTimeout :: "timeval \<Rightarrow> 'h SyncSession \<Rightarrow> 'h SyncSession" where
  "SyncSession_SetRecvTimeout settime s = SetRecvTimeout settime s"

definition SyncSession_ClearSendTimeout :: "'h SyncSession \<Rightarrow> 'h SyncSession" where
  "SyncSession_ClearSendTimeout s = ClearSendTimeout s"

definition SyncSession_ClearRecvTimeout :: "'h SyncSession \<Rightarrow> 'h SyncSession" where
  "SyncSession_ClearRecvTimeout s = ClearRecvTimeout s"

definition SyncSession_Send :: "bytes \<Rightarrow> size_t \<Rightarrow> 'h SyncSession \<Rightarrow> (bool \<times> 'h SyncSession) result" where
  "SyncSession_Send buffer buffer_size s = SyncSessionImpl_Send buffer buffer_size s"

definition SyncSession_Recv ::
  "'h Header_vtbl \<Rightarrow> bytes \<Rightarrow> size_t \<Rightarrow> 'h SyncSession \<Rightarrow> (bool \<times> bytes \<times> 'h SyncSession) result" where
  "SyncSession_Recv V buffer buffer_size s = SyncSessionImpl_Recv V buffer buffer_size s"

definition SyncSession_Close :: "'h SyncSession \<Rightarrow> (bool \<times> 'h SyncSession) result" where
  "SyncSession_Close s = SyncSessionImpl_Close s"

definition SyncSession_GetSendPacketNo :: "'h SyncSession \<Rightarrow> i32 \<times> 'h SyncSession" where
  "SyncSession_GetSendPacketNo s = GetSendPacketNo s"

section \<open>Receiving\<close>

lemma sint_small:
  assumes "unat (n :: size_t) < 2 ^ 31"
  shows "sint (ucast n :: i32) = int (unat n)"
proof -
  have "int (unat n) < int (2 ^ 31)"
    using assms by (simp only: of_nat_less_iff)
  then have k1: "int (unat n) < 2 ^ 31"
    by (simp only: of_nat_power of_nat_numeral)
  have "- (2 ^ 31) \<le> (0 :: int)" "0 \<le> int (unat n)"
    by simp_all
  then have k2: "- (2 ^ 31) \<le> int (unat n)"
    by (rule order.trans)
  have "sint (word_of_int (int (unat n)) :: i32) = signed_take_bit 31 (int (unat n))"
    by (subst sint_sbintrunc') (simp only: len_num0 len_bit0 len_num1, simp)
  also have "\<dots> = int (unat n)"
    using k2 k1 by (rule signed_take_bit_int_eq_self)
  also have "(word_of_int (int (unat n)) :: i32) = ucast n"
    by (simp only: ucast_eq uint_nat)
  finally show ?thesis .
qed

lemma sys_recv_stream:
  assumes "0 < n" and "so_in k \<noteq> []" and "\<forall>c \<in> set (so_chunks k). 0 < c"
  obtains m k' where "sys_recv n False k = (int m, take m (so_in k), k')" and "0 < m"
    and "m \<le> nat n" and "m \<le> length (so_in k)" and "so_in k' = drop m (so_in k)"
    and "\<forall>c \<in> set (so_chunks k'). 0 < c"
proof -
  let ?c = "case so_chunks k of [] \<Rightarrow> length (so_in k) | c # _ \<Rightarrow> min c (length (so_in k))"
  let ?m = "length (take (min ?c (nat n)) (so_in k))"
  have "0 < ?c" "?c \<le> length (so_in k)"
    using assms(2,3) by (auto split: list.splits)
  then have "0 < ?m" "?m \<le> nat n" "?m \<le> length (so_in k)" "?m = min ?c (nat n)"
    using assms(1) by simp_all
  moreover have "\<forall>c \<in> set (tl (so_chunks k)). 0 < c"
    using assms(3) by (cases "so_chunks k") auto
  ultimately show thesis
    using assms(1)
    by (intro that[of ?m "k\<lparr>so_chunks := tl (so_chunks k), so_in := drop ?m (so_in k)\<rparr>"])
      (auto simp: sys_recv_def Let_def)
qed

text \<open>The body arrives completely, however the stream is cut into pieces.\<close>

lemma body_loop_complete:
  assumes "unat tot < 2 ^ 31" and "bt \<le> unat tot" and "unat tot \<le> length buffer"
    and "so_in k = data @ rest" and "length data = unat tot - bt" and "\<forall>c \<in> set (so_chunks k). 0 < c"
  shows "\<exists>k'. body_loop tot bt buffer k
      = Inr (True, unat tot, take bt buffer @ data @ drop (unat tot) buffer, k') \<and> so_in k' = rest"
  using assms
proof (induction tot bt buffer k arbitrary: data rule: body_loop.induct)
  case (1 tot bt buffer k)
  show ?case
  proof (cases "bt < unat tot")
    case False
    then show ?thesis
      using 1 by (subst body_loop.simps) simp
  next
    case True
    let ?n = "sint (ucast tot :: i32) - int bt"
    have n: "?n = int (unat tot - bt)" "0 < ?n"
      using True unfolding sint_small[OF 1(2)] by linarith+
    have "so_in k \<noteq> []"
      using True 1(5,6) by auto
    from sys_recv_stream[OF n(2) this 1(7)] obtain m k' where
      m: "sys_recv ?n False k = (int m, take m (so_in k), k')" "0 < m" "m \<le> nat ?n" "m \<le> length (so_in k)"
        "so_in k' = drop m (so_in k)" "\<forall>c \<in> set (so_chunks k'). 0 < c"
      by metis
    have md: "m \<le> length data" "take m (so_in k) = take m data" "so_in k' = drop m data @ rest"
      using m n(1) 1(5,6) by simp_all
    let ?buffer = "take bt buffer @ take m data @ drop (bt + m) buffer"
    have wr: "mem_write buffer bt (take m (so_in k)) = Inr ?buffer"
      using 1(3,4,6) md by (simp add: mem_write_ok min_absorb2)
    have "\<exists>k''. body_loop tot (bt + m) ?buffer k'
        = Inr (True, unat tot, take (bt + m) ?buffer @ drop m data @ drop (unat tot) ?buffer, k'') \<and> so_in k'' = rest"
      using 1(1)[OF True m(1)[symmetric] refl, of "take m (so_in k)" k' ?buffer "drop m data"] m md wr 1 by simp
    moreover have "take (bt + m) ?buffer @ drop m data @ drop (unat tot) ?buffer
        = take bt buffer @ data @ drop (unat tot) buffer"
      using 1(3,4,6) md(1) by (simp add: min_absorb2)
    ultimately show ?thesis
      using True m(1,2) wr by (subst body_loop.simps) (simp add: Let_def)
  qed
qed

text \<open>A body that does not fit into the buffer is written past its end.\<close>

lemma body_loop_overflow:
  assumes "unat tot < 2 ^ 31" and "bt \<le> length buffer" and "length buffer < unat tot"
    and "unat tot - bt \<le> length (so_in k)" and "\<forall>c \<in> set (so_chunks k). 0 < c"
  shows "body_loop tot bt buffer k = Inl Out_Of_Bounds"
  using assms
proof (induction tot bt buffer k rule: body_loop.induct)
  case (1 tot bt buffer k)
  let ?n = "sint (ucast tot :: i32) - int bt"
  have bt: "bt < unat tot"
    using 1(3,4) by simp
  have n: "?n = int (unat tot - bt)" "0 < ?n"
    using bt unfolding sint_small[OF 1(2)] by linarith+
  have "so_in k \<noteq> []"
    using bt 1(5) by auto
  from sys_recv_stream[OF n(2) this 1(6)] obtain m k' where
    m: "sys_recv ?n False k = (int m, take m (so_in k), k')" "0 < m" "m \<le> nat ?n" "m \<le> length (so_in k)"
      "so_in k' = drop m (so_in k)" "\<forall>c \<in> set (so_chunks k'). 0 < c"
    by metis
  have data: "length (take m (so_in k)) = m" using m(4) by simp
  show ?case
  proof (cases "bt + m \<le> length buffer")
    case False
    then have "mem_write buffer bt (take m (so_in k)) = Inl Out_Of_Bounds"
      using data by (simp add: mem_write_def)
    then show ?thesis
      using bt m(1,2) by (subst body_loop.simps) (simp add: Let_def)
  next
    case True
    then obtain b' where b': "mem_write buffer bt (take m (so_in k)) = Inr b'"
      using data by (simp add: mem_write_def)
    then have "length b' = length buffer" by (rule mem_write_length)
    then have "body_loop tot (bt + m) b' k' = Inl Out_Of_Bounds"
      using 1(1)[OF bt m(1)[symmetric] refl, of "take m (so_in k)" k' b'] m True 1(2,4,5) b' by simp
    then show ?thesis
      using bt m(1,2) b' by (subst body_loop.simps) (simp add: Let_def)
  qed
qed

text \<open>What the first look at the stream returns.\<close>

definition first_look :: "nat \<Rightarrow> sock \<Rightarrow> bytes" where
  "first_look n k = take (min (case so_chunks k of [] \<Rightarrow> length (so_in k) | c # _ \<Rightarrow> c) n) (so_in k)"

definition look_result :: "nat \<Rightarrow> sock \<Rightarrow> int" where
  "look_result n k = (if first_look n k = [] \<and> 0 < n \<and> so_timeout k then - 1 else int (length (first_look n k)))"

lemma look_result_full: "length (first_look n k) = n \<Longrightarrow> look_result n k = int n"
  by (auto simp: look_result_def)

lemma sys_recv_peek:
  assumes "unat (n :: size_t) < 2 ^ 31"
  shows "sys_recv (sint (ucast n :: i32)) True k
    = (look_result (unat n) k, first_look (unat n) k, k\<lparr>so_chunks := tl (so_chunks k)\<rparr>)"
proof -
  have "take (min (case so_chunks k of [] \<Rightarrow> length (so_in k) | c # _ \<Rightarrow> min c (length (so_in k))) (unat n)) (so_in k)
      = first_look (unat n) k"
    by (auto simp: first_look_def min_def split: list.splits)
  then show ?thesis
    unfolding sint_small[OF assms]
    by (simp only: sys_recv_def Let_def nat_int look_result_def of_nat_0_less_iff of_nat_less_0_iff) simp
qed

lemma Recv_frame:
  fixes s :: "'h SyncSessionImpl" and V :: "'h Header_vtbl"
  defines "hs \<equiv> v_GetHeaderSize V (ss_pHeader s)" and "k \<equiv> ss_sock s"
  assumes conn: "so_open k" and stream: "so_in k = frame @ rest" "\<forall>c \<in> set (so_chunks k). 0 < c"
    and look: "first_look (unat hs) k = hdr" "length hdr = unat hs" "unat hs < 2 ^ 31" "unat hs \<le> length frame"
    and read: "v_Deserialize V (ss_pHeader s) (hdr @ drop (unat hs) buffer) hs = Inr (j, h)"
      "v_Validate V h" "unat (v_GetTotalSize V h) = length frame"
    and fit: "length frame \<le> length buffer" "length frame < 2 ^ 31"
  shows "\<exists>s'. SyncSessionImpl_Recv V buffer buffer_size s = Inr (True, frame @ drop (length frame) buffer, s')
    \<and> so_in (ss_sock s') = rest \<and> ss_pHeader s' = h"
proof -
  let ?b = "hdr @ drop (unat hs) buffer"
  let ?k = "k\<lparr>so_chunks := tl (so_chunks k)\<rparr>"
  have wr: "mem_write buffer 0 hdr = Inr ?b"
    using look(2,4) fit(1) by (simp add: mem_write_ok)
  have hp: "HeaderPaser V buffer buffer_size s = Inr (v_GetTotalSize V h, ?b, s\<lparr>ss_sock := ?k, ss_pHeader := h\<rparr>)"
    using look read wr sys_recv_peek[OF look(3), of k] look_result_full[of "unat hs" k]
    by (simp add: HeaderPaser_def hs_def k_def Let_def)
  have chunks: "\<forall>c \<in> set (so_chunks ?k). 0 < c"
    using stream(2) by (cases "so_chunks k") simp_all
  have "length ?b = length buffer"
    using look(2,4) fit(1) by simp
  then obtain k' where loop: "body_loop (v_GetTotalSize V h) 0 ?b ?k
      = Inr (True, length frame, frame @ drop (length frame) ?b, k')" "so_in k' = rest"
    using body_loop_complete[of "v_GetTotalSize V h" 0 ?b ?k frame rest, OF _ _ _ _ _ chunks]
      stream(1) fit unfolding read(3) by auto
  have "drop (length frame) ?b = drop (length frame) buffer"
    using look(2,4) by simp
  then show ?thesis
    using conn hp loop
    by (simp add: SyncSessionImpl_Recv_def IsConnection_def Paser_def BodyPaser_def k_def Let_def)
qed

section \<open>Sending\<close>

text \<open>One call of \<open>send\<close> that takes \<open>m\<close> bytes.\<close>

lemma send_tries_step:
  assumes "so_sends k = c # cs" and "0 \<le> c" and "t \<le> n" and "n \<le> length buffer" and "n < 2 ^ 31"
    and m: "m = min (nat c) (n - t)"
  defines "k' \<equiv> k\<lparr>so_sends := cs, so_out := so_out k @ take m (drop t buffer)\<rparr>"
  shows "send_tries (Suc i) buffer (of_nat n) (of_nat t) k
      = (if t + m < n then send_tries i buffer (of_nat n) (of_nat (t + m)) k' else Inr (None, of_nat (t + m), k'))"
proof -
  have small: "unat (of_nat n :: size_t) = n" "unat (of_nat t :: size_t) = t"
    "unat (of_nat n - of_nat t :: size_t) = n - t"
    using assms(3,5) by (simp_all add: unat_of_nat_size unat_sub word_le_nat_alt)
  have cast: "sint (ucast (of_nat n - of_nat t :: size_t) :: i32) = int (n - t)"
    using sint_small[of "of_nat n - of_nat t"] small(3) assms(5) by simp
  have min_c: "min c (int (n - t)) = int m"
    using assms(2) unfolding m by linarith
  have sent: "sys_send (int (n - t)) (take (n - t) (drop t buffer)) k = (int m, k')"
    using assms(1) unfolding k'_def by (simp add: sys_send_def min_c Let_def) (simp add: m)
  have tot: "of_nat t + word_of_int (int m) = (of_nat (t + m) :: size_t)"
    by simp
  have less: "(of_nat (t + m) :: size_t) < of_nat n \<longleftrightarrow> t + m < n"
    using assms(3,5) m by (simp add: word_less_nat_alt unat_of_nat_size del: of_nat_add)
  have rd: "mem_read buffer t (n - t) = Inr (take (n - t) (drop t buffer))"
    using assms(3,4) by (simp add: mem_read_ok)
  show ?thesis
    unfolding send_tries.simps cast Let_def small nat_int rd bind_result_simps sent prod.case tot less by simp
qed

text \<open>A call of \<open>send\<close> that fails ends the loop.\<close>

lemma send_tries_fails:
  assumes "so_sends k = c # cs" and "c < 0" and "t \<le> n" and "n \<le> length buffer" and "n < 2 ^ 31"
  obtains t' where "send_tries (Suc i) buffer (of_nat n) (of_nat t) k = Inr (Some False, t', k\<lparr>so_sends := cs\<rparr>)"
proof -
  have small: "unat (of_nat n :: size_t) = n" "unat (of_nat t :: size_t) = t"
    "unat (of_nat n - of_nat t :: size_t) = n - t"
    using assms(3,5) by (simp_all add: unat_of_nat_size unat_sub word_le_nat_alt)
  have cast: "sint (ucast (of_nat n - of_nat t :: size_t) :: i32) = int (n - t)"
    using sint_small[of "of_nat n - of_nat t"] small(3) assms(5) by simp
  have rd: "mem_read buffer t (n - t) = Inr (take (n - t) (drop t buffer))"
    using assms(3,4) by (simp add: mem_read_ok)
  have "min c (int (n - t)) = c"
    using assms(2) by linarith
  then have sent: "sys_send (int (n - t)) (take (n - t) (drop t buffer)) k = (c, k\<lparr>so_sends := cs\<rparr>)"
    using assms(1,2) by (simp add: sys_send_def Let_def)
  show thesis
    by (rule that) (simp only: send_tries.simps cast Let_def small nat_int rd bind_result_simps sent prod.case assms(2) if_True)
qed

text \<open>
  What \<open>i\<close> calls take when they accept at most the given numbers of bytes: all of it up to the first call
  that fails.
\<close>

definition taken :: "nat \<Rightarrow> int list \<Rightarrow> nat" where
  "taken i cs = sum_list (map nat (takeWhile (\<lambda>c. 0 \<le> c) (take i cs)))"

lemma taken_simps [simp]:
  "taken 0 cs = 0" "taken (Suc i) (c # cs) = (if 0 \<le> c then nat c + taken i cs else 0)"
  by (simp_all add: taken_def)

text \<open>
  The bytes that have left are a prefix of the buffer of that length, or all of it, and the loop is a success
  exactly when it is all of it.
\<close>

lemma send_tries_exact:
  assumes "i \<le> length (so_sends k)" and "t < n" and "n \<le> length buffer" and "n < 2 ^ 31"
  shows "\<exists>r t' k'. send_tries i buffer (of_nat n) (of_nat t) k = Inr (r, t', k')
    \<and> (case r of Some b \<Rightarrow> b | None \<Rightarrow> \<not> t' < of_nat n) = (n \<le> t + taken i (so_sends k))
    \<and> so_out k' = so_out k @ take (min n (t + taken i (so_sends k)) - t) (drop t buffer)"
  using assms(1,2)
proof (induction i arbitrary: t k)
  case 0
  have "unat (of_nat t :: size_t) = t" "unat (of_nat n :: size_t) = n"
    using 0(2) assms(4) by (intro unat_of_nat_size; simp)+
  then show ?case
    using 0(2) by (simp add: word_less_nat_alt)
next
  case (Suc i)
  obtain c cs where sends: "so_sends k = c # cs"
    using Suc.prems(1) by (cases "so_sends k") auto
  show ?case
  proof (cases "0 \<le> c")
    case False
    then obtain t' where "send_tries (Suc i) buffer (of_nat n) (of_nat t) k = Inr (Some False, t', k\<lparr>so_sends := cs\<rparr>)"
      using send_tries_fails[OF sends, of t n buffer i] Suc.prems(2) assms(3,4) by auto
    then show ?thesis
      using False Suc.prems(2) sends by (simp del: send_tries.simps)
  next
    case True
    define m where "m = min (nat c) (n - t)"
    let ?k = "k\<lparr>so_sends := cs, so_out := so_out k @ take m (drop t buffer)\<rparr>" and ?x = "taken i cs"
    note step = send_tries_step[OF sends True less_imp_le[OF Suc.prems(2)] assms(3,4) m_def]
    show ?thesis
    proof (cases "t + m < n")
      case False
      then have m: "t + m = n" "n - t \<le> nat c" using Suc.prems(2) by (simp_all add: m_def)
      then have "min n (t + (nat c + ?x)) - t = m" "n \<le> t + (nat c + ?x)" by linarith+
      then show ?thesis
        using step m True sends by (simp del: send_tries.simps)
    next
      case less: True
      then have m: "m = nat c" by (simp add: m_def)
      obtain r t' k' where k': "send_tries i buffer (of_nat n) (of_nat (t + m)) ?k = Inr (r, t', k')"
        "(case r of Some b \<Rightarrow> b | None \<Rightarrow> \<not> t' < of_nat n) = (n \<le> (t + m) + ?x)"
        "so_out k' = so_out ?k @ take (min n ((t + m) + ?x) - (t + m)) (drop (t + m) buffer)"
        using Suc.IH[of ?k "t + m"] Suc.prems(1) sends less by auto
      have "take m (drop t buffer) @ take (min n (t + (m + ?x)) - (t + m)) (drop (t + m) buffer)
          = take (min n (t + (m + ?x)) - t) (drop t buffer)"
        using take_add[of m "min n (t + (m + ?x)) - (t + m)" "drop t buffer"] less by (simp add: add.commute)
      then show ?thesis
        using step k' less True sends m by (simp add: add.assoc del: send_tries.simps)
    qed
  qed
qed

section \<open>What receiving and sending leave alone\<close>

lemma send_tries_keeps:
  "send_tries i buffer n t k = Inr (r, t', k') \<Longrightarrow> so_in k' = so_in k \<and> so_open k' = so_open k"
proof (induction i arbitrary: t k)
  case (Suc i)
  show ?case
    using Suc.prems
    by (auto simp: sys_send_def Let_def bind_result_eq_Inr_iff split: if_splits list.splits dest!: Suc.IH)
qed simp

lemma sys_recv_keeps: "sys_recv n peek k = (r, data, k') \<Longrightarrow> so_out k' = so_out k \<and> so_open k' = so_open k"
  by (auto simp: sys_recv_def Let_def split: if_splits)

lemma body_loop_keeps:
  "body_loop tot bt buffer k = Inr (r, bt', buffer', k') \<Longrightarrow> so_out k' = so_out k \<and> so_open k' = so_open k"
proof (induction tot bt buffer k rule: body_loop.induct)
  case (1 tot bt buffer k)
  obtain n data k1 where recv: "sys_recv (sint (ucast tot :: i32) - int bt) False k = (n, data, k1)"
    by (metis prod_cases3)
  show ?case
    using 1(2) 1(1)[OF _ recv[symmetric] refl] sys_recv_keeps[OF recv]
    by (subst (asm) body_loop.simps) (auto simp: recv bind_result_eq_Inr_iff split: if_splits)
qed

lemma HeaderPaser_keeps:
  assumes "HeaderPaser V buffer n s = Inr (tot, buffer', s')"
  shows "so_out (ss_sock s') = so_out (ss_sock s) \<and> so_open (ss_sock s') = so_open (ss_sock s)"
proof -
  obtain a data k where recv: "sys_recv (sint (ucast (v_GetHeaderSize V (ss_pHeader s)) :: i32)) True (ss_sock s) = (a, data, k)"
    by (metis prod_cases3)
  have "ss_sock s' = k"
    using assms unfolding HeaderPaser_def Let_def recv prod.case
    by (auto simp: bind_result_eq_Inr_iff split: if_splits prod.splits)
  then show ?thesis
    using sys_recv_keeps[OF recv] by simp
qed

lemma BodyPaser_keeps:
  assumes "BodyPaser V buffer tot s = Inr (r, buffer', s')"
  shows "so_out (ss_sock s') = so_out (ss_sock s) \<and> so_open (ss_sock s') = so_open (ss_sock s)"
proof -
  obtain ok bt b k where loop: "body_loop tot 0 buffer (ss_sock s) = Inr (ok, bt, b, k)" and s': "ss_sock s' = k"
    using assms unfolding BodyPaser_def Let_def bind_result_eq_Inr_iff by (auto split: if_splits)
  then show ?thesis
    using body_loop_keeps by blast
qed

lemma session_Recv_keeps:
  assumes "SyncSessionImpl_Recv V buffer n s = Inr (r, buffer', s')"
  shows "so_out (ss_sock s') = so_out (ss_sock s) \<and> so_open (ss_sock s') = so_open (ss_sock s)"
proof (cases "IsConnection s")
  case False
  then show ?thesis using assms by (simp add: SyncSessionImpl_Recv_def)
next
  case True
  then obtain p where "Paser V buffer n s = Inr (p, buffer', s')"
    using assms unfolding SyncSessionImpl_Recv_def by (auto simp: bind_result_eq_Inr_iff split: prod.splits)
  then obtain tot b1 s1 where "HeaderPaser V buffer n s = Inr (tot, b1, s1)" "BodyPaser V b1 tot s1 = Inr (p, buffer', s')"
    unfolding Paser_def bind_result_eq_Inr_iff by (auto split: if_splits)
  from HeaderPaser_keeps[OF this(1)] BodyPaser_keeps[OF this(2)] show ?thesis by simp
qed

lemma session_Send_keeps:
  assumes "SyncSessionImpl_Send buffer n s = Inr (r, s')"
  shows "so_in (ss_sock s') = so_in (ss_sock s) \<and> so_open (ss_sock s') = so_open (ss_sock s) \<and> ss_pHeader s' = ss_pHeader s"
proof (cases "IsConnection s \<and> n \<noteq> 0")
  case False
  then have "s' = s" using assms by (cases "IsConnection s") (simp_all add: SyncSessionImpl_Send_def)
  then show ?thesis by simp
next
  case True
  then obtain r' t k where tries: "send_tries try_count buffer n 0 (ss_sock s) = Inr (r', t, k)" and "s' = s\<lparr>ss_sock := k\<rparr>"
    using assms unfolding SyncSessionImpl_Send_def Let_def
    by (auto simp: bind_result_eq_Inr_iff split: option.splits prod.splits)
  then show ?thesis
    using send_tries_keeps[OF tries] by simp
qed

end
