(* ===== verification/Sync_Client.thy ===== *)
theory Sync_Client
  imports Sync_Session Header_Client Packet_Flow
begin

text \<open>
  The synchronous session with the header class of the sample client: what it sends, and what it
  makes of the frames a server with the matching header class sends.
\<close>

lemma client_sizes:
  "good_header h \<Longrightarrow> v_GetHeaderSize (client_vtbl en) h = 33"
  "good_header h \<Longrightarrow> v_GetTotalSize (client_vtbl en) h = 33 + GetBodySize h + 16"
  by (simp_all add: server_vtbl_def header_getters good_header_def sizeof_SD_HEADER_def sizeof_SD_ENDER_def)

text \<open>A connected session with a fresh header and a given socket.\<close>

definition connected :: "sock \<Rightarrow> HeaderCCT SyncSession" where
  "connected k = (SyncSession_new timerclear timerclear (HeaderCCT_new zero_ender))\<lparr>ss_sock := k\<lparr>so_open := True\<rparr>\<rparr>"

lemma connected_simps:
  "ss_sock (connected k) = k\<lparr>so_open := True\<rparr>" "good_header (ss_pHeader (connected k))"
  by (simp_all add: connected_def SyncSession_new_def SyncSessionImpl_new_def ClearRecvTimeout_def
      ClearSendTimeout_def good_header_new)

text \<open>What the client's header makes of the header of a frame.\<close>

lemma client_reads_frame:
  assumes "good_header p" and "wf_ender (hc_ender p)" and "wire_frame en p packet_count m = (hdr, body, x)"
    and "good_header r" and "length (msg_body m) + 49 < 2 ^ 31"
  obtains r' where "v_Deserialize (client_vtbl en) r (hdr @ rest) 33 = Inr (33, r')"
    and "v_Validate (client_vtbl en) r'" and "unat (v_GetTotalSize (client_vtbl en) r') = length (msg_body m) + 49"
    and "GetProtocolNo r' = msg_no m" and "GetBodySize r' = of_nat (length (msg_body m))" and "good_header r'"
    and "length hdr = 33" and "length (hdr @ body) = length (msg_body m) + 49"
proof -
  let ?n = "length (msg_body m)"
  let ?h = "snd (MakeHeader en (msg_rand m) p (msg_no m) (of_nat ?n))"
  have hdr: "hdr = header_bytes (hc_header ?h)"
    and body: "body = msg_body m @ ender_bytes (GetEnder (snd (MakeEnder ?h packet_count)))"
    using assms(3) by (auto simp: wire_frame_def Let_def)
  have len: "length hdr = 33" "length (hdr @ body) = ?n + 49"
    using good_header_MakeHeader[OF assms(1)] wire_frame_bytes[OF assms(1,2)]
    by (simp_all add: hdr body good_header_def length_header_bytes)
  obtain r' where r': "Deserialize en r hdr sizeof_SD_HEADER = Inr (sizeof_SD_HEADER, r')"
    "good_header r'" "GetProtocolNo r' = msg_no m" "GetBodySize r' = ucast (of_nat ?n :: u32)"
    using made_header_read_back[OF assms(1,4)] unfolding hdr by blast
  have "?n < 2 ^ 32" using assms(5) by simp
  then have n: "unat (GetBodySize r') = ?n"
    by (simp add: r'(4) unat_size_of_u32 unat_of_nat_u32)
  show thesis
  proof (rule that)
    show "v_Deserialize (client_vtbl en) r (hdr @ rest) 33 = Inr (33, r')"
      using r'(1) len(1) assms(4) by (simp add: server_vtbl_def Deserialize_ok sizeof_SD_HEADER_def)
    show "v_Validate (client_vtbl en) r'"
      by (simp add: server_vtbl_def Validate_def)
    show "unat (v_GetTotalSize (client_vtbl en) r') = ?n + 49"
      using client_header.total_size_nat[OF r'(2), of en] n r'(2)
      by (simp add: server_vtbl_def header_getters good_header_def)
    show "GetBodySize r' = of_nat ?n"
      using n by (metis unat_of_nat_size word_unat_eq_iff unat_size_less)
  qed (use r' len in simp_all)
qed

lemma first_look_header:
  assumes "so_in (ss_sock s) = hdr @ tail" and "length hdr = 33"
    and "so_chunks (ss_sock s) \<noteq> [] \<longrightarrow> 33 \<le> hd (so_chunks (ss_sock s))"
  shows "first_look 33 (ss_sock s) = hdr"
  using assms by (auto simp: first_look_def min_def split: list.splits)

text \<open>A frame and a session that is about to receive it in three pieces.\<close>

definition sample_frame :: "bytes \<times> bytes" where
  "sample_frame =
     (case wire_frame True (HeaderCCT_new zero_ender) 1
        \<lparr>msg_no = 1010, msg_body = [1, 2, 3], msg_rand = 5, msg_buf = 2, msg_junk = []\<rparr> of
        (hdr, body, _) \<Rightarrow> (hdr, body))"

definition receiving :: "bytes \<Rightarrow> HeaderCCT SyncSession" where
  "receiving rest = connected (closed_sock\<lparr>so_in := fst sample_frame @ snd sample_frame @ rest, so_chunks := [40, 7, 1]\<rparr>)"

lemma receiving_simps:
  "so_in (ss_sock (receiving rest)) = fst sample_frame @ snd sample_frame @ rest"
  "so_chunks (ss_sock (receiving rest)) = [40, 7, 1]" "IsConnection (receiving rest)"
  "good_header (ss_pHeader (receiving rest))"
  by (simp_all add: receiving_def connected_simps IsConnection_def)

lemma sample_frame_wire:
  "\<exists>x. wire_frame True (HeaderCCT_new zero_ender) 1
      \<lparr>msg_no = 1010, msg_body = [1, 2, 3], msg_rand = 5, msg_buf = 2, msg_junk = []\<rparr>
    = (fst sample_frame, snd sample_frame, x)"
  by (simp add: sample_frame_def split: prod.splits)

lemma wf_zero_ender: "wf_ender (hc_ender (HeaderCCT_new zero_ender))"
  by (simp add: HeaderCCT_new_def zero_ender_def wf_ender_def)

text \<open>What five calls of \<open>send\<close> achieve.\<close>

lemma Send_progress:
  assumes "IsConnection s" and "0 < n" and "n \<le> length buffer" and "n < 2 ^ 31"
    and "5 \<le> length (so_sends (ss_sock s))"
  obtains s' where "SyncSession_Send buffer (of_nat n) s = Inr (n \<le> taken 5 (so_sends (ss_sock s)), s')"
    and "so_out (ss_sock s') = so_out (ss_sock s) @ take (min n (taken 5 (so_sends (ss_sock s)))) buffer"
    and "so_in (ss_sock s') = so_in (ss_sock s)" and "IsConnection s'" and "ss_pHeader s' = ss_pHeader s"
proof -
  let ?x = "taken 5 (so_sends (ss_sock s))"
  obtain r t' k' where k': "send_tries try_count buffer (of_nat n) 0 (ss_sock s) = Inr (r, t', k')"
    "(case r of Some b \<Rightarrow> b | None \<Rightarrow> \<not> t' < of_nat n) = (n \<le> ?x)"
    "so_out k' = so_out (ss_sock s) @ take (min n ?x) buffer"
    using send_tries_exact[of 5 "ss_sock s" 0 n buffer] assms by (auto simp: try_count_def)
  have "unat (of_nat n :: size_t) = n"
    using assms(4) by (intro unat_of_nat_size) simp
  then have "(of_nat n :: size_t) \<noteq> 0"
    using assms(2) by auto
  then have sent: "SyncSessionImpl_Send buffer (of_nat n) s = Inr (n \<le> ?x, s\<lparr>ss_sock := k'\<rparr>)"
    using assms(1) k'(1,2) by (cases r) (simp_all add: SyncSessionImpl_Send_def)
  from session_Send_keeps[OF this] show thesis
    using that[of "s\<lparr>ss_sock := k'\<rparr>"] sent k'(3) assms(1) by (simp add: SyncSession_Send_def IsConnection_def)
qed

text \<open>A frame a server made is received as a whole.\<close>

lemma Recv_made_frame:
  assumes "good_header p" and "wf_ender (hc_ender p)" and "wire_frame en p packet_count m = (hdr, body, x)"
    and "good_header (ss_pHeader s)" and "IsConnection s" and "so_in (ss_sock s) = hdr @ body @ rest"
    and "\<forall>c \<in> set (so_chunks (ss_sock s)). 0 < c" and "so_chunks (ss_sock s) \<noteq> [] \<longrightarrow> 33 \<le> hd (so_chunks (ss_sock s))"
    and "length (msg_body m) + 49 \<le> length buffer" and "length (msg_body m) + 49 < 2 ^ 31"
  obtains s' where "SyncSession_Recv (client_vtbl en) buffer buffer_size s
      = Inr (True, hdr @ body @ drop (length (msg_body m) + 49) buffer, s')"
    and "so_in (ss_sock s') = rest" and "GetProtocolNo (ss_pHeader s') = msg_no m"
    and "GetBodySize (ss_pHeader s') = of_nat (length (msg_body m))"
    and "good_header (ss_pHeader s')" and "so_out (ss_sock s') = so_out (ss_sock s)" and "IsConnection s'"
proof -
  let ?n = "length (msg_body m)" and ?r = "ss_pHeader s"
  obtain r' where read: "v_Deserialize (client_vtbl en) ?r (hdr @ drop 33 buffer) 33 = Inr (33, r')"
    "v_Validate (client_vtbl en) r'" "unat (v_GetTotalSize (client_vtbl en) r') = ?n + 49"
    and r': "GetProtocolNo r' = msg_no m" "GetBodySize r' = of_nat ?n" "good_header r'"
    and len: "length hdr = 33" "length (hdr @ body) = ?n + 49"
    using client_reads_frame[OF assms(1-4)] assms(10) by blast
  have "first_look 33 (ss_sock s) = hdr"
    using first_look_header[of s hdr "body @ rest"] len(1) assms(6,8) by simp
  then obtain s' where s': "SyncSessionImpl_Recv (client_vtbl en) buffer buffer_size s
      = Inr (True, (hdr @ body) @ drop (length (hdr @ body)) buffer, s')"
    "so_in (ss_sock s') = rest" "ss_pHeader s' = r'"
    using Recv_frame[of s "hdr @ body" rest "client_vtbl en" hdr buffer 33 r' buffer_size]
      assms(5-7,9,10) len read client_sizes(1)[OF assms(4), of en]
    by (auto simp: IsConnection_def)
  from session_Recv_keeps[OF s'(1)] show thesis
    using that[of s'] s' len(2) r' assms(5) by (simp add: SyncSession_Recv_def IsConnection_def)
qed

section \<open>Properties\<close>

text \<open>
  C23. \<open>Send\<close> makes at most five calls of \<open>send\<close>, one after the other until the buffer is empty or a call
  fails. The bytes that have left are the prefix of the buffer that the calls before the first failing one
  took, and the result is true exactly when these took the whole buffer.
\<close>

theorem sync_Send_exact:
  fixes s :: "'h SyncSession"
  defines "accepted \<equiv> takeWhile (\<lambda>c. 0 \<le> c) (take 5 (so_sends (ss_sock s)))"
  assumes "IsConnection s" and "0 < n" and "n \<le> length buffer" and "n < 2 ^ 31"
    and "5 \<le> length (so_sends (ss_sock s))"
  shows "\<exists>s'. SyncSession_Send buffer (of_nat n) s = Inr (n \<le> sum_list (map nat accepted), s')
    \<and> so_out (ss_sock s') = so_out (ss_sock s) @ take (min n (sum_list (map nat accepted))) buffer"
  by (rule Send_progress[OF assms(2-6)]) (auto simp: accepted_def taken_def)

theorem sync_Send_exact_witness:
  "(\<exists>s'. SyncSession_Send (replicate 12 7) (of_nat 12) (connected (closed_sock\<lparr>so_sends := [2, 2, 2, 2, 2, 2]\<rparr>))
      = Inr (False, s') \<and> so_out (ss_sock s') = replicate 10 7)
   \<and> (\<exists>s'. SyncSession_Send (replicate 12 7) (of_nat 12) (connected (closed_sock\<lparr>so_sends := [4, - 1, 8, 8, 8]\<rparr>))
      = Inr (False, s') \<and> so_out (ss_sock s') = replicate 4 7)"
  using sync_Send_exact[of "connected (closed_sock\<lparr>so_sends := [2, 2, 2, 2, 2, 2]\<rparr>)" 12 "replicate 12 7"]
    sync_Send_exact[of "connected (closed_sock\<lparr>so_sends := [4, - 1, 8, 8, 8]\<rparr>)" 12 "replicate 12 7"]
  by (auto simp: IsConnection_def connected_simps closed_sock_def)

text \<open>
  C8. A frame a server made for a message, whose header arrives with the first piece and which fits into
  the caller's buffer, is received completely, however the stream is cut into pieces after the header: the
  buffer starts with the frame, the rest of the stream stays unread,
  and the session's header knows the protocol number and the length of the body.
\<close>

theorem sync_session_receives_frame:
  assumes "good_header p" and "wf_ender (hc_ender p)" and "wire_frame en p packet_count m = (hdr, body, x)"
    and "good_header (ss_pHeader s)" and "IsConnection s" and "so_in (ss_sock s) = hdr @ body @ rest"
    and "\<forall>c \<in> set (so_chunks (ss_sock s)). 0 < c" and "so_chunks (ss_sock s) \<noteq> [] \<longrightarrow> 33 \<le> hd (so_chunks (ss_sock s))"
    and "length (msg_body m) + 49 \<le> length buffer" and "length (msg_body m) + 49 < 2 ^ 31"
  shows "\<exists>s'. SyncSession_Recv (client_vtbl en) buffer buffer_size s
      = Inr (True, hdr @ body @ drop (length (msg_body m) + 49) buffer, s')
    \<and> so_in (ss_sock s') = rest \<and> GetProtocolNo (ss_pHeader s') = msg_no m
    \<and> GetBodySize (ss_pHeader s') = of_nat (length (msg_body m))"
  by (rule Recv_made_frame[OF assms]) blast

theorem sync_session_receives_frame_witness:
  "\<exists>buffer' s'. SyncSession_Recv (client_vtbl True) (replicate 60 0) 60 (receiving [9, 9]) = Inr (True, buffer', s')
    \<and> so_in (ss_sock s') = [9, 9] \<and> GetProtocolNo (ss_pHeader s') = 1010 \<and> GetBodySize (ss_pHeader s') = 3"
proof -
  obtain x where x: "wire_frame True (HeaderCCT_new zero_ender) 1
      \<lparr>msg_no = 1010, msg_body = [1, 2, 3], msg_rand = 5, msg_buf = 2, msg_junk = []\<rparr>
    = (fst sample_frame, snd sample_frame, x)"
    using sample_frame_wire by blast
  show ?thesis
    using sync_session_receives_frame[OF good_header_new wf_zero_ender x receiving_simps(4,3,1), of "[9, 9]" "replicate 60 0" 60]
    by (auto simp: receiving_simps)
qed

text \<open>
  C33. When the first look at the stream returns less than a header (the peer's first bytes came in a
  short piece, or the connection was closed), \<open>Recv\<close> reports success although it has received
  nothing: no byte of the stream is consumed.
\<close>

theorem short_header_reported_as_success:
  assumes "good_header (ss_pHeader s)" and "IsConnection s"
    and "length (first_look 33 (ss_sock s)) < 33" and "33 \<le> length buffer"
  shows "\<exists>buffer' s'. SyncSession_Recv (client_vtbl en) buffer buffer_size s = Inr (True, buffer', s')
    \<and> so_in (ss_sock s') = so_in (ss_sock s) \<and> ss_pHeader s' = ss_pHeader s"
proof -
  let ?d = "first_look 33 (ss_sock s)"
  have look: "sys_recv (sint (ucast (33 :: size_t) :: i32)) True (ss_sock s)
      = (look_result 33 (ss_sock s), ?d, (ss_sock s)\<lparr>so_chunks := tl (so_chunks (ss_sock s))\<rparr>)"
    using sys_recv_peek[of 33 "ss_sock s"] by simp
  have "unat (word_of_int (int (length ?d)) :: size_t) = length ?d"
    using assms(3) unat_of_nat_size[of "length ?d"] by simp
  then have "(word_of_int (int (length ?d)) :: size_t) \<noteq> 33"
    using assms(3) by (auto simp: word_unat_eq_iff)
  then have short: "(word_of_int (look_result 33 (ss_sock s)) :: size_t) \<noteq> 33"
    by (simp add: look_result_def)
  have wr: "mem_write buffer 0 ?d = Inr (?d @ drop (length ?d) buffer)"
    using assms(3,4) by (simp add: mem_write_ok)
  have "HeaderPaser (client_vtbl en) buffer buffer_size s = Inr (0, ?d @ drop (length ?d) buffer,
      s\<lparr>ss_sock := (ss_sock s)\<lparr>so_chunks := tl (so_chunks (ss_sock s))\<rparr>\<rparr>)"
    unfolding HeaderPaser_def client_sizes(1)[OF assms(1)] Let_def look prod.case wr bind_result_simps
    using short by simp
  moreover have "body_loop 0 0 b k = Inr (True, 0, b, k)" for b k
    by (simp add: body_loop.simps)
  ultimately show ?thesis
    using assms(2)
    by (simp add: SyncSession_Recv_def SyncSessionImpl_Recv_def IsConnection_def Paser_def BodyPaser_def)
qed

theorem short_header_reported_as_success_witness:
  "\<exists>buffer' s'. SyncSession_Recv (client_vtbl True) (replicate 100 0) 100
       (connected (closed_sock\<lparr>so_in := replicate 60 1, so_chunks := [10]\<rparr>)) = Inr (True, buffer', s')
    \<and> so_in (ss_sock s') = replicate 60 1"
  using short_header_reported_as_success[of "connected (closed_sock\<lparr>so_in := replicate 60 1, so_chunks := [10]\<rparr>)"
      "replicate 100 0" True 100]
  by (auto simp: connected_simps IsConnection_def first_look_def closed_sock_def)

text \<open>
  C34. \<open>Recv\<close> does not look at the size of the buffer it is given: a peer whose header announces a
  frame longer than the buffer, and that sends it, makes the session write past the end of the
  buffer.
\<close>

theorem sync_Recv_overflows_buffer:
  assumes "good_header p" and "wf_ender (hc_ender p)" and "wire_frame en p packet_count m = (hdr, body, x)"
    and "good_header (ss_pHeader s)" and "IsConnection s" and "so_in (ss_sock s) = hdr @ body"
    and "\<forall>c \<in> set (so_chunks (ss_sock s)). 0 < c" and "so_chunks (ss_sock s) \<noteq> [] \<longrightarrow> 33 \<le> hd (so_chunks (ss_sock s))"
    and "33 \<le> length buffer" and "length buffer < length (msg_body m) + 49" and "length (msg_body m) + 49 < 2 ^ 31"
  shows "SyncSession_Recv (client_vtbl en) buffer (of_nat (length buffer)) s = Inl Out_Of_Bounds"
proof -
  let ?n = "length (msg_body m)" and ?r = "ss_pHeader s" and ?k = "(ss_sock s)\<lparr>so_chunks := tl (so_chunks (ss_sock s))\<rparr>"
  obtain r' where r': "v_Deserialize (client_vtbl en) ?r (hdr @ drop 33 buffer) 33 = Inr (33, r')"
    "v_Validate (client_vtbl en) r'" "unat (v_GetTotalSize (client_vtbl en) r') = ?n + 49"
    and len: "length hdr = 33" "length (hdr @ body) = ?n + 49"
    using client_reads_frame[OF assms(1-4)] assms(11) by blast
  have look: "sys_recv (sint (ucast (33 :: size_t) :: i32)) True (ss_sock s) = (33, hdr, ?k)"
    using sys_recv_peek[of 33 "ss_sock s"] first_look_header[of s hdr body] look_result_full[of 33 "ss_sock s"]
      assms(6,8) len(1) by simp
  have wr: "mem_write buffer 0 hdr = Inr (hdr @ drop 33 buffer)"
    using len(1) assms(9) by (simp add: mem_write_ok)
  have "\<forall>c \<in> set (so_chunks ?k). 0 < c"
    using assms(7) by (cases "so_chunks (ss_sock s)") simp_all
  then have "body_loop (v_GetTotalSize (client_vtbl en) r') 0 (hdr @ drop 33 buffer) ?k = Inl Out_Of_Bounds"
    using assms(6,9-11) r'(3) len by (intro body_loop_overflow) simp_all
  moreover have "HeaderPaser (client_vtbl en) buffer (of_nat (length buffer)) s
      = Inr (v_GetTotalSize (client_vtbl en) r', hdr @ drop 33 buffer, s\<lparr>ss_sock := ?k, ss_pHeader := r'\<rparr>)"
    unfolding HeaderPaser_def client_sizes(1)[OF assms(4)] Let_def look prod.case wr bind_result_simps
    using r'(1,2) by simp
  ultimately show ?thesis
    using assms(5)
    by (simp add: SyncSession_Recv_def SyncSessionImpl_Recv_def IsConnection_def Paser_def BodyPaser_def)
qed

theorem sync_Recv_overflows_buffer_witness:
  "SyncSession_Recv (client_vtbl True) (replicate 40 0) 40 (receiving []) = Inl Out_Of_Bounds"
proof -
  obtain x where x: "wire_frame True (HeaderCCT_new zero_ender) 1
      \<lparr>msg_no = 1010, msg_body = [1, 2, 3], msg_rand = 5, msg_buf = 2, msg_junk = []\<rparr>
    = (fst sample_frame, snd sample_frame, x)"
    using sample_frame_wire by blast
  show ?thesis
    using sync_Recv_overflows_buffer[OF good_header_new wf_zero_ender x receiving_simps(4,3), of "[]" "replicate 40 0"]
    by (simp add: receiving_simps)
qed

end
