(* ===== verification/Sync_Session_Pool.thy ===== *)
theory Sync_Session_Pool
  imports Sync_Session Object_Pool
begin

text \<open>
  The pool of client connections (include/net/sync_session_pool.h, src/lib/sync_session_pool.cpp).
  Session objects are numbered in the order they are made. What the outside decides is part of the
  state: whether the name of the server resolves, the socket each attempt to connect leads to
  (\<open>None\<close>: refused), and at each look at the timer whether the maintenance interval has passed.
  Exceptions other than those caught in \<open>initialize\<close> leave the operation that raised them.
\<close>

section \<open>Operations\<close>

record 'h SyncSessionPool =
  sp_container :: "nat Pool"
  sp_sessions :: "nat \<Rightarrow> 'h SyncSession"
  sp_fresh :: nat
  sp_sizePoolCnt :: size_t
  sp_sizeConnectionCnt :: size_t
  sp_tvSendTimeOut :: timeval
  sp_tvRecvTimeOut :: timeval
  sp_header :: 'h
  sp_resolved :: bool
  sp_peers :: "sock option list"
  sp_due :: "bool list"

definition GetConnectionCount :: "'h SyncSessionPool \<Rightarrow> size_t" where
  "GetConnectionCount p = sp_sizeConnectionCnt p"

definition ConnectionCountSub :: "'h SyncSessionPool \<Rightarrow> 'h SyncSessionPool" where
  "ConnectionCountSub p = p\<lparr>sp_sizeConnectionCnt := sp_sizeConnectionCnt p - 1\<rparr>"

definition set_session :: "nat \<Rightarrow> 'h SyncSession \<Rightarrow> 'h SyncSessionPool \<Rightarrow> 'h SyncSessionPool" where
  "set_session i s p = p\<lparr>sp_sessions := (sp_sessions p)(i := s)\<rparr>"

definition Connetion :: "nat \<Rightarrow> 'h SyncSessionPool \<Rightarrow> (bool \<times> 'h SyncSessionPool) result" where
  "Connetion i p =
     (let s = SyncSession_SetRecvTimeout (sp_tvRecvTimeOut p)
                (SyncSession_SetSendTimeout (sp_tvSendTimeOut p) (sp_sessions p i));
          peer = (case sp_peers p of [] \<Rightarrow> None | x # _ \<Rightarrow> x)
      in bind_result (SyncSession_Connect (sp_resolved p) peer s) (\<lambda>(ok, s').
        let p1 = set_session i s' (p\<lparr>sp_peers := tl (sp_peers p)\<rparr>)
        in if ok then
             let (restored, c) = SessionPool_Restore (sp_container p1) (Some i);
                 p2 = p1\<lparr>sp_container := c\<rparr>
             in if restored then Inr (True, p2\<lparr>sp_sizeConnectionCnt := sp_sizeConnectionCnt p2 + 1\<rparr>)
                else Inr (False, p2)
           else Inr (False, p1)))"

definition CreateObject :: "'h SyncSessionPool \<Rightarrow> (bool \<times> 'h SyncSessionPool) result" where
  "CreateObject p =
     (let i = sp_fresh p
      in Connetion i (set_session i (SyncSession_new timerclear timerclear (sp_header p)) (p\<lparr>sp_fresh := Suc i\<rparr>)))"

fun CreateObject_count :: "nat \<Rightarrow> 'h SyncSessionPool \<Rightarrow> (bool \<times> 'h SyncSessionPool) result" where
  "CreateObject_count 0 p = Inr (True, p)"
| "CreateObject_count (Suc n) p =
     bind_result (CreateObject p) (\<lambda>(ok, p'). if \<not> ok then Inr (False, p') else CreateObject_count n p')"

text \<open>
  The one exception in \<open>initialize\<close> is the resolver's, raised by the first attempt to connect; it is
  caught, and the pool stays as it was.
\<close>

definition initialize :: "'h SyncSessionPool \<Rightarrow> 'h SyncSessionPool" where
  "initialize p = (case CreateObject_count (unat (sp_sizePoolCnt p)) p of Inr (_, p') \<Rightarrow> p' | Inl _ \<Rightarrow> p)"

definition SyncSessionPool_new ::
  "size_t \<Rightarrow> timeval \<Rightarrow> timeval \<Rightarrow> 'h \<Rightarrow> bool \<Rightarrow> sock option list \<Rightarrow> bool list \<Rightarrow> 'h SyncSessionPool" where
  "SyncSessionPool_new pool_count sendtimeout recvtimeout hdr resolved peers due =
     initialize
       \<lparr>sp_container = SessionPool_CreateContainer,
        sp_sessions = (\<lambda>_. SyncSession_new timerclear timerclear hdr), sp_fresh = 0,
        sp_sizePoolCnt = pool_count, sp_sizeConnectionCnt = 0,
        sp_tvSendTimeOut = sendtimeout, sp_tvRecvTimeOut = recvtimeout, sp_header = hdr,
        sp_resolved = resolved, sp_peers = peers, sp_due = due\<rparr>"

definition MaintenanceManager :: "'h SyncSessionPool \<Rightarrow> ('h SyncSessionPool) result" where
  "MaintenanceManager p =
     (let due = (case sp_due p of [] \<Rightarrow> False | d # _ \<Rightarrow> d); p1 = p\<lparr>sp_due := tl (sp_due p)\<rparr>
      in if due \<and> sp_sizeConnectionCnt p1 < sp_sizePoolCnt p1
         then bind_result (CreateObject_count (unat (sp_sizePoolCnt p1 - sp_sizeConnectionCnt p1)) p1)
                (\<lambda>(_, p2). Inr p2)
         else Inr p1)"

definition SyncSessionPool_Acquire :: "'h SyncSessionPool \<Rightarrow> (nat option \<times> 'h SyncSessionPool) result" where
  "SyncSessionPool_Acquire p =
     bind_result (MaintenanceManager p) (\<lambda>p1.
       let (opt, c) = Acquire (sp_container p1) in Inr (opt, p1\<lparr>sp_container := c\<rparr>))"

text \<open>The condition of \<open>PacketProcess\<close>: sending and receiving, the second only after the first.\<close>

definition exchange ::
  "'h Header_vtbl \<Rightarrow> bytes \<Rightarrow> size_t \<Rightarrow> bytes \<Rightarrow> size_t \<Rightarrow> 'h SyncSession \<Rightarrow> (bool \<times> bytes \<times> 'h SyncSession) result" where
  "exchange V sendbuffer sendbuffer_size recvbuffer recvbuffer_size s =
     bind_result (SyncSession_Send sendbuffer sendbuffer_size s) (\<lambda>(sent, s1).
       if \<not> sent then Inr (False, recvbuffer, s1)
       else SyncSession_Recv V recvbuffer recvbuffer_size s1)"

text \<open>The loops of \<open>PacketProcess\<close> and \<open>Destroy\<close> need not end: \<open>None\<close>.\<close>

partial_function (option) PacketProcess ::
  "'h Header_vtbl \<Rightarrow> bytes \<Rightarrow> size_t \<Rightarrow> bytes \<Rightarrow> size_t \<Rightarrow> 'h SyncSessionPool
     \<Rightarrow> ((bool \<times> bytes \<times> 'h SyncSessionPool) result) option" where
  "PacketProcess V sendbuffer sendbuffer_size recvbuffer recvbuffer_size p =
     (case SyncSessionPool_Acquire p of
        Inl e \<Rightarrow> Some (Inl e)
      | Inr (opt_session, p1) \<Rightarrow>
          if GetConnectionCount p1 = 0 then Some (Inr (False, recvbuffer, p1))
          else (case opt_session of
            None \<Rightarrow> PacketProcess V sendbuffer sendbuffer_size recvbuffer recvbuffer_size p1
          | Some i \<Rightarrow>
              (case exchange V sendbuffer sendbuffer_size recvbuffer recvbuffer_size (sp_sessions p1 i) of
                 Inl e \<Rightarrow> Some (Inl e)
               | Inr (ok, recvbuffer', s) \<Rightarrow>
                   if \<not> ok then
                     (case SyncSession_Close s of
                        Inl e \<Rightarrow> Some (Inl e)
                      | Inr (_, s') \<Rightarrow>
                          PacketProcess V sendbuffer sendbuffer_size recvbuffer' recvbuffer_size
                            (ConnectionCountSub (set_session i s' p1)))
                   else
                     Some (Inr (True, recvbuffer', (set_session i s p1)
                       \<lparr>sp_container := snd (SessionPool_Restore (sp_container p1) (Some i))\<rparr>)))))"

partial_function (option) Destroy :: "'h SyncSessionPool \<Rightarrow> (('h SyncSessionPool) result) option" where
  "Destroy p =
     (if GetConnectionCount p = 0 then Some (Inr p)
      else (case SyncSessionPool_Acquire p of
        Inl e \<Rightarrow> Some (Inl e)
      | Inr (opt_session, p1) \<Rightarrow>
          (case opt_session of
             None \<Rightarrow> Destroy p1
           | Some i \<Rightarrow>
               (case SyncSession_Close (sp_sessions p1 i) of
                  Inl e \<Rightarrow> Some (Inl e)
                | Inr (_, s) \<Rightarrow> Destroy (set_session i s p1)))))"

section \<open>The number of connections\<close>

lemma Connetion_count:
  assumes "Connetion i p = Inr (b, p')"
  shows "sp_sizeConnectionCnt p' = sp_sizeConnectionCnt p + (if b then 1 else 0)"
    and "sp_sizePoolCnt p' = sp_sizePoolCnt p"
  using assms
  by (auto simp: Connetion_def set_session_def bind_result_eq_Inr_iff Let_def split: if_splits prod.splits)

lemma CreateObject_count_bound:
  assumes "CreateObject_count n p = Inr (b, p')"
  shows "\<exists>k \<le> n. sp_sizeConnectionCnt p' = sp_sizeConnectionCnt p + of_nat k"
  using assms
proof (induction n arbitrary: p)
  case (Suc n)
  obtain ok p1 where p1: "CreateObject p = Inr (ok, p1)"
    and rest: "if \<not> ok then p' = p1 else CreateObject_count n p1 = Inr (b, p')"
    using Suc.prems by (auto simp: bind_result_eq_Inr_iff split: if_splits)
  have c: "sp_sizeConnectionCnt p1 = sp_sizeConnectionCnt p + (if ok then 1 else 0)"
    using Connetion_count(1) p1 by (fastforce simp: CreateObject_def set_session_def Let_def)
  show ?case
  proof (cases ok)
    case True
    then obtain k where "k \<le> n" "sp_sizeConnectionCnt p' = sp_sizeConnectionCnt p1 + of_nat k"
      using Suc.IH rest by auto
    then show ?thesis
      using c True by (intro exI[of _ "Suc k"]) (simp add: add.assoc)
  next
    case False
    then show ?thesis
      using c rest by (intro exI[of _ 0]) simp
  qed
qed simp

text \<open>Maintenance creates connections up to the configured number, so it never makes their count zero.\<close>

lemma MaintenanceManager_nonzero:
  assumes "MaintenanceManager p = Inr p'" and "sp_sizeConnectionCnt p \<noteq> 0"
  shows "sp_sizeConnectionCnt p' \<noteq> 0"
proof (cases "sp_sizeConnectionCnt p < sp_sizePoolCnt p \<and> p' \<noteq> p\<lparr>sp_due := tl (sp_due p)\<rparr>")
  case False
  then show ?thesis
    using assms by (auto simp: MaintenanceManager_def Let_def bind_result_eq_Inr_iff split: if_splits)
next
  case True
  let ?c = "sp_sizeConnectionCnt p" and ?m = "sp_sizePoolCnt p"
  obtain b where "CreateObject_count (unat (?m - ?c)) (p\<lparr>sp_due := tl (sp_due p)\<rparr>) = Inr (b, p')"
    using assms(1) True by (auto simp: MaintenanceManager_def Let_def bind_result_eq_Inr_iff split: if_splits)
  then obtain k where k: "k \<le> unat (?m - ?c)" "sp_sizeConnectionCnt p' = ?c + of_nat k"
    using CreateObject_count_bound by fastforce
  have "unat ?c < unat ?m" using True by (simp add: word_less_nat_alt)
  then have "unat ?c + k < 2 ^ 64"
    using k(1) unat_size_less[of ?m] by (simp add: unat_sub word_le_nat_alt)
  then have "unat (?c + of_nat k) = unat ?c + k"
    using k(1) unat_size_less[of "?m - ?c"] by (subst unat_add_nowrap) (simp_all add: unat_of_nat_size)
  then show ?thesis
    using assms(2) k(2) by (auto simp: unat_eq_zero[symmetric])
qed

lemma Acquire_nonzero:
  assumes "SyncSessionPool_Acquire p = Inr (opt, p')" and "GetConnectionCount p \<noteq> 0"
  shows "GetConnectionCount p' \<noteq> 0"
  using assms MaintenanceManager_nonzero
  by (fastforce simp: SyncSessionPool_Acquire_def GetConnectionCount_def bind_result_eq_Inr_iff split_beta Let_def)

lemma Acquire_not_due:
  assumes "\<forall>d \<in> set (sp_due p). \<not> d"
  shows "SyncSessionPool_Acquire p = Inr (fst (Acquire (sp_container p)),
    p\<lparr>sp_due := tl (sp_due p), sp_container := snd (Acquire (sp_container p))\<rparr>)"
  using assms by (auto simp: SyncSessionPool_Acquire_def MaintenanceManager_def Let_def split_beta split: list.splits)

section \<open>Creation\<close>

lemma CreateObject_ok:
  assumes "sp_resolved p" and "sp_peers p = Some k # ks" and "pool_ready (sp_container p)"
    and "length (m_queue (sp_container p)) < unat (m_sizeFlexibleMaxCnt (sp_container p))"
  obtains p' where "CreateObject p = Inr (True, p')" and "sp_resolved p'" and "sp_peers p' = ks"
    and "sp_container p' = (sp_container p)\<lparr>m_queue := m_queue (sp_container p) @ [sp_fresh p],
      m_sizeUseCnt := m_sizeUseCnt (sp_container p) - 1\<rparr>"
    and "sp_sizeConnectionCnt p' = sp_sizeConnectionCnt p + 1" and "sp_fresh p' = Suc (sp_fresh p)"
proof -
  let ?s = "SyncSession_SetRecvTimeout (sp_tvRecvTimeOut p) (SyncSession_SetSendTimeout (sp_tvSendTimeOut p)
      (SyncSession_new timerclear timerclear (sp_header p)))"
  have "\<not> IsConnection ?s"
    by (simp add: IsConnection_def SyncSession_new_def SyncSessionImpl_new_def ClearRecvTimeout_def
        ClearSendTimeout_def SyncSession_SetRecvTimeout_def SyncSession_SetSendTimeout_def SetRecvTimeout_def
        SetSendTimeout_def closed_sock_def)
  then have conn: "SyncSession_Connect True (Some k) ?s
      = Inr (True, SetTimeWait (?s\<lparr>ss_sock := k\<lparr>so_open := True\<rparr>\<rparr>))"
    by (simp add: SyncSession_Connect_def SyncSessionImpl_Connect_def)
  have restore: "SessionPool_Restore (sp_container p) (Some (sp_fresh p))
      = (True, (sp_container p)\<lparr>m_queue := m_queue (sp_container p) @ [sp_fresh p],
          m_sizeUseCnt := m_sizeUseCnt (sp_container p) - 1\<rparr>)"
    using assms(3,4) by (simp add: SessionPool_Restore_def Restore_room)
  have "\<exists>p'. CreateObject p = Inr (True, p') \<and> sp_resolved p' \<and> sp_peers p' = ks
      \<and> sp_container p' = (sp_container p)\<lparr>m_queue := m_queue (sp_container p) @ [sp_fresh p],
          m_sizeUseCnt := m_sizeUseCnt (sp_container p) - 1\<rparr>
      \<and> sp_sizeConnectionCnt p' = sp_sizeConnectionCnt p + 1 \<and> sp_fresh p' = Suc (sp_fresh p)"
    using assms conn restore by (simp add: CreateObject_def Connetion_def set_session_def Let_def)
  then show thesis using that by blast
qed

lemma CreateObject_count_ok:
  assumes "sp_resolved p" and "n \<le> length (sp_peers p)" and "\<forall>x \<in> set (sp_peers p). x \<noteq> None"
    and "pool_ready (sp_container p)"
    and "length (m_queue (sp_container p)) + n \<le> unat (m_sizeFlexibleMaxCnt (sp_container p))"
  shows "\<exists>p'. CreateObject_count n p = Inr (True, p')
    \<and> m_sizeUseCnt (sp_container p') = m_sizeUseCnt (sp_container p) - of_nat n
    \<and> m_queue (sp_container p') = m_queue (sp_container p) @ [sp_fresh p..<sp_fresh p + n]
    \<and> sp_sizeConnectionCnt p' = sp_sizeConnectionCnt p + of_nat n"
  using assms
proof (induction n arbitrary: p)
  case (Suc n)
  obtain k ks where ks: "sp_peers p = Some k # ks"
    using Suc.prems(2,3) by (cases "sp_peers p") auto
  obtain p1 where p1: "CreateObject p = Inr (True, p1)" "sp_resolved p1" "sp_peers p1 = ks"
    "sp_container p1 = (sp_container p)\<lparr>m_queue := m_queue (sp_container p) @ [sp_fresh p],
      m_sizeUseCnt := m_sizeUseCnt (sp_container p) - 1\<rparr>"
    "sp_sizeConnectionCnt p1 = sp_sizeConnectionCnt p + 1" "sp_fresh p1 = Suc (sp_fresh p)"
    using CreateObject_ok[OF Suc.prems(1) ks Suc.prems(4)] Suc.prems(5) by auto
  have "pool_ready (sp_container p1)"
    using Suc.prems(4,5) p1(4) by (simp add: pool_ready_def)
  then obtain p' where "CreateObject_count n p1 = Inr (True, p')"
    "m_sizeUseCnt (sp_container p') = m_sizeUseCnt (sp_container p1) - of_nat n"
    "m_queue (sp_container p') = m_queue (sp_container p1) @ [sp_fresh p1..<sp_fresh p1 + n]"
    "sp_sizeConnectionCnt p' = sp_sizeConnectionCnt p1 + of_nat n"
    using Suc.IH[of p1] Suc.prems ks p1 by auto
  then show ?case
    using p1 by (auto simp: algebra_simps upt_conv_Cons)
qed simp

lemma SyncSessionPool_new_effect:
  fixes hdr :: 'h
  assumes "unat n \<le> 5000" and "unat n \<le> length peers" and "\<forall>x \<in> set peers. x \<noteq> None"
  shows "m_sizeUseCnt (sp_container (SyncSessionPool_new n st rt hdr True peers due)) = - n"
    and "sp_sizeConnectionCnt (SyncSessionPool_new n st rt hdr True peers due) = n"
    and "m_queue (sp_container (SyncSessionPool_new n st rt hdr True peers due)) = [0..<unat n]"
proof -
  let ?p0 = "\<lparr>sp_container = SessionPool_CreateContainer,
        sp_sessions = (\<lambda>_. SyncSession_new timerclear timerclear hdr), sp_fresh = 0,
        sp_sizePoolCnt = n, sp_sizeConnectionCnt = 0, sp_tvSendTimeOut = st, sp_tvRecvTimeOut = rt,
        sp_header = hdr, sp_resolved = True, sp_peers = peers, sp_due = due\<rparr>"
  have "pool_ready (sp_container ?p0)"
    by (simp add: SessionPool_CreateContainer_def pool_ready_new)
  then obtain p' where "CreateObject_count (unat n) ?p0 = Inr (True, p')"
    "m_sizeUseCnt (sp_container p') = - of_nat (unat n)" "m_queue (sp_container p') = [0..<unat n]"
    "sp_sizeConnectionCnt p' = of_nat (unat n)"
    using CreateObject_count_ok[of ?p0 "unat n"] assms
    by (auto simp: SessionPool_CreateContainer_def Pool_new_def)
  then show "m_sizeUseCnt (sp_container (SyncSessionPool_new n st rt hdr True peers due)) = - n"
    "sp_sizeConnectionCnt (SyncSessionPool_new n st rt hdr True peers due) = n"
    "m_queue (sp_container (SyncSessionPool_new n st rt hdr True peers due)) = [0..<unat n]"
    by (simp_all add: SyncSessionPool_new_def initialize_def)
qed

lemma session_Close_ok:
  assumes "\<not> so_close_error (ss_sock s)"
  shows "\<exists>s'. SyncSession_Close s = Inr (True, s') \<and> \<not> IsConnection s'"
  using assms by (auto simp: SyncSession_Close_def SyncSessionImpl_Close_def IsConnection_def)

section \<open>Properties\<close>

text \<open>
  A pool made for at most 5000 connections, all of which are established, holds that many
  sessions and counts that many connections, but its use count has wrapped below zero: sessions are
  put into the pool by \<open>Restore\<close>, which counts them as returned although they were never taken.
\<close>

lemma sync_pool_use_count_wraps:
  fixes hdr :: 'h and st rt :: timeval and due :: "bool list"
  assumes "unat n \<le> 5000" and "unat n \<le> length peers" and "\<forall>x \<in> set peers. x \<noteq> None"
  defines "p \<equiv> SyncSessionPool_new n st rt hdr True peers due"
  shows "SessionPool_GetUseCount (sp_container p) = - n \<and> GetConnectionCount p = n
    \<and> m_queue (sp_container p) = [0..<unat n]"
  using SyncSessionPool_new_effect[OF assms(1-3), of st rt hdr due]
  by (simp add: p_def SessionPool_GetUseCount_def GetUseCount_def GetConnectionCount_def)

text \<open>
  C35. \<open>Destroy\<close> closes sessions but never lowers the number of connections it waits for: called
  with connections in the pool it does not return; the only other way out is an exception.
\<close>

theorem Destroy_never_returns:
  assumes "GetConnectionCount p \<noteq> 0"
  shows "Destroy p \<noteq> Some (Inr q)"
proof
  assume "Destroy p = Some (Inr q)"
  then have "GetConnectionCount p \<noteq> 0 \<longrightarrow> (\<exists>e. (Inr q :: ('a SyncSessionPool) result) = Inl e)"
  proof (rule Destroy.raw_induct[where P = "\<lambda>p r. GetConnectionCount p \<noteq> 0 \<longrightarrow> (\<exists>e. r = Inl e)", rotated])
    fix D and p :: "'a SyncSessionPool" and r
    assume IH: "\<And>p r. D p = Some r \<Longrightarrow> GetConnectionCount p \<noteq> 0 \<longrightarrow> (\<exists>e. r = Inl e)"
      and body: "(if GetConnectionCount p = 0 then Some (Inr p)
        else case SyncSessionPool_Acquire p of Inl e \<Rightarrow> Some (Inl e)
          | Inr (opt_session, p1) \<Rightarrow> (case opt_session of None \<Rightarrow> D p1
            | Some i \<Rightarrow> (case SyncSession_Close (sp_sessions p1 i) of Inl e \<Rightarrow> Some (Inl e)
                | Inr (_, s) \<Rightarrow> D (set_session i s p1)))) = Some r"
    have "GetConnectionCount p1 \<noteq> 0 \<and> GetConnectionCount (set_session i s p1) \<noteq> 0"
      if "SyncSessionPool_Acquire p = Inr (opt, p1)" "GetConnectionCount p \<noteq> 0" for opt p1 i s
      using Acquire_nonzero[OF that] by (simp add: GetConnectionCount_def set_session_def)
    then show "GetConnectionCount p \<noteq> 0 \<longrightarrow> (\<exists>e. r = Inl e)"
      using body IH by (auto split: sum.splits option.splits if_splits)
  qed
  then show False using assms by simp
qed

theorem Destroy_never_returns_witness:
  "\<forall>q. Destroy (SyncSessionPool_new 1 timerclear timerclear () True [Some closed_sock] []) \<noteq> Some (Inr q)"
proof
  fix q
  show "Destroy (SyncSessionPool_new 1 timerclear timerclear () True [Some closed_sock] []) \<noteq> Some (Inr q)"
    using SyncSessionPool_new_effect(2)[of 1 "[Some closed_sock]" timerclear timerclear "()" "[]"]
    by (intro Destroy_never_returns) (simp add: GetConnectionCount_def)
qed

text \<open>
  C21. When the first free session can exchange the packets and no maintenance is due, the request is
  answered by that session, which goes to the end of the free list; the number of connections and
  the number of free sessions stay as they were.
\<close>

theorem PacketProcess_uses_first_session:
  assumes "\<forall>d \<in> set (sp_due p). \<not> d" and "pool_ready (sp_container p)"
    and "m_queue (sp_container p) = i # rest" and "GetConnectionCount p \<noteq> 0"
    and "exchange V sb sn rb rn (sp_sessions p i) = Inr (True, rb', s)"
  shows "\<exists>p'. PacketProcess V sb sn rb rn p = Some (Inr (True, rb', p')) \<and> sp_sessions p' i = s
    \<and> m_queue (sp_container p') = rest @ [i] \<and> GetConnectionCount p' = GetConnectionCount p
    \<and> SessionPool_GetUseCount (sp_container p') = SessionPool_GetUseCount (sp_container p)"
proof -
  let ?c = "(sp_container p)\<lparr>m_queue := rest, m_sizeUseCnt := m_sizeUseCnt (sp_container p) + 1\<rparr>"
  have acq: "SyncSessionPool_Acquire p = Inr (Some i, p\<lparr>sp_due := tl (sp_due p), sp_container := ?c\<rparr>)"
    using Acquire_not_due[OF assms(1)] assms(3) by simp
  have "pool_ready ?c" "length (m_queue ?c) < unat (m_sizeFlexibleMaxCnt ?c)"
    using assms(2,3) by (simp_all add: pool_ready_def)
  then have "SessionPool_Restore ?c (Some i) = (True, ?c\<lparr>m_queue := rest @ [i], m_sizeUseCnt := m_sizeUseCnt (sp_container p)\<rparr>)"
    by (simp add: SessionPool_Restore_def Restore_room)
  then show ?thesis
    using acq assms(4,5)
    by (subst PacketProcess.simps)
      (simp add: GetConnectionCount_def set_session_def SessionPool_GetUseCount_def GetUseCount_def)
qed

text \<open>A header class of one byte that announces nothing but itself, for the sample pools.\<close>

definition tiny_vtbl :: "unit Header_vtbl" where
  "tiny_vtbl =
     \<lparr>v_GetHeaderSize = (\<lambda>_. 1), v_GetBodySize = (\<lambda>_. 0), v_GetEnderSize = (\<lambda>_. 0), v_GetTotalSize = (\<lambda>_. 1),
      v_Serialize = (\<lambda>_ b _. Inr (0, b)), v_Deserialize = (\<lambda>h _ _. Inr (1, h)), v_Validate = (\<lambda>_. True),
      v_CheckEndmarker = (\<lambda>_ _ _. True), v_SetHeaderSize = (\<lambda>h _. h), v_SetDataSize = (\<lambda>h _. h),
      v_HostToNetwork = (\<lambda>h. h), v_NetworkToHost = (\<lambda>h. h), v_GetNetworkEndMarker = 0, v_GetProtocolNo = (\<lambda>_. 0)\<rparr>"

definition pool_of :: "sock \<Rightarrow> unit SyncSessionPool" where
  "pool_of k = \<lparr>sp_container = (Pool_new 5000)\<lparr>m_queue := [0, 1]\<rparr>,
     sp_sessions = (\<lambda>_. (SyncSession_new timerclear timerclear ())\<lparr>ss_sock := k\<rparr>), sp_fresh = 2, sp_sizePoolCnt = 2,
     sp_sizeConnectionCnt = 2, sp_tvSendTimeOut = timerclear, sp_tvRecvTimeOut = timerclear, sp_header = (),
     sp_resolved = True, sp_peers = [], sp_due = []\<rparr>"

lemma pool_of_exchange:
  "\<exists>rb s. exchange tiny_vtbl [5] 1 [0] 1 (sp_sessions (pool_of (closed_sock\<lparr>so_open := True, so_in := [8]\<rparr>)) 0)
     = Inr (True, rb, s)"
  by (simp add: exchange_def SyncSession_Send_def SyncSessionImpl_Send_def pool_of_def IsConnection_def
      try_count_def eval_nat_numeral mem_read_def sys_send_def closed_sock_def SyncSession_Recv_def
      SyncSessionImpl_Recv_def Paser_def HeaderPaser_def BodyPaser_def tiny_vtbl_def sys_recv_def mem_write_def
      SyncSession_new_def SyncSessionImpl_new_def ClearRecvTimeout_def ClearSendTimeout_def
      body_loop.simps Let_def)

theorem PacketProcess_uses_first_session_witness:
  "\<exists>rb p'. PacketProcess tiny_vtbl [5] 1 [0] 1 (pool_of (closed_sock\<lparr>so_open := True, so_in := [8]\<rparr>))
      = Some (Inr (True, rb, p')) \<and> m_queue (sp_container p') = [1, 0]"
proof -
  let ?p = "pool_of (closed_sock\<lparr>so_open := True, so_in := [8]\<rparr>)"
  obtain rb s where "exchange tiny_vtbl [5] 1 [0] 1 (sp_sessions ?p 0) = Inr (True, rb, s)"
    using pool_of_exchange by blast
  from PacketProcess_uses_first_session[OF _ _ _ _ this, of "[1]"] show ?thesis
    by (auto simp: pool_of_def pool_ready_def Pool_new_def GetConnectionCount_def)
qed

text \<open>
  C22. When every connection is free, none can send any more, closing them works and no maintenance is due, a
  request is tried on each of them and fails: the loop ends, every session of the pool has been closed and
  taken out of it, the other session objects are as they were, and the connection count is zero.
\<close>

theorem PacketProcess_gives_up_dead_sessions:
  assumes "\<forall>d \<in> set (sp_due p). \<not> d" and "distinct (m_queue (sp_container p))"
    and "GetConnectionCount p = of_nat (length (m_queue (sp_container p)))"
    and "length (m_queue (sp_container p)) < 2 ^ 64"
    and "\<forall>i \<in> set (m_queue (sp_container p)). \<exists>s. SyncSession_Send sb sn (sp_sessions p i) = Inr (False, s)
      \<and> \<not> so_close_error (ss_sock s)"
  shows "\<exists>p'. PacketProcess V sb sn rb rn p = Some (Inr (False, rb, p')) \<and> GetConnectionCount p' = 0
    \<and> m_queue (sp_container p') = []
    \<and> (\<forall>i \<in> set (m_queue (sp_container p)). \<not> IsConnection (sp_sessions p' i))
    \<and> (\<forall>i. i \<notin> set (m_queue (sp_container p)) \<longrightarrow> sp_sessions p' i = sp_sessions p i)"
  using assms
proof (induction "m_queue (sp_container p)" arbitrary: p)
  case Nil
  then show ?case
    using Acquire_not_due[OF Nil.prems(1)]
    by (subst PacketProcess.simps) (simp add: GetConnectionCount_def)
next
  case (Cons i rest)
  note q = Cons.hyps(2)[symmetric]
  let ?c = "(sp_container p)\<lparr>m_queue := rest, m_sizeUseCnt := m_sizeUseCnt (sp_container p) + 1\<rparr>"
  let ?p1 = "p\<lparr>sp_due := tl (sp_due p), sp_container := ?c\<rparr>"
  have acq: "SyncSessionPool_Acquire p = Inr (Some i, ?p1)"
    using Acquire_not_due[OF Cons.prems(1)] q by simp
  obtain s where s: "SyncSession_Send sb sn (sp_sessions p i) = Inr (False, s)" "\<not> so_close_error (ss_sock s)"
    using Cons.prems(5) q by auto
  obtain s' where s': "SyncSession_Close s = Inr (True, s')" "\<not> IsConnection s'"
    using session_Close_ok[OF s(2)] by blast
  let ?p2 = "ConnectionCountSub (set_session i s' ?p1)"
  have "unat (GetConnectionCount p) = Suc (length rest)"
    using Cons.prems(3,4) q by (simp add: unat_of_nat_size del: of_nat_Suc)
  then have cnt: "GetConnectionCount ?p1 \<noteq> 0"
    by (auto simp: GetConnectionCount_def)
  have "PacketProcess V sb sn rb rn p = PacketProcess V sb sn rb rn ?p2"
    using acq s s' cnt by (subst PacketProcess.simps) (simp add: exchange_def)
  moreover have "\<exists>p'. PacketProcess V sb sn rb rn ?p2 = Some (Inr (False, rb, p')) \<and> GetConnectionCount p' = 0
      \<and> m_queue (sp_container p') = []
      \<and> (\<forall>i \<in> set (m_queue (sp_container ?p2)). \<not> IsConnection (sp_sessions p' i))
      \<and> (\<forall>i. i \<notin> set (m_queue (sp_container ?p2)) \<longrightarrow> sp_sessions p' i = sp_sessions ?p2 i)"
  proof (rule Cons.hyps(1))
    show "\<forall>d \<in> set (sp_due ?p2). \<not> d"
      using Cons.prems(1) by (cases "sp_due p") (auto simp: ConnectionCountSub_def set_session_def)
    show "\<forall>j \<in> set (m_queue (sp_container ?p2)). \<exists>s. SyncSession_Send sb sn (sp_sessions ?p2 j) = Inr (False, s)
        \<and> \<not> so_close_error (ss_sock s)"
      using Cons.prems(2,5) q by (auto simp: ConnectionCountSub_def set_session_def)
  qed (use Cons.prems(2-4) q in \<open>simp_all add: ConnectionCountSub_def set_session_def GetConnectionCount_def\<close>)
  ultimately show ?case
    using q s'(2) Cons.prems(2) by (auto simp: ConnectionCountSub_def set_session_def)
qed

text \<open>Two open connections on which \<open>send\<close> fails.\<close>

lemma pool_of_dead:
  "\<exists>s. SyncSession_Send [5] 1 (sp_sessions (pool_of (closed_sock\<lparr>so_open := True, so_sends := [- 1]\<rparr>)) i) = Inr (False, s)
     \<and> \<not> so_close_error (ss_sock s)"
  by (simp add: SyncSession_Send_def SyncSessionImpl_Send_def pool_of_def IsConnection_def
      try_count_def eval_nat_numeral mem_read_def sys_send_def closed_sock_def
      SyncSession_new_def SyncSessionImpl_new_def ClearRecvTimeout_def ClearSendTimeout_def Let_def)

theorem PacketProcess_gives_up_dead_sessions_witness:
  "\<exists>p'. PacketProcess tiny_vtbl [5] 1 [0] 1 (pool_of (closed_sock\<lparr>so_open := True, so_sends := [- 1]\<rparr>)) = Some (Inr (False, [0], p'))
    \<and> GetConnectionCount p' = 0 \<and> \<not> IsConnection (sp_sessions p' 0) \<and> \<not> IsConnection (sp_sessions p' 1)"
proof -
  let ?p = "pool_of (closed_sock\<lparr>so_open := True, so_sends := [- 1]\<rparr>)"
  have queue: "m_queue (sp_container ?p) = [0, 1]" and "sp_due ?p = []" and "GetConnectionCount ?p = of_nat (length [0 :: nat, 1])"
    by (simp_all add: pool_of_def Pool_new_def GetConnectionCount_def)
  then have "\<exists>p'. PacketProcess tiny_vtbl [5] 1 [0] 1 ?p = Some (Inr (False, [0], p')) \<and> GetConnectionCount p' = 0
    \<and> m_queue (sp_container p') = []
    \<and> (\<forall>i \<in> set (m_queue (sp_container ?p)). \<not> IsConnection (sp_sessions p' i))
    \<and> (\<forall>i. i \<notin> set (m_queue (sp_container ?p)) \<longrightarrow> sp_sessions p' i = sp_sessions ?p i)"
    using pool_of_dead by (intro PacketProcess_gives_up_dead_sessions) auto
  then show ?thesis
    unfolding queue by auto
qed

end
