(* ===== verification/Decimal.thy ===== *)
theory Decimal
  imports Prelude
begin

text \<open>
  Numbers and literals as text, the way the formatting functions of the C library and the encoders of
  the peers write them.
\<close>

fun decimal :: "nat \<Rightarrow> bytes" where
  "decimal n = (if n < 10 then [48 + of_nat n] else decimal (n div 10) @ [48 + of_nat (n mod 10)])"

declare decimal.simps [simp del]

definition int_text :: "int \<Rightarrow> bytes" where
  "int_text i = (if i < 0 then 45 # decimal (nat (- i)) else decimal (nat i))"

text \<open>At least \<open>k\<close> digits, filled up with zeros: the conversions \<open>%02d\<close>, \<open>%03d\<close> and \<open>%04d\<close>.\<close>

definition padded :: "nat \<Rightarrow> nat \<Rightarrow> bytes" where
  "padded k n = replicate (k - length (decimal n)) 48 @ decimal n"

text \<open>The bytes of a string literal, and the string a pointer to characters stands for.\<close>

definition literal :: "string \<Rightarrow> bytes" where
  "literal = map of_char"

definition c_str :: "bytes \<Rightarrow> bytes" where
  "c_str s = takeWhile (\<lambda>c. c \<noteq> 0) s"

lemma digit_word: "d < 10 \<Longrightarrow> uint (48 + of_nat d :: u8) = 48 + int d"
  by (simp add: uint_word_ariths(1) unsigned_of_nat take_bit_eq_mod)

lemma length_decimal_bound: "n < 10 ^ k \<Longrightarrow> 0 < k \<Longrightarrow> length (decimal n) \<le> k"
proof (induction n arbitrary: k rule: decimal.induct)
  case (1 n)
  show ?case
  proof (cases "n < 10")
    case True
    then show ?thesis using 1(3) by (subst decimal.simps) simp
  next
    case False
    obtain j where j: "k = Suc j" using 1(3) by (cases k) simp_all
    have "j \<noteq> 0" using False 1(2) j by (cases j) simp_all
    then have k: "k = Suc j" "0 < j" using j by simp_all
    have "n div 10 < 10 ^ j"
      using 1(2) k by (simp add: less_mult_imp_div_less mult.commute)
    then have "length (decimal (n div 10)) \<le> j"
      using 1(1)[OF False] k(2) by simp
    then show ?thesis
      using False k by (subst decimal.simps) simp
  qed
qed

lemma length_padded: "n < 10 ^ k \<Longrightarrow> 0 < k \<Longrightarrow> length (padded k n) = k"
  using length_decimal_bound[of n k] by (simp add: padded_def)

text \<open>Integers of 16, 32 and 64 bits have at most 20 characters.\<close>

lemma length_int_text:
  assumes "\<bar>i\<bar> < 10 ^ 19"
  shows "length (int_text i) \<le> 20"
proof -
  have "nat \<bar>i\<bar> < nat (10 ^ 19)"
    using assms by (subst nat_less_eq_zless) simp_all
  then have "nat \<bar>i\<bar> < 10 ^ 19"
    by simp
  from length_decimal_bound[OF this] show ?thesis
    by (auto simp: int_text_def)
qed

lemma length_int_text_word:
  "length (int_text (sint (a :: i16))) \<le> 20" "length (int_text (sint (b :: i32))) \<le> 20"
  "length (int_text (sint (c :: u64))) \<le> 20" "length (int_text (uint (d :: u16))) \<le> 20"
proof -
  have "- (2 ^ 15) \<le> sint a" "sint a < 2 ^ 15" "- (2 ^ 31) \<le> sint b" "sint b < 2 ^ 31"
    "- (2 ^ 63) \<le> sint c" "sint c < 2 ^ 63" "0 \<le> uint d" "uint d < 2 ^ 16"
    using sint_ge[of a] sint_lt[of a] sint_ge[of b] sint_lt[of b] sint_ge[of c] sint_lt[of c] unsigned_less[of d, where ?'a = int]
    by simp_all
  then show "length (int_text (sint a)) \<le> 20" "length (int_text (sint b)) \<le> 20"
    "length (int_text (sint c)) \<le> 20" "length (int_text (uint d)) \<le> 20"
    by (intro length_int_text; simp add: abs_less_iff)+
qed

lemma length_literal [simp]: "length (literal s) = length s"
  by (simp add: literal_def)

lemma c_str_id: "0 \<notin> set s \<Longrightarrow> c_str s = s"
  by (auto simp: c_str_def takeWhile_eq_all_conv)

end
