(* ===== verification/Logger.thy ===== *)
theory Logger
  imports Decimal
begin

text \<open>
  The class \<open>Logger\<close> (include/util/logger.h, src/lib/logger.cpp). Every function formats its arguments
  into a buffer of \<open>kMaxBufferLength\<close> characters with \<open>vsprintf_s\<close> or \<open>vswprintf_s\<close>, which end the
  program when text and terminator do not fit, and hands the buffer to the logger of the library
  log4cxx. The formatted text is the argument of the model; what reaches log4cxx is collected.
\<close>

section \<open>The logger\<close>

datatype level = TRACE | INFO | WARN | ERROR | FATAL

text \<open>Text in characters of one byte, and wide text.\<close>

datatype log_text = Narrow bytes | Wide "u16 list"

text \<open>\<open>lg_pLogger\<close> tells whether the pointer to the logger of log4cxx has been set.\<close>

record Logger =
  lg_pLogger :: bool
  lg_out :: "(level \<times> log_text) list"

definition Logger_new :: Logger where
  "Logger_new = \<lparr>lg_pLogger = False, lg_out = []\<rparr>"

definition kMaxBufferLength :: nat where
  "kMaxBufferLength = 1024"

text \<open>\<open>configured\<close>: the configuration file was read; otherwise the exception is printed and caught.\<close>

definition Logger_Create :: "bool \<Rightarrow> Logger \<Rightarrow> Logger" where
  "Logger_Create configured l = (if configured then l\<lparr>lg_pLogger := True\<rparr> else l)"

definition vsprintf_s :: "'c list \<Rightarrow> ('c list) result" where
  "vsprintf_s text = (if length text < kMaxBufferLength then Inr text else Inl Out_Of_Bounds)"

text \<open>The macros of log4cxx.\<close>

definition LOG4CXX :: "level \<Rightarrow> log_text \<Rightarrow> Logger \<Rightarrow> Logger result" where
  "LOG4CXX lv text l = (if lg_pLogger l then Inr (l\<lparr>lg_out := lg_out l @ [(lv, text)]\<rparr>) else Inl Null_Pointer)"

definition Logger_Trace :: "bytes \<Rightarrow> Logger \<Rightarrow> Logger result" where
  "Logger_Trace text l = bind_result (vsprintf_s text) (\<lambda>log. LOG4CXX TRACE (Narrow log) l)"

definition Logger_Debug :: "bytes \<Rightarrow> Logger \<Rightarrow> Logger result" where
  "Logger_Debug text l = bind_result (vsprintf_s text) (\<lambda>log. LOG4CXX TRACE (Narrow log) l)"

definition Logger_Info :: "bytes \<Rightarrow> Logger \<Rightarrow> Logger result" where
  "Logger_Info text l = bind_result (vsprintf_s text) (\<lambda>log. LOG4CXX INFO (Narrow log) l)"

definition Logger_Warn :: "bytes \<Rightarrow> Logger \<Rightarrow> Logger result" where
  "Logger_Warn text l = bind_result (vsprintf_s text) (\<lambda>log. LOG4CXX WARN (Narrow log) l)"

definition Logger_Error :: "bytes \<Rightarrow> Logger \<Rightarrow> Logger result" where
  "Logger_Error text l = bind_result (vsprintf_s text) (\<lambda>log. LOG4CXX ERROR (Narrow log) l)"

definition Logger_Fatal :: "bytes \<Rightarrow> Logger \<Rightarrow> Logger result" where
  "Logger_Fatal text l = bind_result (vsprintf_s text) (\<lambda>log. LOG4CXX FATAL (Narrow log) l)"

definition Logger_Trace_w :: "u16 list \<Rightarrow> Logger \<Rightarrow> Logger result" where
  "Logger_Trace_w text l = bind_result (vsprintf_s text) (\<lambda>log. LOG4CXX TRACE (Wide log) l)"

definition Logger_Debug_w :: "u16 list \<Rightarrow> Logger \<Rightarrow> Logger result" where
  "Logger_Debug_w text l = bind_result (vsprintf_s text) (\<lambda>log. LOG4CXX TRACE (Wide log) l)"

definition Logger_Info_w :: "u16 list \<Rightarrow> Logger \<Rightarrow> Logger result" where
  "Logger_Info_w text l = bind_result (vsprintf_s text) (\<lambda>log. LOG4CXX INFO (Wide log) l)"

definition Logger_Warn_w :: "u16 list \<Rightarrow> Logger \<Rightarrow> Logger result" where
  "Logger_Warn_w text l = bind_result (vsprintf_s text) (\<lambda>log. LOG4CXX WARN (Wide log) l)"

definition Logger_Error_w :: "u16 list \<Rightarrow> Logger \<Rightarrow> Logger result" where
  "Logger_Error_w text l = bind_result (vsprintf_s text) (\<lambda>log. LOG4CXX ERROR (Wide log) l)"

definition Logger_Fatal_w :: "u16 list \<Rightarrow> Logger \<Rightarrow> Logger result" where
  "Logger_Fatal_w text l = bind_result (vsprintf_s text) (\<lambda>log. LOG4CXX FATAL (Wide log) l)"

section \<open>The contract of a logging function\<close>

text \<open>
  A logging function of a level: with a logger, text that fits is appended with that level and
  nothing else changes; text that does not fit ends the program; without a logger nothing is logged
  without a fault.
\<close>

locale log_function =
  fixes log :: "'c list \<Rightarrow> Logger \<Rightarrow> Logger result"
    and lv :: level
    and wrap :: "'c list \<Rightarrow> log_text"
  assumes log: "log text l = bind_result (vsprintf_s text) (\<lambda>t. LOG4CXX lv (wrap t) l)"
begin

lemma log_ok: "lg_pLogger l \<Longrightarrow> length text < 1024 \<Longrightarrow> log text l = Inr (l\<lparr>lg_out := lg_out l @ [(lv, wrap text)]\<rparr>)"
  by (simp add: log vsprintf_s_def kMaxBufferLength_def LOG4CXX_def)

lemma log_too_long: "1024 \<le> length text \<Longrightarrow> log text l = Inl Out_Of_Bounds"
  by (simp add: log vsprintf_s_def kMaxBufferLength_def)

lemma log_Inr_iff: "(\<exists>l'. log text l = Inr l') \<longleftrightarrow> lg_pLogger l \<and> length text < 1024"
  by (simp add: log vsprintf_s_def kMaxBufferLength_def LOG4CXX_def)

end

interpretation log_trace: log_function Logger_Trace TRACE Narrow
  by unfold_locales (simp add: Logger_Trace_def)

interpretation log_debug: log_function Logger_Debug TRACE Narrow
  by unfold_locales (simp add: Logger_Debug_def)

interpretation log_info: log_function Logger_Info INFO Narrow
  by unfold_locales (simp add: Logger_Info_def)

interpretation log_warn: log_function Logger_Warn WARN Narrow
  by unfold_locales (simp add: Logger_Warn_def)

interpretation log_error: log_function Logger_Error ERROR Narrow
  by unfold_locales (simp add: Logger_Error_def)

interpretation log_fatal: log_function Logger_Fatal FATAL Narrow
  by unfold_locales (simp add: Logger_Fatal_def)

interpretation log_trace_w: log_function Logger_Trace_w TRACE Wide
  by unfold_locales (simp add: Logger_Trace_w_def)

interpretation log_debug_w: log_function Logger_Debug_w TRACE Wide
  by unfold_locales (simp add: Logger_Debug_w_def)

interpretation log_info_w: log_function Logger_Info_w INFO Wide
  by unfold_locales (simp add: Logger_Info_w_def)

interpretation log_warn_w: log_function Logger_Warn_w WARN Wide
  by unfold_locales (simp add: Logger_Warn_w_def)

interpretation log_error_w: log_function Logger_Error_w ERROR Wide
  by unfold_locales (simp add: Logger_Error_w_def)

interpretation log_fatal_w: log_function Logger_Fatal_w FATAL Wide
  by unfold_locales (simp add: Logger_Fatal_w_def)

end
