(* ===== verification/Protocol_Reader.thy ===== *)
theory Protocol_Reader
  imports Byte_Order Memory_Manager Packet_Worker Logger
begin

text \<open>
  What the protocol classes (protocol/*.cpp, src/testClient/RequestLogin.cpp) have in common. They
  read the fields of a request one after the other at a running position with
  \<open>MEMORY_MANAGER::ReadFromBuffer\<close>, whose results they ignore, convert integers from network byte
  order, resize a string to a length they have just read, log what they have read, and answer with a
  block from the buffer pools. The logger is a singleton: it is the handlers' own state, the field
  \<open>n_user\<close> of the server's.
\<close>

section \<open>Reading fields\<close>

text \<open>An integer of \<open>k\<close> bytes, and the conversion that follows the read.\<close>

definition read_word ::
  "('a::len word \<Rightarrow> 'a word) \<Rightarrow> nat \<Rightarrow> bytes \<Rightarrow> size_t \<Rightarrow> size_t \<Rightarrow> 'a word \<Rightarrow> ('a word \<times> size_t) result" where
  "read_word conv k buffer buffer_size buffer_idx v =
     bind_result (ReadFromBuffer_word k buffer buffer_size buffer_idx v)
       (\<lambda>(_, buffer_idx', v'). Inr (conv v', buffer_idx'))"

text \<open>\<open>std::string::resize\<close>: it throws above \<open>max_size\<close>, and fills with zero bytes.\<close>

definition string_resize :: "bytes \<Rightarrow> size_t \<Rightarrow> bytes result" where
  "string_resize s n =
     (if unat n < 2 ^ 63 then Inr (take (unat n) s @ replicate (unat n - length s) 0) else Inl Length_Error)"

definition read_string ::
  "bytes \<Rightarrow> size_t \<Rightarrow> size_t \<Rightarrow> bytes \<Rightarrow> size_t \<Rightarrow> (bytes \<times> size_t) result" where
  "read_string buffer buffer_size buffer_idx s n =
     bind_result (string_resize s n) (\<lambda>s'.
       bind_result (ReadFromBuffer_n buffer buffer_size buffer_idx s' n)
         (\<lambda>(_, buffer_idx', s''). Inr (s'', buffer_idx')))"

section \<open>Logging and answering\<close>

text \<open>
  The block the pool hands out for the answer and its contents, what the local variables hold that a
  handler does not initialise, numbered in the order of their declarations, what the uninitialised
  pointer to the information points to, and the macro \<open>LOG_ERROR\<close>, which the handlers use and nothing in
  the repository defines.
\<close>

record answer_env =
  ae_block :: addr
  ae_junk :: bytes
  ae_uninit :: "nat \<Rightarrow> u64"
  ae_info :: bytes
  ae_LOG_ERROR :: "bytes \<Rightarrow> Logger \<Rightarrow> Logger result"

type_synonym 'h handler = "('h, Logger) Net FunctionObject"

text \<open>A call of the logger.\<close>

definition log_call :: "(Logger \<Rightarrow> Logger result) \<Rightarrow> ('h, Logger) Net \<Rightarrow> ('h, Logger) Net result" where
  "log_call call w = bind_result (call (n_user w)) (\<lambda>l. Inr (w\<lparr>n_user := l\<rparr>))"

text \<open>Taking the block, and handing it to the caller with what was written into it.\<close>

definition new_block :: "answer_env \<Rightarrow> size_t \<Rightarrow> ('h, 'u) Net \<Rightarrow> ('h, 'u) Net" where
  "new_block env response_size w = pool_new (ae_block env) (ae_junk env) response_size w"

definition response :: "answer_env \<Rightarrow> bytes \<Rightarrow> size_t \<Rightarrow> ('h, 'u) Net \<Rightarrow> ResultObject \<times> ('h, 'u) Net" where
  "response env contents response_idx w =
     ((ae_block env, response_idx), w\<lparr>n_heap := (n_heap w)(ae_block env := contents)\<rparr>)"

text \<open>
  The texts the classes have in common but for the class name. The conversion \<open>%d\<close> takes a \<open>size_t\<close> for
  its low 32 bits.
\<close>

definition error_text :: "string \<Rightarrow> i16 \<Rightarrow> bytes" where
  "error_text name result_value =
     literal (''['' @ name @ ''][OutputData][ErrorResult] result_value['') @ int_text (sint result_value) @ literal '']''"

definition size_error_text :: "string \<Rightarrow> bytes" where
  "size_error_text name = literal (''['' @ name @ ''] buffer Size Error'')"

definition complete_text :: "string \<Rightarrow> size_t \<Rightarrow> bytes" where
  "complete_text name response_idx =
     literal (''['' @ name @ ''] Complete response_index['') @ int_text (sint (ucast response_idx :: i32)) @ literal '']''"

text \<open>The functions \<open>ErrorResult\<close>, which differ in the class name only.\<close>

definition error_result :: "string \<Rightarrow> bool \<Rightarrow> answer_env \<Rightarrow> i16 \<Rightarrow> ('h, Logger) Net \<Rightarrow> (ResultObject \<times> ('h, Logger) Net) result" where
  "error_result name en env result_value w =
     (let response_size = 2; w1 = new_block env response_size w
      in bind_result (log_call (Logger_Error (error_text name result_value)) w1) (\<lambda>w2.
         bind_result (WriteToBuffer_word 2 (n_heap w2 (ae_block env)) response_size 0 (host_to_network_i16 en result_value))
           (\<lambda>(_, buffer_idx, contents). Inr (response env contents buffer_idx w2))))"

section \<open>Reading never leaves the buffer\<close>

text \<open>A position inside a buffer of real memory.\<close>

definition cursor_ok :: "bytes \<Rightarrow> size_t \<Rightarrow> size_t \<Rightarrow> bool" where
  "cursor_ok buffer buffer_size i \<longleftrightarrow>
     unat i \<le> unat buffer_size \<and> unat buffer_size \<le> length buffer \<and> length buffer < 2 ^ 63"

lemma cursor_ok_start: "unat n \<le> length buffer \<Longrightarrow> length buffer < 2 ^ 63 \<Longrightarrow> cursor_ok buffer n 0"
  by (simp add: cursor_ok_def)

lemma cursor_advance:
  assumes "cursor_ok buffer n i" and "unat i + unat k \<le> unat n"
  shows "cursor_ok buffer n (i + k)"
proof -
  have "unat (i + k) = unat i + unat k"
    using assms unat_size_less[of n] by (intro unat_add_nowrap) simp
  then show ?thesis using assms by (simp add: cursor_ok_def)
qed

text \<open>What reading an integer gives: its bytes if the buffer holds all of them, and otherwise the variable as it was.\<close>

definition peek :: "('a::len word \<Rightarrow> 'a word) \<Rightarrow> nat \<Rightarrow> bytes \<Rightarrow> size_t \<Rightarrow> size_t \<Rightarrow> 'a word \<Rightarrow> 'a word \<times> size_t" where
  "peek conv k buffer n i v =
     (if unat i + k \<le> unat n then (conv (le_word (take k (drop (unat i) buffer))), i + of_nat k) else (conv v, i))"

lemma read_word_peek:
  fixes v :: "'a::len word"
  assumes "cursor_ok buffer n i" and "k \<le> 8" and "LENGTH('a) \<le> 8 * k"
  shows "read_word conv k buffer n i v = Inr (peek conv k buffer n i v)" and "cursor_ok buffer n (snd (peek conv k buffer n i v))"
proof -
  show "read_word conv k buffer n i v = Inr (peek conv k buffer n i v)"
    using assms by (simp add: read_word_def peek_def ReadFromBuffer_word_ok ReadFromBuffer_word_short cursor_ok_def)
  have "unat (of_nat k :: size_t) = k"
    using assms(2) by (intro unat_of_nat_size) simp
  then show "cursor_ok buffer n (snd (peek conv k buffer n i v))"
    using assms(1) cursor_advance[of buffer n i "of_nat k"] by (simp add: peek_def)
qed

lemma read_string_total:
  assumes "cursor_ok buffer n i" and "unat len < 2 ^ 63"
  obtains s' i' where "read_string buffer n i s len = Inr (s', i')" and "cursor_ok buffer n i'"
proof -
  define s0 where "s0 = take (unat len) s @ replicate (unat len - length s) 0"
  have s0: "string_resize s len = Inr s0" "length s0 = unat len"
    using assms(2) by (simp_all add: string_resize_def s0_def)
  show thesis
  proof (cases "unat i + unat len \<le> unat n")
    case True
    then have "read_string buffer n i s len = Inr (take (unat len) (drop (unat i) buffer) @ drop (unat len) s0, i + len)"
      using assms(1) s0 by (simp add: read_string_def ReadFromBuffer_n_ok cursor_ok_def)
    then show thesis using that cursor_advance[OF assms(1) True] by blast
  next
    case False
    then have "read_string buffer n i s len = Inr (s0, i)"
      using assms s0 by (simp add: read_string_def ReadFromBuffer_n_short cursor_ok_def)
    then show thesis using that assms(1) by blast
  qed
qed

text \<open>Chains of reads: each read can be taken off the front.\<close>

lemma bind_read_word:
  fixes v :: "'a::len word"
  assumes "cursor_ok buffer n i" and "k \<le> 8" and "LENGTH('a) \<le> 8 * k"
    and "\<And>v' i'. cursor_ok buffer n i' \<Longrightarrow> \<exists>r. K (v', i') = Inr r"
  shows "\<exists>r. bind_result (read_word conv k buffer n i v) K = Inr r"
  using read_word_peek[OF assms(1-3), of conv v] assms(4) by (cases "peek conv k buffer n i v") simp

lemma bind_read_string:
  assumes "cursor_ok buffer n i" and "unat len < 2 ^ 63"
    and "\<And>s' i'. cursor_ok buffer n i' \<Longrightarrow> \<exists>r. K (s', i') = Inr r"
  shows "\<exists>r. bind_result (read_string buffer n i s len) K = Inr r"
  using read_string_total[OF assms(1,2), of s] assms(3) by (metis bind_result_simps(2))

section \<open>Reading what was written\<close>

lemma read_word_field:
  fixes v :: "'a::len word"
  assumes "buffer = pre @ le_bytes k v @ post" and "length buffer < 2 ^ 63" and "k \<le> 8" and "LENGTH('a) \<le> 8 * k"
  shows "read_word conv k buffer (of_nat (length buffer)) (of_nat (length pre)) u
    = Inr (conv v, of_nat (length pre + k))"
proof -
  have len: "length pre \<le> length buffer" "length pre + k \<le> length buffer"
    using assms(1) by simp_all
  have u: "unat (of_nat (length buffer) :: size_t) = length buffer" "unat (of_nat (length pre) :: size_t) = length pre"
    using assms(2) len(1) by (intro unat_of_nat_size; simp)+
  have "take k (drop (length pre) buffer) = le_bytes k v"
    using assms(1) by simp
  then show ?thesis
    using assms(4) len(2) by (simp add: read_word_def ReadFromBuffer_word_ok u le_word_le_bytes)
qed

lemma read_string_field:
  assumes "buffer = pre @ str @ post" and "length buffer < 2 ^ 63" and "n = of_nat (length str)"
  shows "read_string buffer (of_nat (length buffer)) (of_nat (length pre)) s n
    = Inr (str, of_nat (length pre + length str))"
proof -
  have len: "length pre \<le> length buffer" "length str \<le> length buffer" "length pre + length str \<le> length buffer"
    using assms(1) by simp_all
  have u: "unat (of_nat (length buffer) :: size_t) = length buffer" "unat (of_nat (length pre) :: size_t) = length pre"
    "unat n = length str"
    using assms(2) len(1,2) unfolding assms(3) by (intro unat_of_nat_size; simp)+
  have str: "take (length str) (drop (length pre) buffer) = str"
    using assms(1) by simp
  have "string_resize s n = Inr (take (length str) s @ replicate (length str - length s) 0)"
    using u(3) assms(2) len(2) by (simp add: string_resize_def)
  then show ?thesis
    using len(3) str by (simp add: read_string_def ReadFromBuffer_n_ok u) (simp add: assms(3))
qed

section \<open>Handlers that answer with a result value\<close>

text \<open>A line of text in the log.\<close>

definition logged :: "level \<Rightarrow> bytes \<Rightarrow> Logger \<Rightarrow> Logger" where
  "logged lv text l = l\<lparr>lg_out := lg_out l @ [(lv, Narrow text)]\<rparr>"

lemma lg_pLogger_logged [simp]: "lg_pLogger (logged lv text l) = lg_pLogger l"
  by (simp add: logged_def)

lemma log_call_simps:
  "lg_pLogger (n_user w) \<Longrightarrow> length text < 1024 \<Longrightarrow>
     log_call (Logger_Info text) w = Inr (w\<lparr>n_user := logged INFO text (n_user w)\<rparr>)"
  "lg_pLogger (n_user w) \<Longrightarrow> length text < 1024 \<Longrightarrow>
     log_call (Logger_Error text) w = Inr (w\<lparr>n_user := logged ERROR text (n_user w)\<rparr>)"
  "\<not> lg_pLogger (n_user w) \<Longrightarrow> length text < 1024 \<Longrightarrow> log_call (Logger_Info text) w = Inl Null_Pointer"
  "\<not> lg_pLogger (n_user w) \<Longrightarrow> length text < 1024 \<Longrightarrow> log_call (Logger_Error text) w = Inl Null_Pointer"
  "1024 \<le> length text \<Longrightarrow> log_call (Logger_Info text) w = Inl Out_Of_Bounds"
  by (simp_all add: log_call_def logged_def log_info.log_ok log_error.log_ok log_info.log_too_long Logger_Info_def
      Logger_Error_def vsprintf_s_def kMaxBufferLength_def LOG4CXX_def)

text \<open>
  The answer with the value zero: two zero bytes in a new block of two bytes, and a line in the log that
  names the class.
\<close>

definition zero_answer :: "string \<Rightarrow> answer_env \<Rightarrow> ('h, Logger) Net \<Rightarrow> ResultObject \<times> ('h, Logger) Net" where
  "zero_answer name env w =
     ((ae_block env, 2),
      w\<lparr>n_heap := (n_heap w)(ae_block env := [0, 0]),
        n_log := n_log w @ [Allocated (COMMON_POOL_New 2) (ae_block env)],
        n_user := logged ERROR (error_text name 0) (n_user w)\<rparr>)"

lemma host_to_network_zero: "host_to_network_i16 en 0 = 0"
proof (cases en)
  case True
  then show ?thesis by (simp add: byte_order_defs bswap_def le_bytes_eval)
next
  case False
  then show ?thesis by (simp add: byte_order_defs)
qed

lemma error_result_zero:
  assumes "length name \<le> 100"
  shows "error_result name en env 0 w
    = (if lg_pLogger (n_user w) then Inr (zero_answer name env w) else Inl Null_Pointer)"
proof -
  have short: "length (error_text name 0) < 1024"
    using assms length_int_text_word(1)[of 0] by (simp add: error_text_def)
  let ?w = "new_block env 2 w"
  have w: "n_user ?w = n_user w" "length (n_heap ?w (ae_block env)) = 2"
    by (simp_all add: new_block_def pool_new_def log_event_def)
  have "WriteToBuffer_word 2 b 2 0 (host_to_network_i16 en 0) = Inr (True, 2, [0, 0])" if "length b = 2" for b
    using that by (simp add: WriteToBuffer_word_def host_to_network_zero WriteToBuffer_ok le_bytes_eval)
  then show ?thesis
    using short w by (simp add: error_result_def log_call_simps)
      (simp add: zero_answer_def response_def new_block_def pool_new_def log_event_def)
qed

lemma zero_answer_frame:
  "zero_answer name env w = (r, w') \<Longrightarrow> ae_block env \<notin> live \<Longrightarrow> handler_frame live w w'"
  by (auto simp: zero_answer_def handler_frame_def)

text \<open>
  What a handler that reads a request, logs it, reports a wrong size and answers zero does, in terms of
  \<open>reads\<close>: the text it logs of the request and whether the size is right, unless reading faults. The facts
  about such handlers are proved once.
\<close>

locale zero_handler =
  fixes name :: string
    and process :: "bool \<Rightarrow> answer_env \<Rightarrow> 'h handler"
    and reads :: "bool \<Rightarrow> answer_env \<Rightarrow> bytes \<Rightarrow> size_t \<Rightarrow> (bytes \<times> bool) result"
  assumes name: "length name \<le> 100"
    and process: "process en env buffer n w =
      bind_result (reads en env buffer n) (\<lambda>(text, size_ok).
      bind_result (log_call (Logger_Info text) w) (\<lambda>w1.
      bind_result (if size_ok then Inr w1 else log_call (ae_LOG_ERROR env (size_error_text name)) w1) (\<lambda>w2.
      error_result name en env 0 w2)))"
begin

lemma outcome:
  assumes "reads en env buffer n = Inr (text, size_ok)" and "lg_pLogger (n_user w)" and "length text < 1024"
  shows "process en env buffer n w =
    (let l = logged INFO text (n_user w)
     in if size_ok then Inr (zero_answer name env (w\<lparr>n_user := l\<rparr>))
        else case ae_LOG_ERROR env (size_error_text name) l of
            Inl f \<Rightarrow> Inl f
          | Inr l' \<Rightarrow> if lg_pLogger l' then Inr (zero_answer name env (w\<lparr>n_user := l'\<rparr>)) else Inl Null_Pointer)"
  using assms
  by (simp add: process log_call_simps error_result_zero[OF name] Let_def log_call_def[of "ae_LOG_ERROR env _"] split: sum.splits)

lemma too_long: "reads en env buffer n = Inr (text, size_ok) \<Longrightarrow> 1024 \<le> length text \<Longrightarrow> process en env buffer n w = Inl Out_Of_Bounds"
  by (simp add: process log_call_simps)

lemma no_logger: "\<not> lg_pLogger (n_user w) \<Longrightarrow> \<exists>f. process en env buffer n w = Inl f"
  by (cases "reads en env buffer n"; cases "length (fst (projr (reads en env buffer n))) < 1024")
    (auto simp: process log_call_simps not_less)

lemma other_faults:
  assumes "reads en env buffer n = Inr r" and "\<And>t l. ae_LOG_ERROR env t l \<noteq> Inl f" and "f \<noteq> Null_Pointer" and "f \<noteq> Out_Of_Bounds"
  shows "process en env buffer n w \<noteq> Inl f"
proof -
  have info: "log_call (Logger_Info t) v \<noteq> Inl f" for t v
    using assms(3,4) log_call_simps(1,3)[of v t] log_call_simps(5)[of t v] by (cases "lg_pLogger (n_user v)"; cases "length t < 1024") auto
  have report: "log_call (ae_LOG_ERROR env t) v \<noteq> Inl f" for t v
    using assms(2)[of t "n_user v"] by (cases "ae_LOG_ERROR env t (n_user v)") (auto simp: log_call_def)
  have bind: "bind_result a k \<noteq> Inl f" if "a \<noteq> Inl f" "\<And>y. k y \<noteq> Inl f" for a :: "('h, Logger) Net result" and k :: "_ \<Rightarrow> 'b result"
    using that by (cases a) auto
  show ?thesis
    unfolding process assms(1) bind_result_simps split_beta
    using assms(3) info report by (intro bind) (auto simp: error_result_zero[OF name])
qed

lemma frame:
  assumes "process en env buffer n w = Inr (r, w')" and "ae_block env \<notin> live"
  shows "handler_frame live w w'"
proof -
  obtain msg size_ok w0 w1 where steps: "log_call (Logger_Info msg) w = Inr w0"
      "(if size_ok then Inr w0 else log_call (ae_LOG_ERROR env (size_error_text name)) w0) = Inr w1"
      "error_result name en env 0 w1 = Inr (r, w')"
    using assms(1) unfolding process bind_result_eq_Inr_iff split_beta by blast
  have "handler_frame live w w1"
    using steps(1,2) by (auto simp: log_call_def bind_result_eq_Inr_iff handler_frame_def split: if_splits)
  then show ?thesis
    using zero_answer_frame[of name env w1 r w' live] steps(3) assms(2)
    by (auto simp: error_result_zero[OF name] handler_frame_def split: if_splits)
qed

end

end
