(* ===== verification/Protocols.thy ===== *)
theory Protocols
  imports Protocol_Reader
begin

text \<open>
  The protocol classes of protocol/: each has a \<open>ProtocolProcess\<close> that reads a request, checks the
  size of the packet against the lengths it has read, and answers. The part that processes the
  request is still to be written in all of them, so \<open>result_value\<close> keeps its initial zero. The
  classes call the allocator as \<open>COMMON_POOL::_new\<close> and assign the length of the answer to
  \<open>response_index\<close> while they return \<open>response_idx\<close>; the model takes the first for \<open>New\<close> and returns
  the second. Every call of the logger is a call of \<open>log_call\<close>; \<open>X_fields\<close> is the part of \<open>X::Deserialize\<close>
  that reads, and \<open>X_Deserialize\<close> the whole of it.
\<close>

section \<open>LeagueTimeSet\<close>

definition LeagueTimeSet_fields :: "bool \<Rightarrow> bytes \<Rightarrow> size_t \<Rightarrow> u64 \<Rightarrow> (u64 \<times> size_t) result" where
  "LeagueTimeSet_fields en buffer buffer_size leaguetime =
     bind_result (read_word (network_to_host_u64 en) 8 buffer buffer_size 0 leaguetime) (\<lambda>(leaguetime, i1).
     Inr (leaguetime, i1))"

definition LeagueTimeSet_input_text :: "u64 \<Rightarrow> bytes" where
  "LeagueTimeSet_input_text leaguetime =
     literal ''[LeagueTimeSet][InputData] leaguetime['' @ int_text (sint leaguetime) @ literal '']''"

definition LeagueTimeSet_Deserialize ::
  "bool \<Rightarrow> bytes \<Rightarrow> size_t \<Rightarrow> u64 \<Rightarrow> ('h, Logger) Net
     \<Rightarrow> ((u64 \<times> size_t) \<times> ('h, Logger) Net) result" where
  "LeagueTimeSet_Deserialize en buffer buffer_size leaguetime w =
     bind_result (LeagueTimeSet_fields en buffer buffer_size leaguetime)
       (\<lambda>(leaguetime, buffer_idx).
     bind_result (log_call (Logger_Info (LeagueTimeSet_input_text leaguetime)) w) (\<lambda>w1.
     Inr ((leaguetime, buffer_idx), w1)))"

definition LeagueTimeSet_Serialize ::
  "bool \<Rightarrow> bytes \<Rightarrow> size_t \<Rightarrow> u16 \<Rightarrow> ('h, Logger) Net \<Rightarrow> ((size_t \<times> bytes) \<times> ('h, Logger) Net) result" where
  "LeagueTimeSet_Serialize en buffer buffer_size result_value w =
     bind_result (log_call (Logger_Info (literal ''[LeagueTimeSet][OutputData] result_value['' @ int_text (uint result_value) @ literal '']'')) w) (\<lambda>w1.
     bind_result (WriteToBuffer_word 2 buffer buffer_size 0 (host_to_network_u16 en result_value))
       (\<lambda>(_, buffer_idx, buffer'). Inr ((buffer_idx, buffer'), w1)))"

definition LeagueTimeSet_ErrorResult ::
  "bool \<Rightarrow> answer_env \<Rightarrow> i16 \<Rightarrow> ('h, Logger) Net \<Rightarrow> (ResultObject \<times> ('h, Logger) Net) result" where
  "LeagueTimeSet_ErrorResult = error_result ''LeagueTimeSet''"

definition LeagueTimeSet_ProtocolProcess :: "bool \<Rightarrow> answer_env \<Rightarrow> 'h handler" where
  "LeagueTimeSet_ProtocolProcess en env buffer sz w =
     bind_result (LeagueTimeSet_Deserialize en buffer sz (ae_uninit env 0) w)
       (\<lambda>((leaguetime, _), w1).
          let result_value = 0
          in if sz \<noteq> 8
             then bind_result (log_call (ae_LOG_ERROR env (literal ''[LeagueTimeSet] buffer Size Error'')) w1) (\<lambda>w2.
                LeagueTimeSet_ErrorResult en env result_value w2)
             else if result_value \<noteq> 1 then LeagueTimeSet_ErrorResult en env result_value w1
             else
                let response_size = 2; w2 = new_block env response_size w1; response_idx = 0
                in bind_result (LeagueTimeSet_Serialize en (n_heap w2 (ae_block env)) response_size (ucast result_value) w2)
                     (\<lambda>((response_index, contents), w3).
                   bind_result (log_call (Logger_Info (complete_text ''LeagueTimeSet'' response_idx)) w3) (\<lambda>w4.
                   Inr (response env contents response_idx w4))))"

section \<open>StatusInfomation\<close>

definition StatusInfomation_fields :: "bool \<Rightarrow> bytes \<Rightarrow> size_t \<Rightarrow> i32 \<Rightarrow> (i32 \<times> size_t) result" where
  "StatusInfomation_fields en buffer buffer_size infomation_no =
     bind_result (read_word (network_to_host_i32 en) 4 buffer buffer_size 0 infomation_no) (\<lambda>(infomation_no, i1).
     Inr (infomation_no, i1))"

definition StatusInfomation_input_text :: "i32 \<Rightarrow> bytes" where
  "StatusInfomation_input_text infomation_no =
     literal ''[StatusInfomation][InputData] infomation_no['' @ int_text (sint infomation_no) @ literal '']''"

definition StatusInfomation_Deserialize ::
  "bool \<Rightarrow> bytes \<Rightarrow> size_t \<Rightarrow> i32 \<Rightarrow> ('h, Logger) Net
     \<Rightarrow> ((i32 \<times> size_t) \<times> ('h, Logger) Net) result" where
  "StatusInfomation_Deserialize en buffer buffer_size infomation_no w =
     bind_result (StatusInfomation_fields en buffer buffer_size infomation_no)
       (\<lambda>(infomation_no, buffer_idx).
     bind_result (log_call (Logger_Info (StatusInfomation_input_text infomation_no)) w) (\<lambda>w1.
     Inr ((infomation_no, buffer_idx), w1)))"

definition StatusInfomation_Serialize ::
  "bool \<Rightarrow> bytes \<Rightarrow> size_t \<Rightarrow> u16 \<Rightarrow> u32 \<Rightarrow> ('h, Logger) Net \<Rightarrow> ((size_t \<times> bytes) \<times> ('h, Logger) Net) result" where
  "StatusInfomation_Serialize en buffer buffer_size result_value use_memory w =
     bind_result (log_call (Logger_Info (literal ''[StatusInfomation][OutputData] result_value['' @ int_text (uint result_value)
       @ literal ''], use_memory['' @ int_text (sint use_memory) @ literal '']'')) w) (\<lambda>w1.
     bind_result (WriteToBuffer_word 2 buffer buffer_size 0 (host_to_network_u16 en result_value)) (\<lambda>(_, i1, b1).
     bind_result (WriteToBuffer_word 4 b1 buffer_size i1 (host_to_network_u32 en use_memory)) (\<lambda>(_, i2, b2).
     Inr ((i2, b2), w1))))"

definition StatusInfomation_ErrorResult ::
  "bool \<Rightarrow> answer_env \<Rightarrow> i16 \<Rightarrow> ('h, Logger) Net \<Rightarrow> (ResultObject \<times> ('h, Logger) Net) result" where
  "StatusInfomation_ErrorResult = error_result ''StatusInfomation''"

definition StatusInfomation_ProtocolProcess :: "bool \<Rightarrow> answer_env \<Rightarrow> 'h handler" where
  "StatusInfomation_ProtocolProcess en env buffer sz w =
     bind_result (StatusInfomation_Deserialize en buffer sz (ucast (ae_uninit env 0)) w)
       (\<lambda>((infomation_no, _), w1).
          let result_value = 0
          in if sz \<noteq> 4
             then bind_result (log_call (ae_LOG_ERROR env (literal ''[StatusInfomation] buffer Size Error'')) w1) (\<lambda>w2.
                StatusInfomation_ErrorResult en env result_value w2)
             else if result_value \<noteq> 1 then StatusInfomation_ErrorResult en env result_value w1
             else
                let response_size = 2 + 4; w2 = new_block env response_size w1; response_idx = 0
                in bind_result (StatusInfomation_Serialize en (n_heap w2 (ae_block env)) response_size (ucast result_value) (ucast (ae_uninit env 1)) w2)
                     (\<lambda>((response_index, contents), w3).
                   bind_result (log_call (Logger_Info (complete_text ''StatusInfomation'' response_idx)) w3) (\<lambda>w4.
                   Inr (response env contents response_idx w4))))"

section \<open>PlayerDetailInfoPassing\<close>

definition PlayerDetailInfoPassing_fields ::
  "bool \<Rightarrow> bytes \<Rightarrow> size_t \<Rightarrow> u64 \<Rightarrow> u8 \<Rightarrow> (u64 \<times> u8 \<times> size_t) result" where
  "PlayerDetailInfoPassing_fields en buffer buffer_size user_uid player_type =
     bind_result (read_word (network_to_host_u64 en) 8 buffer buffer_size 0 user_uid) (\<lambda>(user_uid, i1).
     bind_result (read_word (\<lambda>c. c) 1 buffer buffer_size i1 player_type) (\<lambda>(player_type, i2).
     Inr (user_uid, player_type, i2)))"

definition PlayerDetailInfoPassing_input_text :: "u64 \<Rightarrow> u8 \<Rightarrow> bytes" where
  "PlayerDetailInfoPassing_input_text user_uid player_type =
     c_str (literal ''[PlayerDetailInfoPassing][InputData] user_uid['' @ int_text (sint user_uid)
     @ literal ''], player_type['' @ [player_type] @ literal '']'')"

definition PlayerDetailInfoPassing_Deserialize ::
  "bool \<Rightarrow> bytes \<Rightarrow> size_t \<Rightarrow> u64 \<Rightarrow> u8 \<Rightarrow> ('h, Logger) Net
     \<Rightarrow> ((u64 \<times> u8 \<times> size_t) \<times> ('h, Logger) Net) result" where
  "PlayerDetailInfoPassing_Deserialize en buffer buffer_size user_uid player_type w =
     bind_result (PlayerDetailInfoPassing_fields en buffer buffer_size user_uid player_type)
       (\<lambda>(user_uid, player_type, buffer_idx).
     bind_result (log_call (Logger_Info (PlayerDetailInfoPassing_input_text user_uid player_type)) w) (\<lambda>w1.
     Inr ((user_uid, player_type, buffer_idx), w1)))"

definition PlayerDetailInfoPassing_Serialize ::
  "bool \<Rightarrow> bytes \<Rightarrow> size_t \<Rightarrow> u16 \<Rightarrow> u32 \<Rightarrow> bytes \<Rightarrow> ('h, Logger) Net \<Rightarrow> ((size_t \<times> bytes) \<times> ('h, Logger) Net) result" where
  "PlayerDetailInfoPassing_Serialize en buffer buffer_size result_value info_length info w =
     bind_result (log_call (Logger_Info (literal ''[PlayerDetailInfoPassing][OutputData] result_value['' @ int_text (uint result_value)
       @ literal ''], detailinfo_length['' @ int_text (sint info_length) @ literal ''], detailinfo['' @ c_str info @ literal '']'')) w) (\<lambda>w1.
     bind_result (WriteToBuffer_word 2 buffer buffer_size 0 (host_to_network_u16 en result_value)) (\<lambda>(_, i1, b1).
     bind_result (WriteToBuffer_word 4 b1 buffer_size i1 (host_to_network_u32 en info_length)) (\<lambda>(_, i2, b2).
     bind_result (WriteToBuffer_n b2 buffer_size i2 info
         (ucast (network_to_host_u32 en (host_to_network_u32 en info_length)))) (\<lambda>(_, i3, b3).
     Inr ((i3, b3), w1)))))"

definition PlayerDetailInfoPassing_ErrorResult ::
  "bool \<Rightarrow> answer_env \<Rightarrow> i16 \<Rightarrow> ('h, Logger) Net \<Rightarrow> (ResultObject \<times> ('h, Logger) Net) result" where
  "PlayerDetailInfoPassing_ErrorResult = error_result ''PlayerDetailInfoPassing''"

definition PlayerDetailInfoPassing_ProtocolProcess :: "bool \<Rightarrow> answer_env \<Rightarrow> 'h handler" where
  "PlayerDetailInfoPassing_ProtocolProcess en env buffer sz w =
     bind_result (PlayerDetailInfoPassing_Deserialize en buffer sz (ae_uninit env 0) (ucast (ae_uninit env 1)) w)
       (\<lambda>((user_uid, player_type, _), w1).
          let result_value = 0
          in if sz \<noteq> 8 + 1
             then bind_result (log_call (ae_LOG_ERROR env (literal ''[PlayerDetailInfoPassing] buffer Size Error'')) w1) (\<lambda>w2.
                PlayerDetailInfoPassing_ErrorResult en env result_value w2)
             else if result_value \<noteq> 1 then PlayerDetailInfoPassing_ErrorResult en env result_value w1
             else
                let info_length = ucast (ae_uninit env 2); response_size = 2 + 4 + ucast info_length; w2 = new_block env response_size w1; response_idx = 0
                in bind_result (PlayerDetailInfoPassing_Serialize en (n_heap w2 (ae_block env)) response_size (ucast result_value) info_length (ae_info env) w2)
                     (\<lambda>((response_index, contents), w3).
                   bind_result (log_call (Logger_Info (complete_text ''PlayerDetailInfoPassing'' response_idx)) w3) (\<lambda>w4.
                   Inr (response env contents response_idx w4))))"

section \<open>AnimationInfoPassing\<close>

definition AnimationInfoPassing_fields ::
  "bool \<Rightarrow> bytes \<Rightarrow> size_t \<Rightarrow> u64 \<Rightarrow> u64 \<Rightarrow> u32 \<Rightarrow> (u64 \<times> u64 \<times> u32 \<times> size_t) result" where
  "AnimationInfoPassing_fields en buffer buffer_size user_uid leaguetime league_no =
     bind_result (read_word (network_to_host_u64 en) 8 buffer buffer_size 0 user_uid) (\<lambda>(user_uid, i1).
     bind_result (read_word (network_to_host_u64 en) 8 buffer buffer_size i1 leaguetime) (\<lambda>(leaguetime, i2).
     bind_result (read_word (network_to_host_u32 en) 4 buffer buffer_size i2 league_no) (\<lambda>(league_no, i3).
     Inr (user_uid, leaguetime, league_no, i3))))"

definition AnimationInfoPassing_input_text :: "u64 \<Rightarrow> u64 \<Rightarrow> u32 \<Rightarrow> bytes" where
  "AnimationInfoPassing_input_text user_uid leaguetime league_no =
     literal ''[AnimationInfoPassing][InputData] user_uid['' @ int_text (sint user_uid)
     @ literal ''], leaguetime['' @ int_text (sint leaguetime) @ literal ''], league_no['' @ int_text (sint league_no) @ literal '']''"

definition AnimationInfoPassing_Deserialize ::
  "bool \<Rightarrow> bytes \<Rightarrow> size_t \<Rightarrow> u64 \<Rightarrow> u64 \<Rightarrow> u32 \<Rightarrow> ('h, Logger) Net
     \<Rightarrow> ((u64 \<times> u64 \<times> u32 \<times> size_t) \<times> ('h, Logger) Net) result" where
  "AnimationInfoPassing_Deserialize en buffer buffer_size user_uid leaguetime league_no w =
     bind_result (AnimationInfoPassing_fields en buffer buffer_size user_uid leaguetime league_no)
       (\<lambda>(user_uid, leaguetime, league_no, buffer_idx).
     bind_result (log_call (Logger_Info (AnimationInfoPassing_input_text user_uid leaguetime league_no)) w) (\<lambda>w1.
     Inr ((user_uid, leaguetime, league_no, buffer_idx), w1)))"

definition AnimationInfoPassing_Serialize ::
  "bool \<Rightarrow> bytes \<Rightarrow> size_t \<Rightarrow> u16 \<Rightarrow> u32 \<Rightarrow> bytes \<Rightarrow> ('h, Logger) Net \<Rightarrow> ((size_t \<times> bytes) \<times> ('h, Logger) Net) result" where
  "AnimationInfoPassing_Serialize en buffer buffer_size result_value info_length info w =
     bind_result (log_call (Logger_Info (literal ''[AnimationInfoPassing][OutputData] result_value['' @ int_text (uint result_value)
       @ literal ''], animation_info_length['' @ int_text (sint info_length) @ literal ''], animation_info['' @ c_str info @ literal '']'')) w) (\<lambda>w1.
     bind_result (WriteToBuffer_word 2 buffer buffer_size 0 (host_to_network_u16 en result_value)) (\<lambda>(_, i1, b1).
     bind_result (WriteToBuffer_word 4 b1 buffer_size i1 (host_to_network_u32 en info_length)) (\<lambda>(_, i2, b2).
     bind_result (WriteToBuffer_n b2 buffer_size i2 info
         (ucast (network_to_host_u32 en (host_to_network_u32 en info_length)))) (\<lambda>(_, i3, b3).
     Inr ((i3, b3), w1)))))"

definition AnimationInfoPassing_ErrorResult ::
  "bool \<Rightarrow> answer_env \<Rightarrow> i16 \<Rightarrow> ('h, Logger) Net \<Rightarrow> (ResultObject \<times> ('h, Logger) Net) result" where
  "AnimationInfoPassing_ErrorResult = error_result ''AnimationInfoPassing''"

definition AnimationInfoPassing_ProtocolProcess :: "bool \<Rightarrow> answer_env \<Rightarrow> 'h handler" where
  "AnimationInfoPassing_ProtocolProcess en env buffer sz w =
     bind_result (AnimationInfoPassing_Deserialize en buffer sz (ae_uninit env 0) (ae_uninit env 1) (ucast (ae_uninit env 2)) w)
       (\<lambda>((user_uid, leaguetime, league_no, _), w1).
          let result_value = 0
          in if sz \<noteq> 8 + 8 + 4
             then bind_result (log_call (ae_LOG_ERROR env (literal ''[AnimationInfoPassing] buffer Size Error'')) w1) (\<lambda>w2.
                AnimationInfoPassing_ErrorResult en env result_value w2)
             else if result_value \<noteq> 1 then AnimationInfoPassing_ErrorResult en env result_value w1
             else
                let info_length = ucast (ae_uninit env 3); response_size = 2 + 4 + ucast info_length; w2 = new_block env response_size w1; response_idx = 0
                in bind_result (AnimationInfoPassing_Serialize en (n_heap w2 (ae_block env)) response_size (ucast result_value) info_length (ae_info env) w2)
                     (\<lambda>((response_index, contents), w3).
                   bind_result (log_call (Logger_Info (complete_text ''AnimationInfoPassing'' response_idx)) w3) (\<lambda>w4.
                   Inr (response env contents response_idx w4))))"

section \<open>AnimationInfoLoad\<close>

definition AnimationInfoLoad_fields ::
  "bool \<Rightarrow> bytes \<Rightarrow> size_t \<Rightarrow> u64 \<Rightarrow> u32 \<Rightarrow> u32 \<Rightarrow> bytes \<Rightarrow> u32 \<Rightarrow> bytes
     \<Rightarrow> (u64 \<times> u32 \<times> u32 \<times> bytes \<times> u32 \<times> bytes \<times> size_t) result" where
  "AnimationInfoLoad_fields en buffer buffer_size leaguetime league_no post_path_length post_path
       regular_path_length regular_path =
     bind_result (read_word (network_to_host_u64 en) 8 buffer buffer_size 0 leaguetime) (\<lambda>(leaguetime, i1).
     bind_result (read_word (network_to_host_u32 en) 4 buffer buffer_size i1 league_no) (\<lambda>(league_no, i2).
     bind_result (read_word (network_to_host_u32 en) 4 buffer buffer_size i2 post_path_length) (\<lambda>(post_path_length, i3).
     bind_result (read_string buffer buffer_size i3 post_path (ucast post_path_length)) (\<lambda>(post_path, i4).
     bind_result (read_word (network_to_host_u32 en) 4 buffer buffer_size i4 regular_path_length)
       (\<lambda>(regular_path_length, i5).
     bind_result (read_string buffer buffer_size i5 regular_path (ucast regular_path_length)) (\<lambda>(regular_path, i6).
     Inr (leaguetime, league_no, post_path_length, post_path, regular_path_length, regular_path, i6)))))))"

definition AnimationInfoLoad_input_text :: "u64 \<Rightarrow> u32 \<Rightarrow> u32 \<Rightarrow> bytes \<Rightarrow> u32 \<Rightarrow> bytes \<Rightarrow> bytes" where
  "AnimationInfoLoad_input_text leaguetime league_no post_path_length post_path regular_path_length regular_path =
     literal ''[AnimationInfoLoad][InputData] leaguetime['' @ int_text (sint leaguetime)
     @ literal ''], league_no['' @ int_text (sint league_no)
     @ literal ''], animation_post_path_length['' @ int_text (sint post_path_length)
     @ literal ''], animation_post_path['' @ c_str post_path
     @ literal ''], animation_regular_path_length['' @ int_text (sint regular_path_length)
     @ literal ''], animation_regular_path['' @ c_str regular_path @ literal '']''"

definition AnimationInfoLoad_Deserialize ::
  "bool \<Rightarrow> bytes \<Rightarrow> size_t \<Rightarrow> u64 \<Rightarrow> u32 \<Rightarrow> u32 \<Rightarrow> bytes \<Rightarrow> u32 \<Rightarrow> bytes \<Rightarrow> ('h, Logger) Net
     \<Rightarrow> ((u64 \<times> u32 \<times> u32 \<times> bytes \<times> u32 \<times> bytes \<times> size_t) \<times> ('h, Logger) Net) result" where
  "AnimationInfoLoad_Deserialize en buffer buffer_size leaguetime league_no post_path_length post_path regular_path_length regular_path w =
     bind_result (AnimationInfoLoad_fields en buffer buffer_size leaguetime league_no post_path_length post_path regular_path_length regular_path)
       (\<lambda>(leaguetime, league_no, post_path_length, post_path, regular_path_length, regular_path, buffer_idx).
     bind_result (log_call (Logger_Info (AnimationInfoLoad_input_text leaguetime league_no post_path_length post_path regular_path_length regular_path)) w) (\<lambda>w1.
     Inr ((leaguetime, league_no, post_path_length, post_path, regular_path_length, regular_path, buffer_idx), w1)))"

definition AnimationInfoLoad_Serialize ::
  "bool \<Rightarrow> bytes \<Rightarrow> size_t \<Rightarrow> u16 \<Rightarrow> ('h, Logger) Net \<Rightarrow> ((size_t \<times> bytes) \<times> ('h, Logger) Net) result" where
  "AnimationInfoLoad_Serialize en buffer buffer_size result_value w =
     bind_result (log_call (Logger_Info (literal ''[AnimationInfoLoad][OutputData] result_value['' @ int_text (uint result_value) @ literal '']'')) w) (\<lambda>w1.
     bind_result (WriteToBuffer_word 2 buffer buffer_size 0 (host_to_network_u16 en result_value))
       (\<lambda>(_, buffer_idx, buffer'). Inr ((buffer_idx, buffer'), w1)))"

definition AnimationInfoLoad_ErrorResult ::
  "bool \<Rightarrow> answer_env \<Rightarrow> i16 \<Rightarrow> ('h, Logger) Net \<Rightarrow> (ResultObject \<times> ('h, Logger) Net) result" where
  "AnimationInfoLoad_ErrorResult = error_result ''AnimationInfoLoad''"

definition AnimationInfoLoad_ProtocolProcess :: "bool \<Rightarrow> answer_env \<Rightarrow> 'h handler" where
  "AnimationInfoLoad_ProtocolProcess en env buffer sz w =
     bind_result (AnimationInfoLoad_Deserialize en buffer sz (ae_uninit env 0) (ucast (ae_uninit env 1)) (ucast (ae_uninit env 2)) [] (ucast (ae_uninit env 3)) [] w)
       (\<lambda>((leaguetime, league_no, post_path_length, post_path, regular_path_length, regular_path, _), w1).
          let result_value = 0
          in if sz \<noteq> 8 + 4 + 4 + ucast post_path_length + 4 + ucast regular_path_length
             then bind_result (log_call (ae_LOG_ERROR env (literal ''[AnimationInfoLoad] buffer Size Error'')) w1) (\<lambda>w2.
                AnimationInfoLoad_ErrorResult en env result_value w2)
             else if result_value \<noteq> 1 then AnimationInfoLoad_ErrorResult en env result_value w1
             else
                let response_size = 2; w2 = new_block env response_size w1; response_idx = 0
                in bind_result (AnimationInfoLoad_Serialize en (n_heap w2 (ae_block env)) response_size (ucast result_value) w2)
                     (\<lambda>((response_index, contents), w3).
                   bind_result (log_call (Logger_Info (complete_text ''AnimationInfoLoad'' response_idx)) w3) (\<lambda>w4.
                   Inr (response env contents response_idx w4))))"

section \<open>PlayerDetailInfoLoad\<close>

text \<open>The length of the first path is a signed integer; it becomes a \<open>size_t\<close> where it is used.\<close>

definition PlayerDetailInfoLoad_fields ::
  "bool \<Rightarrow> bytes \<Rightarrow> size_t \<Rightarrow> u64 \<Rightarrow> i32 \<Rightarrow> bytes \<Rightarrow> u32 \<Rightarrow> bytes
     \<Rightarrow> (u64 \<times> i32 \<times> bytes \<times> u32 \<times> bytes \<times> size_t) result" where
  "PlayerDetailInfoLoad_fields en buffer buffer_size leaguetime pitcher_path_length pitcher_path
       fielder_path_length fielder_path =
     bind_result (read_word (network_to_host_u64 en) 8 buffer buffer_size 0 leaguetime) (\<lambda>(leaguetime, i1).
     bind_result (read_word (network_to_host_i32 en) 4 buffer buffer_size i1 pitcher_path_length)
       (\<lambda>(pitcher_path_length, i2).
     bind_result (read_string buffer buffer_size i2 pitcher_path (scast pitcher_path_length)) (\<lambda>(pitcher_path, i3).
     bind_result (read_word (network_to_host_u32 en) 4 buffer buffer_size i3 fielder_path_length)
       (\<lambda>(fielder_path_length, i4).
     bind_result (read_string buffer buffer_size i4 fielder_path (ucast fielder_path_length)) (\<lambda>(fielder_path, i5).
     Inr (leaguetime, pitcher_path_length, pitcher_path, fielder_path_length, fielder_path, i5))))))"

definition PlayerDetailInfoLoad_input_text :: "u64 \<Rightarrow> i32 \<Rightarrow> bytes \<Rightarrow> u32 \<Rightarrow> bytes \<Rightarrow> bytes" where
  "PlayerDetailInfoLoad_input_text leaguetime pitcher_path_length pitcher_path fielder_path_length fielder_path =
     literal ''[PlayerDetailInfoLoad][InputData] leaguetime['' @ int_text (sint leaguetime)
     @ literal ''], pitcher_path_length['' @ int_text (sint pitcher_path_length)
     @ literal ''], pitcher_path['' @ c_str pitcher_path
     @ literal ''], fielder_path_length['' @ int_text (sint fielder_path_length)
     @ literal ''], fielder_path['' @ c_str fielder_path @ literal '']''"

definition PlayerDetailInfoLoad_Deserialize ::
  "bool \<Rightarrow> bytes \<Rightarrow> size_t \<Rightarrow> u64 \<Rightarrow> i32 \<Rightarrow> bytes \<Rightarrow> u32 \<Rightarrow> bytes \<Rightarrow> ('h, Logger) Net
     \<Rightarrow> ((u64 \<times> i32 \<times> bytes \<times> u32 \<times> bytes \<times> size_t) \<times> ('h, Logger) Net) result" where
  "PlayerDetailInfoLoad_Deserialize en buffer buffer_size leaguetime pitcher_path_length pitcher_path fielder_path_length fielder_path w =
     bind_result (PlayerDetailInfoLoad_fields en buffer buffer_size leaguetime pitcher_path_length pitcher_path fielder_path_length fielder_path)
       (\<lambda>(leaguetime, pitcher_path_length, pitcher_path, fielder_path_length, fielder_path, buffer_idx).
     bind_result (log_call (Logger_Info (PlayerDetailInfoLoad_input_text leaguetime pitcher_path_length pitcher_path fielder_path_length fielder_path)) w) (\<lambda>w1.
     Inr ((leaguetime, pitcher_path_length, pitcher_path, fielder_path_length, fielder_path, buffer_idx), w1)))"

definition PlayerDetailInfoLoad_Serialize ::
  "bool \<Rightarrow> bytes \<Rightarrow> size_t \<Rightarrow> u16 \<Rightarrow> ('h, Logger) Net \<Rightarrow> ((size_t \<times> bytes) \<times> ('h, Logger) Net) result" where
  "PlayerDetailInfoLoad_Serialize en buffer buffer_size result_value w =
     bind_result (log_call (Logger_Info (literal ''[PlayerDetailInfoLoad][OutputData] result_value['' @ int_text (uint result_value) @ literal '']'')) w) (\<lambda>w1.
     bind_result (WriteToBuffer_word 2 buffer buffer_size 0 (host_to_network_u16 en result_value))
       (\<lambda>(_, buffer_idx, buffer'). Inr ((buffer_idx, buffer'), w1)))"

definition PlayerDetailInfoLoad_ErrorResult ::
  "bool \<Rightarrow> answer_env \<Rightarrow> i16 \<Rightarrow> ('h, Logger) Net \<Rightarrow> (ResultObject \<times> ('h, Logger) Net) result" where
  "PlayerDetailInfoLoad_ErrorResult = error_result ''PlayerDetailInfoLoad''"

definition PlayerDetailInfoLoad_ProtocolProcess :: "bool \<Rightarrow> answer_env \<Rightarrow> 'h handler" where
  "PlayerDetailInfoLoad_ProtocolProcess en env buffer sz w =
     bind_result (PlayerDetailInfoLoad_Deserialize en buffer sz (ae_uninit env 0) (ucast (ae_uninit env 1)) [] (ucast (ae_uninit env 2)) [] w)
       (\<lambda>((leaguetime, pitcher_path_length, pitcher_path, fielder_path_length, fielder_path, _), w1).
          let result_value = 0
          in if sz \<noteq> 8 + 4 + scast pitcher_path_length + 4 + ucast fielder_path_length
             then bind_result (log_call (ae_LOG_ERROR env (literal ''[PlayerDetailInfoLoad] buffer Size Error'')) w1) (\<lambda>w2.
                PlayerDetailInfoLoad_ErrorResult en env result_value w2)
             else if result_value \<noteq> 1 then PlayerDetailInfoLoad_ErrorResult en env result_value w1
             else
                let response_size = 2; w2 = new_block env response_size w1; response_idx = 0
                in bind_result (PlayerDetailInfoLoad_Serialize en (n_heap w2 (ae_block env)) response_size (ucast result_value) w2)
                     (\<lambda>((response_index, contents), w3).
                   bind_result (log_call (Logger_Info (complete_text ''PlayerDetailInfoLoad'' response_idx)) w3) (\<lambda>w4.
                   Inr (response env contents response_idx w4))))"

section \<open>RequestLogin\<close>

text \<open>
  The login request of the sample client (src/testClient/RequestLogin.cpp). Its \<open>Deserialize\<close> reads
  nothing: the two sizes that \<open>ProtocolProcess\<close> compares with the size of the packet are never
  initialised.
\<close>

definition RequestLogin_Deserialize ::
  "bytes \<Rightarrow> size_t \<Rightarrow> u16 \<Rightarrow> bytes \<Rightarrow> u16 \<Rightarrow> bytes \<Rightarrow> u32 \<Rightarrow> (u16 \<times> bytes \<times> u16 \<times> bytes \<times> u32 \<times> size_t) result" where
  "RequestLogin_Deserialize buffer buffer_size sizeOfUserID strUserID sizeOfPasswd strPasswd login_flag =
     Inr (sizeOfUserID, strUserID, sizeOfPasswd, strPasswd, login_flag, 0)"

definition RequestLogin_Serialize ::
  "bool \<Rightarrow> bytes \<Rightarrow> size_t \<Rightarrow> u16 \<Rightarrow> u32 \<Rightarrow> ('h, Logger) Net \<Rightarrow> ((size_t \<times> bytes) \<times> ('h, Logger) Net) result" where
  "RequestLogin_Serialize en buffer buffer_size result_value use_memory w =
     bind_result (log_call (Logger_Info (literal ''[RequestLogin][OutputData] result_value['' @ int_text (uint result_value)
       @ literal ''], use_memory['' @ int_text (sint use_memory) @ literal '']'')) w) (\<lambda>w1.
     bind_result (WriteToBuffer_word 2 buffer buffer_size 0 (host_to_network_u16 en result_value)) (\<lambda>(_, i1, b1).
     bind_result (WriteToBuffer_word 4 b1 buffer_size i1 (host_to_network_u32 en use_memory)) (\<lambda>(_, i2, b2).
     Inr ((i2, b2), w1))))"

definition RequestLogin_ErrorResult ::
  "bool \<Rightarrow> answer_env \<Rightarrow> i16 \<Rightarrow> ('h, Logger) Net \<Rightarrow> (ResultObject \<times> ('h, Logger) Net) result" where
  "RequestLogin_ErrorResult = error_result ''RequestLogin''"

text \<open>The conversion \<open>%lu\<close> takes 32 bits with the compiler that has \<open>vsprintf_s\<close>.\<close>

definition RequestLogin_size_text :: "size_t \<Rightarrow> bytes" where
  "RequestLogin_size_text sz =
     literal ''[RequestLogin] buffer Size Error ['' @ int_text (sint (ucast sz :: i32)) @ literal '':'' @ int_text 2 @ literal '']''"

definition RequestLogin_ProtocolProcess :: "bool \<Rightarrow> answer_env \<Rightarrow> 'h handler" where
  "RequestLogin_ProtocolProcess en env buffer sz w =
     bind_result (RequestLogin_Deserialize buffer sz (ucast (ae_uninit env 0)) [] (ucast (ae_uninit env 1)) [] 0)
       (\<lambda>(sizeOfUserID, strUserID, sizeOfPasswd, strPasswd, nLoginFlag, _).
          let resultValue = 0; sizeOfProtocol = 2 + ucast sizeOfUserID + 2 + ucast sizeOfPasswd + 4 :: size_t
          in if sz \<noteq> sizeOfProtocol
             then bind_result (log_call (Logger_Error (RequestLogin_size_text sz)) w) (\<lambda>w1.
                RequestLogin_ErrorResult en env resultValue w1)
             else if resultValue \<noteq> 1 then RequestLogin_ErrorResult en env resultValue w
             else
                let response_size = 2 + 4; w1 = new_block env response_size w
                in bind_result (RequestLogin_Serialize en (n_heap w1 (ae_block env)) response_size (ucast resultValue)
                       (ucast (ae_uninit env 2)) w1) (\<lambda>((response_index, contents), w2).
                   bind_result (log_call (Logger_Info (literal ''[RequestLogin] Complete response_index[''
                     @ decimal (unat (ucast response_index :: u32)) @ literal '']'')) w2) (\<lambda>w3.
                   Inr (response env contents response_index w3))))"

section \<open>What the handlers answer\<close>

text \<open>An unsigned length of 32 bits is below the maximal string size; a signed one is when it is not negative.\<close>

lemma unat_u32_length: "unat (ucast (n :: u32) :: size_t) < 2 ^ 63"
  using unat_u32_less[of n] by (simp add: unat_size_of_u32)

text \<open>The signed length of the first path of \<open>PlayerDetailInfoLoad\<close>, when the packet holds it.\<close>

definition pitcher_length :: "bool \<Rightarrow> bytes \<Rightarrow> i32" where
  "pitcher_length en buffer = network_to_host_i32 en (le_word (take 4 (drop 8 buffer)))"

lemma PlayerDetailInfoLoad_head:
  assumes "12 \<le> unat n" and "unat n \<le> length buffer" and "length buffer < 2 ^ 63"
  shows "PlayerDetailInfoLoad_fields en buffer n u v s y t =
    bind_result (read_string buffer n 12 s (scast (pitcher_length en buffer))) (\<lambda>(pitcher_path, i3).
    bind_result (read_word (network_to_host_u32 en) 4 buffer n i3 y) (\<lambda>(fielder_path_length, i4).
    bind_result (read_string buffer n i4 t (ucast fielder_path_length)) (\<lambda>(fielder_path, i5).
    Inr (network_to_host_u64 en (le_word (take 8 buffer)), pitcher_length en buffer, pitcher_path,
      fielder_path_length, fielder_path, i5))))"
proof -
  have "read_word (network_to_host_u64 en) 8 buffer n 0 u = Inr (network_to_host_u64 en (le_word (take 8 buffer)), 8)"
    using assms by (simp add: read_word_def ReadFromBuffer_word_ok)
  moreover have "read_word (network_to_host_i32 en) 4 buffer n 8 v = Inr (pitcher_length en buffer, 12)"
    using assms by (simp add: read_word_def ReadFromBuffer_word_ok pitcher_length_def)
  ultimately show ?thesis
    by (simp add: PlayerDetailInfoLoad_fields_def)
qed

lemma unat_scast_nonneg:
  assumes "0 \<le> sint (k :: i32)"
  shows "unat (scast k :: size_t) < 2 ^ 63"
proof -
  have small: "sint k < 2 ^ 31"
    using sint_lt[of k] by simp
  then have "sint k < 2 ^ 64"
    by (rule order.strict_trans) simp
  with assms have "take_bit 64 (sint k) = sint k"
    by (rule take_bit_int_eq_self)
  then have "uint (scast k :: size_t) = sint k"
    by (simp only: scast_eq uint_word_of_int_eq len_num0 len_bit0 len_num1) simp
  moreover have "(2 ^ 31 :: int) < 2 ^ 63" by simp
  ultimately have "int (unat (scast k :: size_t)) < 2 ^ 63"
    using small unfolding uint_nat[symmetric] by linarith
  then show ?thesis
    by (simp only: of_nat_less_iff[where 'a = int, symmetric] of_nat_power of_nat_numeral)
qed

lemma unat_scast_neg:
  assumes "sint (k :: i32) < 0"
  shows "\<not> unat (scast k :: size_t) < 2 ^ 63"
proof -
  have big: "- (2 ^ 31) \<le> sint k"
    using sint_ge[of k] by simp
  have "uint (scast k :: size_t) = sint k mod 2 ^ 64"
    by (simp only: scast_eq uint_word_of_int len_num0 len_bit0 len_num1) simp
  also have "\<dots> = (sint k + 2 ^ 64) mod 2 ^ 64"
    by simp
  also have "\<dots> = sint k + 2 ^ 64"
    using assms big by (intro mod_pos_pos_trivial) simp_all
  finally have "int (2 ^ 63) \<le> int (unat (scast k :: size_t))"
    using big unfolding uint_nat[symmetric] by simp
  then show ?thesis
    unfolding of_nat_le_iff by simp
qed

lemma PlayerDetailInfoLoad_reads:
  assumes "cursor_ok buffer n 0" and "12 \<le> unat n" and "0 \<le> sint (pitcher_length en buffer)"
  shows "\<exists>r. PlayerDetailInfoLoad_fields en buffer n u v s y t = Inr r"
proof -
  have start: "cursor_ok buffer n 12" and ok: "unat n \<le> length buffer" "length buffer < 2 ^ 63"
    using assms(1,2) by (simp_all add: cursor_ok_def)
  show ?thesis
    unfolding PlayerDetailInfoLoad_head[OF assms(2) ok]
    using start
    by (rule bind_read_string) (rule unat_scast_nonneg[OF assms(3)], simp only: prod.case,
      (((rule bind_read_word, assumption, simp, simp)
        | (rule bind_read_string, assumption, rule unat_u32_length)), simp only: prod.case)+, blast)
qed

lemmas Process_defs = LeagueTimeSet_ProtocolProcess_def StatusInfomation_ProtocolProcess_def
  PlayerDetailInfoPassing_ProtocolProcess_def AnimationInfoPassing_ProtocolProcess_def
  AnimationInfoLoad_ProtocolProcess_def PlayerDetailInfoLoad_ProtocolProcess_def
  LeagueTimeSet_Deserialize_def StatusInfomation_Deserialize_def
  PlayerDetailInfoPassing_Deserialize_def AnimationInfoPassing_Deserialize_def
  AnimationInfoLoad_Deserialize_def PlayerDetailInfoLoad_Deserialize_def
  LeagueTimeSet_ErrorResult_def StatusInfomation_ErrorResult_def
  PlayerDetailInfoPassing_ErrorResult_def AnimationInfoPassing_ErrorResult_def
  AnimationInfoLoad_ErrorResult_def PlayerDetailInfoLoad_ErrorResult_def

lemma bind_result_assoc: "bind_result (bind_result r f) g = bind_result r (\<lambda>x. bind_result (f x) g)"
  by (cases r) simp_all

lemma bind_result_if: "bind_result (if b then Inr x else r) k = (if \<not> b then bind_result r k else k x)"
  by simp

text \<open>Six of the classes are handlers of one kind, which differ in what they read and in the size they expect.\<close>

interpretation league_time: zero_handler "''LeagueTimeSet''" LeagueTimeSet_ProtocolProcess
    "\<lambda>en env buffer n. bind_result (LeagueTimeSet_fields en buffer n (ae_uninit env 0))
      (\<lambda>(leaguetime, _). Inr (LeagueTimeSet_input_text leaguetime, n = 8))"
  by unfold_locales (simp_all add: Process_defs bind_result_assoc split_beta Let_def size_error_text_def bind_result_if cong: if_cong)

interpretation status_info: zero_handler "''StatusInfomation''" StatusInfomation_ProtocolProcess
    "\<lambda>en env buffer n. bind_result (StatusInfomation_fields en buffer n (ucast (ae_uninit env 0)))
      (\<lambda>(infomation_no, _). Inr (StatusInfomation_input_text infomation_no, n = 4))"
  by unfold_locales (simp_all add: Process_defs bind_result_assoc split_beta Let_def size_error_text_def bind_result_if cong: if_cong)

interpretation detail_passing: zero_handler "''PlayerDetailInfoPassing''" PlayerDetailInfoPassing_ProtocolProcess
    "\<lambda>en env buffer n. bind_result (PlayerDetailInfoPassing_fields en buffer n (ae_uninit env 0) (ucast (ae_uninit env 1)))
      (\<lambda>(user_uid, player_type, _). Inr (PlayerDetailInfoPassing_input_text user_uid player_type, n = 8 + 1))"
  by unfold_locales (simp_all add: Process_defs bind_result_assoc split_beta Let_def size_error_text_def bind_result_if cong: if_cong)

interpretation animation_passing: zero_handler "''AnimationInfoPassing''" AnimationInfoPassing_ProtocolProcess
    "\<lambda>en env buffer n. bind_result (AnimationInfoPassing_fields en buffer n (ae_uninit env 0) (ae_uninit env 1) (ucast (ae_uninit env 2)))
      (\<lambda>(user_uid, leaguetime, league_no, _). Inr (AnimationInfoPassing_input_text user_uid leaguetime league_no, n = 8 + 8 + 4))"
  by unfold_locales (simp_all add: Process_defs bind_result_assoc split_beta Let_def size_error_text_def bind_result_if cong: if_cong)

interpretation animation_load: zero_handler "''AnimationInfoLoad''" AnimationInfoLoad_ProtocolProcess
    "\<lambda>en env buffer n. bind_result (AnimationInfoLoad_fields en buffer n (ae_uninit env 0) (ucast (ae_uninit env 1))
        (ucast (ae_uninit env 2)) [] (ucast (ae_uninit env 3)) [])
      (\<lambda>(leaguetime, league_no, post_path_length, post_path, regular_path_length, regular_path, _). Inr (AnimationInfoLoad_input_text leaguetime league_no post_path_length post_path regular_path_length regular_path, n = 8 + 4 + 4 + ucast post_path_length + 4 + ucast regular_path_length))"
  by unfold_locales (simp_all add: Process_defs bind_result_assoc split_beta Let_def size_error_text_def bind_result_if cong: if_cong)

interpretation detail_load: zero_handler "''PlayerDetailInfoLoad''" PlayerDetailInfoLoad_ProtocolProcess
    "\<lambda>en env buffer n. bind_result (PlayerDetailInfoLoad_fields en buffer n (ae_uninit env 0) (ucast (ae_uninit env 1)) []
        (ucast (ae_uninit env 2)) [])
      (\<lambda>(leaguetime, pitcher_path_length, pitcher_path, fielder_path_length, fielder_path, _). Inr (PlayerDetailInfoLoad_input_text leaguetime pitcher_path_length pitcher_path fielder_path_length fielder_path, n = 8 + 4 + scast pitcher_path_length + 4 + ucast fielder_path_length))"
  by unfold_locales (simp_all add: Process_defs bind_result_assoc split_beta Let_def size_error_text_def bind_result_if cong: if_cong)

text \<open>The login request logs nothing of what it reads and reports a wrong size to the logger itself.\<close>

lemma request_login_outcome:
  assumes "lg_pLogger (n_user w)"
  shows "RequestLogin_ProtocolProcess en env buffer n w = Inr (zero_answer ''RequestLogin'' env
    (if n = 2 + ucast (ucast (ae_uninit env 0) :: u16) + 2 + ucast (ucast (ae_uninit env 1) :: u16) + 4 then w
     else w\<lparr>n_user := logged ERROR (RequestLogin_size_text n) (n_user w)\<rparr>))"
proof -
  have "length (RequestLogin_size_text n) < 1024"
    using length_int_text_word(2)[of "ucast n"] by (simp add: RequestLogin_size_text_def int_text_def decimal.simps)
  with assms show ?thesis
    by (simp add: RequestLogin_ProtocolProcess_def RequestLogin_Deserialize_def RequestLogin_ErrorResult_def
        error_result_zero log_call_simps Let_def)
qed

section \<open>What the handlers of fixed size log\<close>

text \<open>The text of a request, given what the variables hold that the packet is too short for.\<close>

definition LeagueTimeSet_seen :: "bool \<Rightarrow> answer_env \<Rightarrow> bytes \<Rightarrow> size_t \<Rightarrow> bytes" where
  "LeagueTimeSet_seen en env buffer n =
     LeagueTimeSet_input_text (fst (peek (network_to_host_u64 en) 8 buffer n 0 (ae_uninit env 0)))"

definition StatusInfomation_seen :: "bool \<Rightarrow> answer_env \<Rightarrow> bytes \<Rightarrow> size_t \<Rightarrow> bytes" where
  "StatusInfomation_seen en env buffer n =
     StatusInfomation_input_text (fst (peek (network_to_host_i32 en) 4 buffer n 0 (ucast (ae_uninit env 0))))"

definition PlayerDetailInfoPassing_seen :: "bool \<Rightarrow> answer_env \<Rightarrow> bytes \<Rightarrow> size_t \<Rightarrow> bytes" where
  "PlayerDetailInfoPassing_seen en env buffer n =
     (let (user_uid, i1) = peek (network_to_host_u64 en) 8 buffer n 0 (ae_uninit env 0)
      in PlayerDetailInfoPassing_input_text user_uid (fst (peek (\<lambda>c. c) 1 buffer n i1 (ucast (ae_uninit env 1)))))"

definition AnimationInfoPassing_seen :: "bool \<Rightarrow> answer_env \<Rightarrow> bytes \<Rightarrow> size_t \<Rightarrow> bytes" where
  "AnimationInfoPassing_seen en env buffer n =
     (let (user_uid, i1) = peek (network_to_host_u64 en) 8 buffer n 0 (ae_uninit env 0);
          (leaguetime, i2) = peek (network_to_host_u64 en) 8 buffer n i1 (ae_uninit env 1)
      in AnimationInfoPassing_input_text user_uid leaguetime
           (fst (peek (network_to_host_u32 en) 4 buffer n i2 (ucast (ae_uninit env 2)))))"

lemma input_text_fits:
  "length (LeagueTimeSet_input_text a) < 1024" "length (StatusInfomation_input_text b) < 1024"
  "length (PlayerDetailInfoPassing_input_text a c) < 1024" "length (AnimationInfoPassing_input_text a d b) < 1024"
proof -
  have "length (c_str s) < 1024" if "length s < 1024" for s
    using that length_takeWhile_le[of "\<lambda>c. c \<noteq> 0" s] by (simp add: c_str_def)
  then show "length (PlayerDetailInfoPassing_input_text a c) < 1024"
    using length_int_text_word(3)[of a] by (simp add: PlayerDetailInfoPassing_input_text_def)
  show "length (LeagueTimeSet_input_text a) < 1024" "length (StatusInfomation_input_text b) < 1024"
    "length (AnimationInfoPassing_input_text a d b) < 1024"
    using length_int_text_word(3)[of a] length_int_text_word(2)[of b] length_int_text_word(3)[of d]
    by (simp_all add: LeagueTimeSet_input_text_def StatusInfomation_input_text_def AnimationInfoPassing_input_text_def)
qed

lemma seen_fits:
  "length (LeagueTimeSet_seen en env buffer n) < 1024" "length (StatusInfomation_seen en env buffer n) < 1024"
  "length (PlayerDetailInfoPassing_seen en env buffer n) < 1024" "length (AnimationInfoPassing_seen en env buffer n) < 1024"
  by (simp_all add: LeagueTimeSet_seen_def StatusInfomation_seen_def PlayerDetailInfoPassing_seen_def
      AnimationInfoPassing_seen_def input_text_fits split_beta Let_def)

lemma fields_seen:
  assumes start: "cursor_ok buffer n 0"
  shows "bind_result (LeagueTimeSet_fields en buffer n (ae_uninit env 0))
      (\<lambda>(leaguetime, _). Inr (LeagueTimeSet_input_text leaguetime, ok)) = Inr (LeagueTimeSet_seen en env buffer n, ok)"
    and "bind_result (StatusInfomation_fields en buffer n (ucast (ae_uninit env 0)))
      (\<lambda>(infomation_no, _). Inr (StatusInfomation_input_text infomation_no, ok)) = Inr (StatusInfomation_seen en env buffer n, ok)"
    and "bind_result (PlayerDetailInfoPassing_fields en buffer n (ae_uninit env 0) (ucast (ae_uninit env 1)))
      (\<lambda>(user_uid, player_type, _). Inr (PlayerDetailInfoPassing_input_text user_uid player_type, ok))
      = Inr (PlayerDetailInfoPassing_seen en env buffer n, ok)"
    and "bind_result (AnimationInfoPassing_fields en buffer n (ae_uninit env 0) (ae_uninit env 1) (ucast (ae_uninit env 2)))
      (\<lambda>(user_uid, leaguetime, league_no, _). Inr (AnimationInfoPassing_input_text user_uid leaguetime league_no, ok))
      = Inr (AnimationInfoPassing_seen en env buffer n, ok)"
proof -
  note r0 = read_word_peek[OF start]
  note r1 = read_word_peek[OF r0(2)]
  note r2 = read_word_peek[OF r1(2)]
  show "bind_result (LeagueTimeSet_fields en buffer n (ae_uninit env 0))
      (\<lambda>(leaguetime, _). Inr (LeagueTimeSet_input_text leaguetime, ok)) = Inr (LeagueTimeSet_seen en env buffer n, ok)"
    by (simp add: LeagueTimeSet_fields_def LeagueTimeSet_seen_def r0(1) split_beta)
  show "bind_result (StatusInfomation_fields en buffer n (ucast (ae_uninit env 0)))
      (\<lambda>(infomation_no, _). Inr (StatusInfomation_input_text infomation_no, ok)) = Inr (StatusInfomation_seen en env buffer n, ok)"
    by (simp add: StatusInfomation_fields_def StatusInfomation_seen_def r0(1) split_beta)
  show "bind_result (PlayerDetailInfoPassing_fields en buffer n (ae_uninit env 0) (ucast (ae_uninit env 1)))
      (\<lambda>(user_uid, player_type, _). Inr (PlayerDetailInfoPassing_input_text user_uid player_type, ok))
      = Inr (PlayerDetailInfoPassing_seen en env buffer n, ok)"
    by (simp add: PlayerDetailInfoPassing_fields_def PlayerDetailInfoPassing_seen_def r0(1) r1(1) split_beta)
  show "bind_result (AnimationInfoPassing_fields en buffer n (ae_uninit env 0) (ae_uninit env 1) (ucast (ae_uninit env 2)))
      (\<lambda>(user_uid, leaguetime, league_no, _). Inr (AnimationInfoPassing_input_text user_uid leaguetime league_no, ok))
      = Inr (AnimationInfoPassing_seen en env buffer n, ok)"
    by (simp add: AnimationInfoPassing_fields_def AnimationInfoPassing_seen_def r0(1) r1(1) r2(1) split_beta)
qed

section \<open>Properties\<close>

text \<open>
  C36. The four handlers for requests of a fixed size read the request, log it, compare the size of the
  packet with the size of their fields, report a different size with \<open>LOG_ERROR\<close>, and answer, in both
  cases, with two zero bytes in a new block of two bytes and a line in the log that names the class. For a
  packet of the right size the logged values are those of the packet; fields that a shorter packet does not
  hold are logged as their variables were. The fields always fit the logger's buffer, so with a logger
  nothing faults but what \<open>LOG_ERROR\<close>, which nothing in the repository defines, may do.
\<close>

theorem protocol_handlers_check_size:
  assumes "(process, name, k, seen) \<in>
      {(LeagueTimeSet_ProtocolProcess, ''LeagueTimeSet'', 8, LeagueTimeSet_seen),
       (StatusInfomation_ProtocolProcess, ''StatusInfomation'', 4, StatusInfomation_seen),
       (PlayerDetailInfoPassing_ProtocolProcess, ''PlayerDetailInfoPassing'', 9, PlayerDetailInfoPassing_seen),
       (AnimationInfoPassing_ProtocolProcess, ''AnimationInfoPassing'', 20, AnimationInfoPassing_seen)}"
    and "unat n \<le> length buffer" and "length buffer < 2 ^ 63" and "lg_pLogger (n_user w)"
  shows "process en env buffer n w =
    (let l = logged INFO (seen en env buffer n) (n_user w)
     in if n = k then Inr (zero_answer name env (w\<lparr>n_user := l\<rparr>))
        else case ae_LOG_ERROR env (size_error_text name) l of
            Inl f \<Rightarrow> Inl f
          | Inr l' \<Rightarrow> if lg_pLogger l' then Inr (zero_answer name env (w\<lparr>n_user := l'\<rparr>)) else Inl Null_Pointer)"
proof -
  note start = cursor_ok_start[OF assms(2,3)]
  note outcomes = league_time.outcome[OF fields_seen(1)[OF start] assms(4) seen_fits(1), of en env]
    status_info.outcome[OF fields_seen(2)[OF start] assms(4) seen_fits(2), of en env]
    detail_passing.outcome[OF fields_seen(3)[OF start] assms(4) seen_fits(3), of en env]
    animation_passing.outcome[OF fields_seen(4)[OF start] assms(4) seen_fits(4), of en env]
  from assms(1) show ?thesis
    by (elim insertE emptyE) (simp_all only: prod.inject outcomes numeral_plus_numeral semiring_norm one_plus_numeral numeral_plus_one)
qed

definition sample_answer_env :: answer_env where
  "sample_answer_env = \<lparr>ae_block = 3, ae_junk = [], ae_uninit = (\<lambda>_. 0), ae_info = [], ae_LOG_ERROR = Logger_Error\<rparr>"

definition logger_net :: "(unit, Logger) Net" where
  "logger_net = \<lparr>n_sessions = (\<lambda>_. AsyncSessionImpl_new () 32768 0), n_pool = Pool_new 4, n_heap = (\<lambda>_. []), n_coroutines = [],
     n_packetQueue = [], n_writes = [], n_wire = [], n_log = [], n_accepting = None, n_user = Logger_Create True Logger_new\<rparr>"

text \<open>A league time of the right size, and a status request that is too short.\<close>

theorem protocol_handlers_check_size_witness:
  "(\<exists>w'. LeagueTimeSet_ProtocolProcess False sample_answer_env [7, 0, 0, 0, 0, 0, 0, 0] 8 logger_net = Inr ((3, 2), w')
      \<and> n_heap w' 3 = [0, 0]
      \<and> lg_out (n_user w') = [(INFO, Narrow (LeagueTimeSet_input_text 7)), (ERROR, Narrow (error_text ''LeagueTimeSet'' 0))])
   \<and> (\<exists>w'. StatusInfomation_ProtocolProcess False sample_answer_env [1, 2, 3] 3 logger_net = Inr ((3, 2), w')
      \<and> n_heap w' 3 = [0, 0]
      \<and> lg_out (n_user w') = [(INFO, Narrow (StatusInfomation_input_text 0)),
          (ERROR, Narrow (size_error_text ''StatusInfomation'')), (ERROR, Narrow (error_text ''StatusInfomation'' 0))])"
proof -
  have net: "lg_pLogger (n_user logger_net)" "lg_out (n_user logger_net) = []"
    by (simp_all add: logger_net_def Logger_Create_def Logger_new_def)
  have env: "ae_block sample_answer_env = 3" "ae_LOG_ERROR sample_answer_env = Logger_Error"
    by (simp_all add: sample_answer_env_def)
  have seen: "LeagueTimeSet_seen False sample_answer_env [7, 0, 0, 0, 0, 0, 0, 0] 8 = LeagueTimeSet_input_text 7"
    "StatusInfomation_seen False sample_answer_env [1, 2, 3] 3 = StatusInfomation_input_text 0"
    by (simp_all add: LeagueTimeSet_seen_def StatusInfomation_seen_def peek_def byte_order_defs sample_answer_env_def le_word_def)
  have "Logger_Error (size_error_text ''StatusInfomation'') l = Inr (logged ERROR (size_error_text ''StatusInfomation'') l)"
    if "lg_pLogger l" for l
    using that by (simp add: log_error.log_ok logged_def size_error_text_def)
  then show ?thesis
    using protocol_handlers_check_size[of LeagueTimeSet_ProtocolProcess "''LeagueTimeSet''" 8 LeagueTimeSet_seen 8
        "[7, 0, 0, 0, 0, 0, 0, 0]" logger_net False sample_answer_env]
      protocol_handlers_check_size[of StatusInfomation_ProtocolProcess "''StatusInfomation''" 4 StatusInfomation_seen 3
        "[1, 2, 3]" logger_net False sample_answer_env] net
    by (simp add: seen env zero_answer_def Let_def) (simp add: logged_def)
qed

text \<open>
  C37. \<open>PlayerDetailInfoLoad\<close> reads the length of its first path as a signed integer. For a packet that
  holds it, the handler ends with the exception of a resize beyond the maximal string size exactly when
  that length is negative, if \<open>LOG_ERROR\<close> does not end with it.
\<close>

theorem player_detail_load_fails_iff:
  assumes "12 \<le> unat n" and "unat n \<le> length buffer" and "length buffer < 2 ^ 63"
    and "\<And>text l. ae_LOG_ERROR env text l \<noteq> Inl Length_Error"
  shows "PlayerDetailInfoLoad_ProtocolProcess en env buffer n w = Inl Length_Error \<longleftrightarrow> sint (pitcher_length en buffer) < 0"
proof (cases "sint (pitcher_length en buffer) < 0")
  case False
  then obtain r where "PlayerDetailInfoLoad_fields en buffer n (ae_uninit env 0) (ucast (ae_uninit env 1)) []
      (ucast (ae_uninit env 2)) [] = Inr r"
    using PlayerDetailInfoLoad_reads[OF cursor_ok_start[OF assms(2,3)] assms(1), of en "ae_uninit env 0"
        "ucast (ae_uninit env 1)" "[]" "ucast (ae_uninit env 2)" "[]"] by auto
  then show ?thesis
    using False assms(4) detail_load.other_faults[where f = Length_Error and en = en and env = env and buffer = buffer and n = n and w = w] by (cases r) simp
next
  case True
  then have "\<not> unat (scast (pitcher_length en buffer) :: size_t) < 2 ^ 63"
    by (rule unat_scast_neg)
  then have "read_string buffer n 12 s (scast (pitcher_length en buffer)) = Inl Length_Error" for s
    by (simp add: read_string_def string_resize_def)
  then show ?thesis
    using True by (simp add: detail_load.process PlayerDetailInfoLoad_head[OF assms(1-3)])
qed

theorem player_detail_load_fails_iff_witness:
  "PlayerDetailInfoLoad_ProtocolProcess False sample_answer_env [0, 0, 0, 0, 0, 0, 0, 0, 255, 255, 255, 255] 12 logger_net
    = Inl Length_Error"
proof -
  have "pitcher_length False [0, 0, 0, 0, 0, 0, 0, 0, 255, 255, 255, 255] = - 1"
    by (simp add: pitcher_length_def byte_order_defs le_word_def)
  then show ?thesis
    using player_detail_load_fails_iff[of 12 "[0, 0, 0, 0, 0, 0, 0, 0, 255, 255, 255, 255]" sample_answer_env False logger_net]
    by (simp add: sample_answer_env_def Logger_Error_def vsprintf_s_def LOG4CXX_def)
qed

text \<open>A request as a client encodes it: integers in network byte order, each path after its length.\<close>

definition animation_request :: "bool \<Rightarrow> u64 \<Rightarrow> u32 \<Rightarrow> bytes \<Rightarrow> bytes \<Rightarrow> bytes" where
  "animation_request en leaguetime league_no post_path regular_path =
     le_bytes 8 (host_to_network_u64 en leaguetime) @ le_bytes 4 (host_to_network_u32 en league_no)
     @ le_bytes 4 (host_to_network_u32 en (of_nat (length post_path))) @ post_path
     @ le_bytes 4 (host_to_network_u32 en (of_nat (length regular_path))) @ regular_path"

lemma ucast_length_u32:
  "length p < 2 ^ 32 \<Longrightarrow> (ucast (of_nat (length p) :: u32) :: size_t) = of_nat (length p)"
  by (simp add: word_unat_eq_iff unat_size_of_u32 unat_of_nat_size unat_of_nat)

text \<open>The six reads of a packet with the layout of such a request, one after the other.\<close>

lemma animation_layout_reads:
  fixes e1 :: u64 and e2 e3 e4 :: u32
  assumes parts: "request = le_bytes 8 e1 @ le_bytes 4 e2 @ le_bytes 4 e3 @ p @ le_bytes 4 e4 @ q"
    and small: "length request < 2 ^ 63"
  shows "read_word f 8 request (of_nat (length request)) 0 u = Inr (f e1, of_nat 8)"
    and "read_word g 4 request (of_nat (length request)) (of_nat 8) v = Inr (g e2, of_nat 12)"
    and "read_word g 4 request (of_nat (length request)) (of_nat 12) v = Inr (g e3, of_nat 16)"
    and "read_string request (of_nat (length request)) (of_nat 16) s (of_nat (length p)) = Inr (p, of_nat (16 + length p))"
    and "read_word g 4 request (of_nat (length request)) (of_nat (16 + length p)) v
      = Inr (g e4, of_nat (20 + length p))"
    and "read_string request (of_nat (length request)) (of_nat (20 + length p)) s (of_nat (length q))
      = Inr (q, of_nat (length request))"
proof -
  have splits:
    "request = [] @ le_bytes 8 e1 @ (le_bytes 4 e2 @ le_bytes 4 e3 @ p @ le_bytes 4 e4 @ q)"
    "request = le_bytes 8 e1 @ le_bytes 4 e2 @ (le_bytes 4 e3 @ p @ le_bytes 4 e4 @ q)"
    "request = (le_bytes 8 e1 @ le_bytes 4 e2) @ le_bytes 4 e3 @ (p @ le_bytes 4 e4 @ q)"
    "request = (le_bytes 8 e1 @ le_bytes 4 e2 @ le_bytes 4 e3) @ p @ le_bytes 4 e4 @ q"
    "request = (le_bytes 8 e1 @ le_bytes 4 e2 @ le_bytes 4 e3 @ p) @ le_bytes 4 e4 @ q"
    "request = (le_bytes 8 e1 @ le_bytes 4 e2 @ le_bytes 4 e3 @ p @ le_bytes 4 e4) @ q @ []"
    by (simp_all only: parts append_assoc append_Nil append_Nil2)
  have "length request = 20 + length p + length q"
    by (simp add: parts del: le_bytes.simps)
  then show "read_word f 8 request (of_nat (length request)) 0 u = Inr (f e1, of_nat 8)"
    "read_word g 4 request (of_nat (length request)) (of_nat 8) v = Inr (g e2, of_nat 12)"
    "read_word g 4 request (of_nat (length request)) (of_nat 12) v = Inr (g e3, of_nat 16)"
    "read_string request (of_nat (length request)) (of_nat 16) s (of_nat (length p)) = Inr (p, of_nat (16 + length p))"
    "read_word g 4 request (of_nat (length request)) (of_nat (16 + length p)) v = Inr (g e4, of_nat (20 + length p))"
    "read_string request (of_nat (length request)) (of_nat (20 + length p)) s (of_nat (length q))
      = Inr (q, of_nat (length request))"
    using read_word_field[OF splits(1) small, of f u] read_word_field[OF splits(2) small, of g v]
      read_word_field[OF splits(3) small, of g v] read_string_field[OF splits(4) small refl, of s]
      read_word_field[OF splits(5) small, of g v] read_string_field[OF splits(6) small refl, of s]
    by (simp_all add: add.assoc del: le_bytes.simps)
qed

lemma animation_request_fields:
  fixes en :: bool and leaguetime :: u64 and league_no :: u32
  assumes "length post_path < 2 ^ 32" and "length regular_path < 2 ^ 32"
  defines "request \<equiv> animation_request en leaguetime league_no post_path regular_path"
  shows "AnimationInfoLoad_fields en request (of_nat (length request)) u v x s y t
    = Inr (leaguetime, league_no, of_nat (length post_path), post_path, of_nat (length regular_path), regular_path,
        of_nat (length request))"
proof -
  have "length request < 2 ^ 63"
    using assms(1,2) by (simp add: request_def animation_request_def del: le_bytes.simps)
  note reads = animation_layout_reads[OF request_def[THEN meta_eq_to_obj_eq, unfolded animation_request_def] this]
  show ?thesis
    unfolding AnimationInfoLoad_fields_def
    by (simp only: reads bo_u64.ntoh_hton bo_u32.ntoh_hton ucast_length_u32[OF assms(1)]
        ucast_length_u32[OF assms(2)] bind_result_simps prod.case)
qed

text \<open>
  C25. \<open>AnimationInfoLoad::Deserialize\<close> on a request as a client encodes it, with and without the byte
  order conversions. It reads back both integers, both paths with their lengths, and every byte of the
  packet, and then logs them: if the text is shorter than the 1024 characters of the logger's buffer, the
  fields are returned and the log has one more line; if not, the program ends, whatever was read.
\<close>

theorem animation_request_read_back:
  fixes en :: bool and leaguetime :: u64 and league_no :: u32
  assumes "length post_path < 2 ^ 32" and "length regular_path < 2 ^ 32" and "lg_pLogger (n_user w)"
  defines "request \<equiv> animation_request en leaguetime league_no post_path regular_path"
    and "line \<equiv> AnimationInfoLoad_input_text leaguetime league_no (of_nat (length post_path)) post_path
      (of_nat (length regular_path)) regular_path"
  shows "AnimationInfoLoad_Deserialize en request (of_nat (length request)) u v x s y t w
    = (if length line < 1024
       then Inr ((leaguetime, league_no, of_nat (length post_path), post_path, of_nat (length regular_path), regular_path,
          of_nat (length request)), w\<lparr>n_user := logged INFO line (n_user w)\<rparr>)
       else Inl Out_Of_Bounds)"
  using assms(3) unfolding request_def line_def AnimationInfoLoad_Deserialize_def animation_request_fields[OF assms(1,2)]
  by (simp add: log_call_simps)

text \<open>Two short paths, and a path that is too long for the logger.\<close>

theorem animation_request_read_back_witness:
  "AnimationInfoLoad_Deserialize True (animation_request True 7 9 [65, 66] [67]) 23 0 0 0 [] 0 [] logger_net
     = Inr ((7, 9, 2, [65, 66], 1, [67], 23),
         logger_net\<lparr>n_user := logged INFO (AnimationInfoLoad_input_text 7 9 2 [65, 66] 1 [67]) (n_user logger_net)\<rparr>)
   \<and> AnimationInfoLoad_Deserialize True (animation_request True 7 9 (replicate 1024 65) [67]) 1045 0 0 0 [] 0 [] logger_net
     = Inl Out_Of_Bounds"
proof -
  have net: "lg_pLogger (n_user logger_net)"
    by (simp add: logger_net_def Logger_Create_def Logger_new_def)
  have lines: "length (AnimationInfoLoad_input_text 7 9 2 [65, 66] 1 [67]) < 1024"
    "\<not> length (AnimationInfoLoad_input_text 7 9 1024 (replicate 1024 65) 1 [67]) < 1024"
    using length_int_text_word(3)[of 7] length_int_text_word(2)[of 9] length_int_text_word(2)[of 2] length_int_text_word(2)[of 1]
    by (simp_all add: AnimationInfoLoad_input_text_def c_str_id)
  show ?thesis
    using animation_request_read_back[of "[65, 66]" "[67]" logger_net True 7 9 0 0 0 "[]" 0 "[]"]
      animation_request_read_back[of "replicate 1024 65" "[67]" logger_net True 7 9 0 0 0 "[]" 0 "[]"] net lines
    by (simp add: animation_request_def del: le_bytes.simps bind_result_simps)
qed

text \<open>
  So a request that names a path of 1024 or more characters, which is well within the size of a packet, ends
  the server, whatever the rest of the request and the state of the logger.
\<close>

lemma long_path_ends_server:
  fixes en :: bool and leaguetime :: u64 and league_no :: u32
  assumes "1024 \<le> length post_path" and "0 \<notin> set post_path" and "length post_path < 2 ^ 32"
    and "length regular_path < 2 ^ 32"
  defines "request \<equiv> animation_request en leaguetime league_no post_path regular_path"
  shows "AnimationInfoLoad_ProtocolProcess en env request (of_nat (length request)) w = Inl Out_Of_Bounds"
proof (rule animation_load.too_long)
  show "1024 \<le> length (AnimationInfoLoad_input_text leaguetime league_no (of_nat (length post_path)) post_path
      (of_nat (length regular_path)) regular_path)"
    using assms(1) by (simp add: AnimationInfoLoad_input_text_def c_str_id[OF assms(2)])
qed (simp only: request_def animation_request_fields[OF assms(3,4)] bind_result_simps prod.case)

end
