(* ===== verification/Redis_Connector.thy ===== *)
theory Redis_Connector
  imports Sync_Session Map_Container
begin

text \<open>
  The redis client (include/db/redis_connector.h, src/lib/redis_connector.cpp): a
  \<open>SyncSessionImpl\<close> without header class whose virtual functions \<open>EndpointSet\<close> and \<open>Paser\<close> are
  replaced. A pointer into the receive buffer is a position in it; the C library functions that look
  for a zero byte fault when they reach the end of the buffer.
\<close>

section \<open>The C library\<close>

text \<open>\<open>strstr\<close> with the two bytes CR LF, and \<open>strlen\<close>, of the string that starts a list of bytes.\<close>

fun strstr_identifier :: "bytes \<Rightarrow> (nat option) result" where
  "strstr_identifier [] = Inl Out_Of_Bounds"
| "strstr_identifier [c] = (if c = 0 then Inr None else Inl Out_Of_Bounds)"
| "strstr_identifier (c # d # cs) =
     (if c = 0 then Inr None
      else if c = 13 \<and> d = 10 then Inr (Some 0)
      else bind_result (strstr_identifier (d # cs)) (\<lambda>r. Inr (map_option Suc r)))"

fun strlen :: "bytes \<Rightarrow> nat result" where
  "strlen [] = Inl Out_Of_Bounds"
| "strlen (c # cs) = (if c = 0 then Inr 0 else bind_result (strlen cs) (\<lambda>n. Inr (Suc n)))"

text \<open>\<open>atoi\<close>: white space, a sign, digits. A value out of range is replaced by the nearest one.\<close>

definition is_digit :: "u8 \<Rightarrow> bool" where
  "is_digit c \<longleftrightarrow> 48 \<le> c \<and> c \<le> 57"

definition is_space :: "u8 \<Rightarrow> bool" where
  "is_space c \<longleftrightarrow> c = 32 \<or> (9 \<le> c \<and> c \<le> 13)"

fun digits_value :: "int \<Rightarrow> bytes \<Rightarrow> int" where
  "digits_value acc [] = acc"
| "digits_value acc (c # cs) = (if is_digit c then digits_value (acc * 10 + (uint c - 48)) cs else acc)"

definition saturate :: "int \<Rightarrow> i32" where
  "saturate v = word_of_int (max (- (2 ^ 31)) (min (2 ^ 31 - 1) v))"

definition atoi :: "bytes \<Rightarrow> i32" where
  "atoi num =
     saturate (case dropWhile is_space num of
        [] \<Rightarrow> 0
      | c # cs \<Rightarrow> if c = 45 then - digits_value 0 cs
                  else if c = 43 then digits_value 0 cs
                  else digits_value 0 (c # cs))"

section \<open>The connector\<close>

definition RC_ERROR :: u8 where "RC_ERROR = 45"
definition RC_INLINE :: u8 where "RC_INLINE = 43"
definition RC_BULK :: u8 where "RC_BULK = 36"
definition RC_MULTIBULK :: u8 where "RC_MULTIBULK = 42"
definition RC_INT :: u8 where "RC_INT = 58"
definition RC_IDENTIFIER :: bytes where "RC_IDENTIFIER = [13, 10]"

text \<open>The member functions that are bound to the connector and stored in the container.\<close>

datatype ProcessFunc = Error_Func | Inline_Func | Bulk_Func | MultiBulk_Func | Int_Func

text \<open>\<open>rc_functionContainer\<close> is a shared pointer: \<open>None\<close> is the null pointer.\<close>

record RedisConnector =
  rc_session :: "unit SyncSessionImpl"
  rc_error :: bytes
  rc_inline :: bytes
  rc_bulk :: bytes
  rc_multiBulk :: "bytes list"
  rc_int :: i32
  rc_functionContainer :: "((u8, ProcessFunc) container) option"

definition container_Insert :: "u8 \<Rightarrow> ProcessFunc \<Rightarrow> RedisConnector \<Rightarrow> RedisConnector result" where
  "container_Insert k f s =
     (case rc_functionContainer s of
        None \<Rightarrow> Inl Null_Pointer
      | Some c \<Rightarrow> Inr (s\<lparr>rc_functionContainer := Some (snd (Insert c k f))\<rparr>))"

definition ProcessFuncRegister :: "RedisConnector \<Rightarrow> RedisConnector result" where
  "ProcessFuncRegister s =
     bind_result (container_Insert RC_ERROR Error_Func s) (\<lambda>s.
     bind_result (container_Insert RC_INLINE Inline_Func s) (\<lambda>s.
     bind_result (container_Insert RC_BULK Bulk_Func s) (\<lambda>s.
     bind_result (container_Insert RC_MULTIBULK MultiBulk_Func s) (\<lambda>s.
     container_Insert RC_INT Int_Func s))))"

definition RedisConnector_Initialize :: "RedisConnector \<Rightarrow> RedisConnector result" where
  "RedisConnector_Initialize s = ProcessFuncRegister s"

text \<open>The members before the body of a constructor runs.\<close>

definition redis_members :: "timeval \<Rightarrow> timeval \<Rightarrow> RedisConnector" where
  "redis_members u v =
     \<lparr>rc_session = SyncSessionImpl_new u v (), rc_error = [], rc_inline = [], rc_bulk = [], rc_multiBulk = [],
      rc_int = 0, rc_functionContainer = None\<rparr>"

definition RedisConnector_new :: "timeval \<Rightarrow> timeval \<Rightarrow> RedisConnector result" where
  "RedisConnector_new u v = RedisConnector_Initialize (redis_members u v)"

definition EndpointSet :: "string \<Rightarrow> string \<Rightarrow> string \<times> string" where
  "EndpointSet ipaddress port =
     (let port1 = (if ipaddress = ''0'' then ''127.0.0.1'' else port)
      in (ipaddress, if port1 = ''0'' then ''6379'' else port1))"

text \<open>\<open>resolve\<close> and \<open>dial\<close>: what the resolver and the network make of an address.\<close>

definition RedisConnector_new_connect ::
  "(string \<Rightarrow> string \<Rightarrow> bool) \<Rightarrow> (string \<Rightarrow> string \<Rightarrow> sock option) \<Rightarrow> string \<Rightarrow> string \<Rightarrow> timeval
     \<Rightarrow> timeval \<Rightarrow> timeval \<Rightarrow> RedisConnector result" where
  "RedisConnector_new_connect resolve dial host port timeout u v =
     bind_result (RedisConnector_Initialize (redis_members u v)) (\<lambda>s.
       let k = SetRecvTimeout timeout (SetSendTimeout timeout (rc_session s));
           (host', port') = EndpointSet host port
       in bind_result (SyncSessionImpl_Connect (resolve host' port') (dial host' port') k) (\<lambda>(_, k').
            Inr (s\<lparr>rc_session := k'\<rparr>)))"

section \<open>Parsing replies\<close>

definition IdentifierParseToString :: "bytes \<Rightarrow> nat \<Rightarrow> bytes \<Rightarrow> (nat option \<times> bytes) result" where
  "IdentifierParseToString memory buffer value =
     bind_result (strstr_identifier (drop buffer memory)) (\<lambda>r. case r of
        None \<Rightarrow> Inr (None, value)
      | Some n \<Rightarrow> Inr (Some (buffer + n), take n (drop buffer memory)))"

definition IdentifierParseToInt :: "bytes \<Rightarrow> nat \<Rightarrow> i32 \<Rightarrow> (nat option \<times> i32) result" where
  "IdentifierParseToInt memory buffer value =
     bind_result (strstr_identifier (drop buffer memory)) (\<lambda>r. case r of
        None \<Rightarrow> Inr (None, value)
      | Some n \<Rightarrow> Inr (Some (buffer + n), atoi (take n (drop buffer memory))))"

text \<open>
  \<open>Bulk\<close>: the position behind the bulk string, the flag \<open>retry\<close> and the string; \<open>None\<close> when
  \<open>std::string::assign\<close> throws because of its length. The length is a signed integer that is converted
  to \<open>size_t\<close> wherever it is used.
\<close>

definition Bulk :: "bytes \<Rightarrow> nat \<Rightarrow> bool \<Rightarrow> bytes \<Rightarrow> ((nat option \<times> bool \<times> bytes) option) result" where
  "Bulk memory buffer retry value =
     bind_result (IdentifierParseToInt memory buffer 0) (\<lambda>(p, body_length). case p of
        None \<Rightarrow> Inr (Some (None, retry, value))
      | Some p0 \<Rightarrow>
          let p1 = p0 + length RC_IDENTIFIER;
              need = scast body_length + of_nat (length RC_IDENTIFIER) :: size_t
          in bind_result (strlen (drop p1 memory)) (\<lambda>n.
               if of_nat n < need then Inr (Some (None, True, value))
               else if \<not> unat (scast body_length :: size_t) < 2 ^ 63 then Inr None
               else bind_result (mem_read memory p1 (unat (scast body_length :: size_t))) (\<lambda>value'.
                 Inr (Some (Some (p1 + unat need), retry, value')))))"

text \<open>
  A function of the container returns a Boolean, or throws (\<open>None\<close>); it may set \<open>retry\<close>, and changes
  the members of the connector.
\<close>

type_synonym processed = "(bool option \<times> bool \<times> RedisConnector) result"

definition ErrorProcessing :: "bytes \<Rightarrow> nat \<Rightarrow> bool \<Rightarrow> RedisConnector \<Rightarrow> processed" where
  "ErrorProcessing memory buffer retry s =
     bind_result (IdentifierParseToString memory buffer (rc_error s)) (\<lambda>(p, v).
       Inr (Some True, retry, s\<lparr>rc_error := v\<rparr>))"

definition InlineProcessing :: "bytes \<Rightarrow> nat \<Rightarrow> bool \<Rightarrow> RedisConnector \<Rightarrow> processed" where
  "InlineProcessing memory buffer retry s =
     bind_result (IdentifierParseToString memory buffer (rc_inline s)) (\<lambda>(p, v).
       Inr (Some True, retry, s\<lparr>rc_inline := v\<rparr>))"

definition BulkProcessing :: "bytes \<Rightarrow> nat \<Rightarrow> bool \<Rightarrow> RedisConnector \<Rightarrow> processed" where
  "BulkProcessing memory buffer retry s =
     bind_result (Bulk memory buffer retry (rc_bulk s)) (\<lambda>r. case r of
        None \<Rightarrow> Inr (None, retry, s)
      | Some (p, retry', v) \<Rightarrow> Inr (Some True, retry', s\<lparr>rc_bulk := v\<rparr>))"

text \<open>The loop of \<open>MultiBulkProcessing\<close>; \<open>p\<close> stays where it is when no bulk string starts there.\<close>

fun multi_bulk_loop :: "nat \<Rightarrow> bytes \<Rightarrow> nat \<Rightarrow> bool \<Rightarrow> RedisConnector \<Rightarrow> processed" where
  "multi_bulk_loop 0 memory p retry s = Inr (Some True, retry, s)"
| "multi_bulk_loop (Suc i) memory p retry s =
     bind_result (mem_read memory p 1) (\<lambda>c.
       if hd c = RC_BULK then
         bind_result (Bulk memory (p + 1) retry []) (\<lambda>r. case r of
            None \<Rightarrow> Inr (None, retry, s)
          | Some (None, retry', bulk) \<Rightarrow> Inr (Some False, retry', s)
          | Some (Some p', retry', bulk) \<Rightarrow>
              multi_bulk_loop i memory p' retry' (s\<lparr>rc_multiBulk := rc_multiBulk s @ [bulk]\<rparr>))
       else multi_bulk_loop i memory p retry s)"

definition MultiBulkProcessing :: "bytes \<Rightarrow> nat \<Rightarrow> bool \<Rightarrow> RedisConnector \<Rightarrow> processed" where
  "MultiBulkProcessing memory buffer retry s =
     bind_result (IdentifierParseToInt memory buffer 0) (\<lambda>(p, bulk_count). case p of
        None \<Rightarrow> Inr (Some True, retry, s)
      | Some p0 \<Rightarrow> multi_bulk_loop (nat (sint bulk_count)) memory (p0 + length RC_IDENTIFIER) retry
          (s\<lparr>rc_multiBulk := []\<rparr>))"

definition IntProcessing :: "bytes \<Rightarrow> nat \<Rightarrow> bool \<Rightarrow> RedisConnector \<Rightarrow> processed" where
  "IntProcessing memory buffer retry s =
     bind_result (IdentifierParseToInt memory buffer (rc_int s)) (\<lambda>(p, v).
       Inr (Some (p \<noteq> None), retry, s\<lparr>rc_int := v\<rparr>))"

fun call :: "ProcessFunc \<Rightarrow> bytes \<Rightarrow> nat \<Rightarrow> bool \<Rightarrow> RedisConnector \<Rightarrow> processed" where
  "call Error_Func = ErrorProcessing"
| "call Inline_Func = InlineProcessing"
| "call Bulk_Func = BulkProcessing"
| "call MultiBulk_Func = MultiBulkProcessing"
| "call Int_Func = IntProcessing"

text \<open>What \<open>Paser\<close> does with the buffer after every \<open>recv\<close> that it takes for a successful one.\<close>

definition process_reply :: "bytes \<Rightarrow> bool \<Rightarrow> RedisConnector \<Rightarrow> processed" where
  "process_reply memory retry s =
     bind_result (mem_read memory 0 1) (\<lambda>c. case rc_functionContainer s of
        None \<Rightarrow> Inl Null_Pointer
      | Some fc \<Rightarrow> (case Getvalue fc (hd c) of
          None \<Rightarrow> Inr (Some True, retry, s)
        | Some processing \<Rightarrow> call processing memory 1 retry s))"

text \<open>
  The loop of \<open>Paser\<close>. The result of \<open>recv\<close> is stored in an unsigned variable, which is also the
  position in the buffer for the next call. \<open>None\<close>: the loop does not end. The result is a Boolean,
  or \<open>None\<close> for an exception of \<open>std::string\<close>.
\<close>

partial_function (option) paser_loop ::
  "bytes \<Rightarrow> size_t \<Rightarrow> size_t \<Rightarrow> bool \<Rightarrow> RedisConnector
     \<Rightarrow> ((bool option \<times> bytes \<times> RedisConnector) result) option" where
  "paser_loop memory buffer_size available retry s =
     (case sys_recv (sint (ucast (buffer_size - available) :: i32)) False (ss_sock (rc_session s)) of
        (got, data, k) \<Rightarrow>
     (case (if data = [] then Inr memory else mem_write memory (unat available) data) of
        Inl e \<Rightarrow> Some (Inl e)
      | Inr memory1 \<Rightarrow>
     (if 0 < (word_of_int got :: size_t) then
        (case process_reply memory1 retry (s\<lparr>rc_session := (rc_session s)\<lparr>ss_sock := k\<rparr>\<rparr>) of
           Inl e \<Rightarrow> Some (Inl e)
         | Inr (None, retry', s') \<Rightarrow> Some (Inr (None, memory1, s'))
         | Inr (Some _, retry', s') \<Rightarrow>
             if retry' then paser_loop memory1 buffer_size (word_of_int got) retry' s'
             else Some (Inr (Some True, memory1, s')))
      else Some (Inr (Some False, memory1, s\<lparr>rc_session := (rc_session s)\<lparr>ss_sock := k\<rparr>\<rparr>)))))"

definition RedisConnector_Paser ::
  "bytes \<Rightarrow> size_t \<Rightarrow> RedisConnector \<Rightarrow> ((bool option \<times> bytes \<times> RedisConnector) result) option" where
  "RedisConnector_Paser buffer buffer_size s = paser_loop buffer buffer_size 0 False s"

text \<open>\<open>SyncSessionImpl::Recv\<close>, whose virtual call of \<open>Paser\<close> is the one above.\<close>

definition RedisConnector_Recv ::
  "bytes \<Rightarrow> size_t \<Rightarrow> RedisConnector \<Rightarrow> ((bool \<times> bytes \<times> RedisConnector) result) option" where
  "RedisConnector_Recv buffer buffer_size s =
     (if \<not> IsConnection (rc_session s) then Some (Inr (False, buffer, s))
      else map_option (\<lambda>r. bind_result r (\<lambda>(b, buffer', s'). Inr (b \<noteq> None, buffer', s')))
        (RedisConnector_Paser buffer buffer_size s))"

section \<open>The constructors\<close>

text \<open>
  Nothing creates the container of the functions, so both constructors dereference a null pointer:
  no connector is ever completed.
\<close>

lemma RedisConnector_new_faults:
  "RedisConnector_new u v = Inl Null_Pointer"
  "RedisConnector_new_connect resolve dial host port timeout u v = Inl Null_Pointer"
  by (simp_all add: RedisConnector_new_def RedisConnector_new_connect_def RedisConnector_Initialize_def
      ProcessFuncRegister_def container_Insert_def redis_members_def)

lemma EndpointSet_values:
  "EndpointSet ''0'' port = (''0'', ''127.0.0.1'')"
  "ipaddress \<noteq> ''0'' \<Longrightarrow> EndpointSet ipaddress ''0'' = (ipaddress, ''6379'')"
  "ipaddress \<noteq> ''0'' \<Longrightarrow> port \<noteq> ''0'' \<Longrightarrow> EndpointSet ipaddress port = (ipaddress, port)"
  by (simp_all add: EndpointSet_def)

end
