(* ===== verification/Redis_Replies.thy ===== *)
theory Redis_Replies
  imports Redis_Connector Decimal
begin

text \<open>
  Replies of a redis server and the functions of the connector that read them. Both constructors of the
  connector fault (\<open>RedisConnector_new_faults\<close>), so no connector calls these functions; the facts here are
  about the functions themselves, and about the receive loop of a connector that has them registered.
\<close>

section \<open>Replies\<close>

datatype reply =
    Error_Reply bytes
  | Inline_Reply bytes
  | Int_Reply int
  | Bulk_Reply bytes
  | Multi_Reply "bytes list"

definition line :: "bytes \<Rightarrow> bytes" where
  "line t = t @ RC_IDENTIFIER"

definition bulk_text :: "bytes \<Rightarrow> bytes" where
  "bulk_text v = line (decimal (length v)) @ line v"

fun encode_reply :: "reply \<Rightarrow> bytes" where
  "encode_reply (Error_Reply t) = RC_ERROR # line t"
| "encode_reply (Inline_Reply t) = RC_INLINE # line t"
| "encode_reply (Int_Reply i) = RC_INT # line (int_text i)"
| "encode_reply (Bulk_Reply v) = RC_BULK # bulk_text v"
| "encode_reply (Multi_Reply vs) =
     RC_MULTIBULK # line (decimal (length vs)) @ concat (map (\<lambda>v. RC_BULK # bulk_text v) vs)"

text \<open>
  Texts without a zero byte and, outside bulk strings, without a carriage return, and numbers in the
  range of \<open>int\<close>.
\<close>

definition plain :: "bytes \<Rightarrow> bool" where
  "plain t \<longleftrightarrow> 0 \<notin> set t \<and> 13 \<notin> set t"

definition bulk_ok :: "bytes \<Rightarrow> bool" where
  "bulk_ok v \<longleftrightarrow> 0 \<notin> set v \<and> length v < 2 ^ 31"

fun wf_reply :: "reply \<Rightarrow> bool" where
  "wf_reply (Error_Reply t) = plain t"
| "wf_reply (Inline_Reply t) = plain t"
| "wf_reply (Int_Reply i) = (- (2 ^ 31) \<le> i \<and> i < 2 ^ 31)"
| "wf_reply (Bulk_Reply v) = bulk_ok v"
| "wf_reply (Multi_Reply vs) = (list_all bulk_ok vs \<and> length vs < 2 ^ 31)"

text \<open>The member of the connector in which a reply ends up.\<close>

fun store_reply :: "reply \<Rightarrow> RedisConnector \<Rightarrow> RedisConnector" where
  "store_reply (Error_Reply t) s = s\<lparr>rc_error := t\<rparr>"
| "store_reply (Inline_Reply t) s = s\<lparr>rc_inline := t\<rparr>"
| "store_reply (Int_Reply i) s = s\<lparr>rc_int := word_of_int i\<rparr>"
| "store_reply (Bulk_Reply v) s = s\<lparr>rc_bulk := v\<rparr>"
| "store_reply (Multi_Reply vs) s = s\<lparr>rc_multiBulk := vs\<rparr>"

section \<open>Numbers\<close>

lemma is_digit_word: "d < 10 \<Longrightarrow> is_digit (48 + of_nat d)"
  using digit_word[of d] by (simp add: is_digit_def word_le_def)

lemma digits_value_append_digit:
  "list_all is_digit ds \<Longrightarrow> is_digit c \<Longrightarrow> digits_value acc (ds @ [c]) = digits_value acc ds * 10 + (uint c - 48)"
  by (induction ds arbitrary: acc) simp_all

lemma decimal_digits: "list_all is_digit (decimal n)" "decimal n \<noteq> []" "digits_value 0 (decimal n) = int n"
proof (induction n rule: decimal.induct)
  case (1 n)
  show "list_all is_digit (decimal n)"
    by (subst decimal.simps) (simp add: 1 is_digit_word)
  show "decimal n \<noteq> []"
    by (subst decimal.simps) simp
  show "digits_value 0 (decimal n) = int n"
    by (subst decimal.simps)
      (simp add: 1 is_digit_word digits_value_append_digit digit_word zdiv_int zmod_int)
qed

lemma digit_not: "is_digit c \<Longrightarrow> c \<noteq> 0 \<and> c \<noteq> 13 \<and> c \<noteq> 45 \<and> c \<noteq> 43 \<and> \<not> is_space c"
  by (auto simp: is_digit_def is_space_def word_le_def)

lemma plain_decimal [simp]: "plain (decimal n)"
  using decimal_digits(1)[of n] digit_not by (fastforce simp: plain_def list_all_iff)

lemma atoi_decimal: "n < 2 ^ 31 \<Longrightarrow> atoi (decimal n) = of_nat n"
  and atoi_minus_decimal: "n \<le> 2 ^ 31 \<Longrightarrow> atoi (45 # decimal n) = - of_nat n"
proof -
  obtain c cs where d: "decimal n = c # cs" "is_digit c"
    using decimal_digits(1,2)[of n] by (cases "decimal n") auto
  have v: "digits_value 0 (c # cs) = int n"
    using decimal_digits(3)[of n] d(1) by simp
  have c: "\<not> is_space c" "c \<noteq> 45" "c \<noteq> 43"
    using digit_not[OF d(2)] by simp_all
  show "atoi (decimal n) = of_nat n" if "n < 2 ^ 31"
    using c that unfolding atoi_def d(1) by (simp add: v del: digits_value.simps) (simp add: saturate_def)
  have "\<not> is_space 45" by (simp add: is_space_def word_le_def)
  then show "atoi (45 # decimal n) = - of_nat n" if "n \<le> 2 ^ 31"
    using that unfolding atoi_def d(1) by (simp add: v del: digits_value.simps) (simp add: saturate_def)
qed

lemma atoi_int_text:
  assumes "- (2 ^ 31) \<le> i" and "i < 2 ^ 31"
  shows "atoi (int_text i) = word_of_int i" and "plain (int_text i)"
proof -
  show "atoi (int_text i) = word_of_int i"
  proof (cases "i < 0")
    case True
    then have "nat (- i) \<le> 2 ^ 31" using assms by simp
    from atoi_minus_decimal[OF this] True show ?thesis
      by (simp add: int_text_def)
  next
    case False
    then have "nat i < 2 ^ 31" using assms by simp
    from atoi_decimal[OF this] False show ?thesis
      by (simp add: int_text_def)
  qed
  show "plain (int_text i)"
    using plain_decimal by (simp add: int_text_def plain_def)
qed

section \<open>Lines and bulk strings\<close>

lemma strstr_line: "plain t \<Longrightarrow> strstr_identifier (line t @ rest) = Inr (Some (length t))"
proof (induction t)
  case Nil
  then show ?case by (simp add: line_def RC_IDENTIFIER_def)
next
  case (Cons c t)
  obtain d cs where "line t @ rest = d # cs"
    by (cases "line t @ rest") (simp_all add: line_def RC_IDENTIFIER_def)
  moreover have "plain t" "c \<noteq> 0" "c \<noteq> 13"
    using Cons.prems by (simp_all add: plain_def)
  ultimately show ?case
    using Cons.IH by (simp add: line_def)
qed

lemma strlen_upto: "0 \<notin> set t \<Longrightarrow> strlen (t @ rest) = bind_result (strlen rest) (\<lambda>n. Inr (length t + n))"
proof (induction t)
  case Nil
  then show ?case by (cases "strlen rest") simp_all
next
  case (Cons c t)
  then show ?case by (cases "strlen rest") simp_all
qed

lemma strlen_total: "0 \<in> set cs \<Longrightarrow> \<exists>n. strlen cs = Inr n \<and> n < length cs"
  by (induction cs) auto

lemma parse_line:
  assumes "drop p memory = line t @ rest" and "plain t"
  shows "IdentifierParseToString memory p v = Inr (Some (p + length t), t)"
    and "IdentifierParseToInt memory p i = Inr (Some (p + length t), atoi t)"
  unfolding IdentifierParseToString_def IdentifierParseToInt_def assms(1) strstr_line[OF assms(2)]
  by (simp_all add: line_def)

lemma scast_length:
  assumes "n < 2 ^ 31"
  shows "(scast (of_nat n :: i32) :: size_t) = of_nat n" and "sint (of_nat n :: i32) = int n"
proof -
  have "unat (of_nat n :: size_t) = n"
    using assms by (intro unat_of_nat_size) simp
  moreover have "(ucast (of_nat n :: size_t) :: i32) = of_nat n"
    by (simp add: word_unat_eq_iff unsigned_ucast_eq unsigned_of_nat min_def)
  ultimately show "sint (of_nat n :: i32) = int n"
    using sint_small[of "of_nat n"] assms by simp
  then show "(scast (of_nat n :: i32) :: size_t) = of_nat n"
    by (simp add: scast_eq)
qed

lemma length_identifier: "length RC_IDENTIFIER = 2"
  by (simp add: RC_IDENTIFIER_def)

lemma length_bulk_text: "length (bulk_text v) = length (decimal (length v)) + 2 + (length v + 2)"
  by (simp add: bulk_text_def line_def length_identifier)

lemma Bulk_complete:
  assumes "drop p memory = bulk_text v @ rest" and "bulk_ok v" and "0 \<in> set rest" and "length memory < 2 ^ 63"
  shows "Bulk memory p retry old = Inr (Some (Some (p + length (bulk_text v)), retry, v))"
proof -
  let ?d = "decimal (length v)"
  let ?p1 = "p + length ?d + 2"
  have v: "0 \<notin> set v" "length v < 2 ^ 31"
    using assms(2) by (simp_all add: bulk_ok_def)
  have drop: "drop p memory = line ?d @ line v @ rest"
    using assms(1) by (simp add: bulk_text_def)
  have int: "IdentifierParseToInt memory p 0 = Inr (Some (p + length ?d), of_nat (length v))"
    using parse_line(2)[OF drop plain_decimal] atoi_decimal[OF v(2)] by simp
  have "drop ?p1 memory = drop (length ?d + 2) (drop p memory)"
    by (simp add: ac_simps)
  then have tail: "drop ?p1 memory = line v @ rest"
    by (simp add: drop line_def RC_IDENTIFIER_def)
  obtain m where m: "strlen rest = Inr m" "m < length rest"
    using strlen_total[OF assms(3)] by blast
  then have len: "strlen (drop ?p1 memory) = Inr (length v + 2 + m)"
    unfolding tail using strlen_upto[of "line v" rest] v(1) by (simp add: line_def RC_IDENTIFIER_def)
  have size: "length v + 2 + length rest \<le> length memory" "?p1 + (length v + 2) \<le> length memory"
    using arg_cong[OF drop, of length] arg_cong[OF tail, of length]
    by (simp_all add: line_def RC_IDENTIFIER_def)
  have need: "unat (of_nat (length v) + 2 :: size_t) = length v + 2"
    using size(1) assms(4) unat_of_nat_size[of "length v + 2"] by (simp add: add.commute)
  have n: "unat (of_nat (length v) :: size_t) = length v" "unat (of_nat (length v + 2 + m) :: size_t) = length v + 2 + m"
    using size(1) m(2) assms(4) by (intro unat_of_nat_size; simp)+
  have "\<not> (of_nat (length v + 2 + m) :: size_t) < of_nat (length v) + 2"
    unfolding word_less_nat_alt need n by simp
  moreover have "mem_read memory ?p1 (length v) = Inr (take (length v) (drop ?p1 memory))"
    using size(2) by (intro mem_read_ok) simp
  then have "mem_read memory ?p1 (length v) = Inr v"
    unfolding tail by (simp add: line_def)
  moreover have "length v < 2 ^ 63"
    using size(1) assms(4) by simp
  ultimately show ?thesis
    unfolding Bulk_def int len scast_length[OF v(2)] n(1) need Let_def length_identifier
      bind_result_simps prod.case option.case of_nat_numeral len
    by (simp add: need length_bulk_text)
qed

lemma Bulk_incomplete:
  assumes "drop p memory = line (decimal n) @ t @ 0 # rest" and "0 \<notin> set t" and "length t < n + 2" and "n < 2 ^ 31"
  shows "Bulk memory p retry old = Inr (Some (None, True, old))"
proof -
  let ?p1 = "p + length (decimal n) + 2"
  have int: "IdentifierParseToInt memory p 0 = Inr (Some (p + length (decimal n)), of_nat n)"
    using parse_line(2)[OF assms(1) plain_decimal] atoi_decimal[OF assms(4)] by simp
  have "drop ?p1 memory = drop (length (decimal n) + 2) (drop p memory)"
    by (simp add: ac_simps)
  then have tail: "drop ?p1 memory = t @ 0 # rest"
    by (simp add: assms(1) line_def RC_IDENTIFIER_def)
  have len: "strlen (drop ?p1 memory) = Inr (length t)"
    unfolding tail using strlen_upto[OF assms(2), of "0 # rest"] by simp
  have "unat (of_nat (length t) :: size_t) = length t" "unat (of_nat (n + 2) :: size_t) = n + 2"
    using assms(3,4) by (intro unat_of_nat_size; simp)+
  then have "(of_nat (length t) :: size_t) < of_nat n + 2"
    using assms(3) by (simp add: word_less_nat_alt add.commute)
  then show ?thesis
    unfolding Bulk_def int scast_length[OF assms(4)] Let_def length_identifier bind_result_simps prod.case
      option.case of_nat_numeral len by simp
qed

lemma multi_bulk_complete:
  assumes "drop p memory = concat (map (\<lambda>v. RC_BULK # bulk_text v) vs) @ rest" and "list_all bulk_ok vs"
    and "0 \<in> set rest" and "length memory < 2 ^ 63"
  shows "multi_bulk_loop (length vs) memory p retry s
    = Inr (Some True, retry, s\<lparr>rc_multiBulk := rc_multiBulk s @ vs\<rparr>)"
  using assms(1,2)
proof (induction vs arbitrary: p s)
  case Nil
  then show ?case by simp
next
  case (Cons v vs)
  let ?rest = "concat (map (\<lambda>v. RC_BULK # bulk_text v) vs) @ rest"
  have head: "drop p memory = RC_BULK # bulk_text v @ ?rest"
    using Cons.prems(1) by simp
  have "p < length memory"
    using head by (metis drop_all linorder_not_less list.distinct(1))
  then have c: "mem_read memory p 1 = Inr [RC_BULK]"
    using head by (simp add: mem_read_ok)
  have "drop (p + 1) memory = tl (drop p memory)"
    by (metis Suc_eq_plus1 drop_Suc tl_drop)
  then have after: "drop (p + 1) memory = bulk_text v @ ?rest"
    using head by simp
  then have bulk: "Bulk memory (p + 1) retry [] = Inr (Some (Some (p + 1 + length (bulk_text v)), retry, v))"
    by (rule Bulk_complete) (use Cons.prems(2) assms(3,4) in simp_all)
  have "drop (p + 1 + length (bulk_text v)) memory = drop (length (bulk_text v)) (drop (p + 1) memory)"
    by (simp only: drop_drop add.commute)
  then have "drop (p + 1 + length (bulk_text v)) memory = ?rest"
    unfolding after by simp
  from Cons.IH[OF this] show ?case
    using Cons.prems(2) c bulk by simp
qed

section \<open>Whole replies\<close>

text \<open>The member function for a kind of reply: the one \<open>ProcessFuncRegister\<close> inserts for its first byte.\<close>

fun reply_function :: "reply \<Rightarrow> ProcessFunc" where
  "reply_function (Error_Reply t) = Error_Func"
| "reply_function (Inline_Reply t) = Inline_Func"
| "reply_function (Int_Reply i) = Int_Func"
| "reply_function (Bulk_Reply v) = Bulk_Func"
| "reply_function (Multi_Reply vs) = MultiBulk_Func"

lemmas reply_bytes = RC_ERROR_def RC_INLINE_def RC_BULK_def RC_MULTIBULK_def RC_INT_def

lemma MultiBulkProcessing_complete:
  assumes "list_all bulk_ok vs" and "length vs < 2 ^ 31" and "0 \<in> set rest"
    and "length (encode_reply (Multi_Reply vs) @ rest) < 2 ^ 63"
  shows "MultiBulkProcessing (encode_reply (Multi_Reply vs) @ rest) 1 retry s
    = Inr (Some True, retry, s\<lparr>rc_multiBulk := vs\<rparr>)"
proof -
  let ?bulks = "concat (map (\<lambda>v. RC_BULK # bulk_text v) vs)" and ?d = "decimal (length vs)"
  let ?m = "RC_MULTIBULK # line ?d @ ?bulks @ rest"
  have "drop 1 ?m = line ?d @ (?bulks @ rest)" by simp
  from parse_line(2)[OF this plain_decimal]
  have count: "IdentifierParseToInt ?m 1 0 = Inr (Some (1 + length ?d), of_nat (length vs))"
    unfolding atoi_decimal[OF assms(2)] .
  have "drop (1 + length ?d + 2) ?m = ?bulks @ rest"
    by (simp add: line_def RC_IDENTIFIER_def)
  from multi_bulk_complete[OF this assms(1,3), of retry "s\<lparr>rc_multiBulk := []\<rparr>"]
  have "MultiBulkProcessing ?m 1 retry s = Inr (Some True, retry, s\<lparr>rc_multiBulk := vs\<rparr>)"
    using assms(4)
    unfolding MultiBulkProcessing_def count bind_result_simps prod.case option.case length_identifier
      scast_length(2)[OF assms(2)] nat_int by simp
  then show ?thesis by simp
qed

lemma reply_function_complete:
  assumes "wf_reply r" and "0 \<in> set rest" and "length (encode_reply r @ rest) < 2 ^ 63"
  shows "call (reply_function r) (encode_reply r @ rest) 1 retry s = Inr (Some True, retry, store_reply r s)"
proof (cases r)
  case (Error_Reply t)
  have "drop 1 (RC_ERROR # line t @ rest) = line t @ rest" by simp
  from parse_line(1)[OF this, of "rc_error s"] show ?thesis
    using assms Error_Reply by (simp add: ErrorProcessing_def)
next
  case (Inline_Reply t)
  have "drop 1 (RC_INLINE # line t @ rest) = line t @ rest" by simp
  from parse_line(1)[OF this, of "rc_inline s"] show ?thesis
    using assms Inline_Reply by (simp add: InlineProcessing_def)
next
  case (Int_Reply i)
  have "drop 1 (RC_INT # line (int_text i) @ rest) = line (int_text i) @ rest" by simp
  from parse_line(2)[OF this, of "rc_int s"] show ?thesis
    using assms Int_Reply atoi_int_text[of i] by (simp add: IntProcessing_def)
next
  case (Bulk_Reply v)
  have "drop 1 (RC_BULK # bulk_text v @ rest) = bulk_text v @ rest" by simp
  from Bulk_complete[OF this, of retry "rc_bulk s"] show ?thesis
    using assms Bulk_Reply by (simp add: BulkProcessing_def)
next
  case (Multi_Reply vs)
  then show ?thesis
    using MultiBulkProcessing_complete[of vs rest] assms by simp
qed

text \<open>A null bulk string has the length -1. With nothing behind it, it is taken for one that has not arrived completely.\<close>

lemma null_bulk_retries:
  "call Bulk_Func (RC_BULK # line (int_text (- 1)) @ 0 # rest) 1 retry s = Inr (Some True, True, s)"
proof -
  let ?d = "int_text (- 1)" and ?m = "RC_BULK # line (int_text (- 1)) @ 0 # rest"
  have "drop 1 ?m = line ?d @ 0 # rest" by simp
  from parse_line(2)[OF this] atoi_int_text[of "- 1"]
  have int: "IdentifierParseToInt ?m 1 0 = Inr (Some (1 + length ?d), - 1)" by simp
  have tail: "drop (1 + length ?d + 2) ?m = 0 # rest"
    by (simp add: line_def RC_IDENTIFIER_def)
  have "Bulk ?m 1 retry (rc_bulk s) = Inr (Some (None, True, rc_bulk s))"
    unfolding Bulk_def int Let_def length_identifier bind_result_simps prod.case option.case tail by simp
  then show ?thesis by (simp add: BulkProcessing_def)
qed

text \<open>A connector that calls \<open>BulkProcessing\<close> for a bulk string.\<close>

definition bulk_registered :: "RedisConnector \<Rightarrow> bool" where
  "bulk_registered s \<longleftrightarrow> (case rc_functionContainer s of None \<Rightarrow> False | Some c \<Rightarrow> Getvalue c RC_BULK = Some Bulk_Func)"

lemma process_reply_bulk:
  "bulk_registered s \<Longrightarrow> process_reply (RC_BULK # memory) retry s = BulkProcessing (RC_BULK # memory) 1 retry s"
  by (auto simp: bulk_registered_def process_reply_def mem_read_def simp del: Getvalue_apply split: option.splits)

lemma bulk_registered_cong: "rc_functionContainer s' = rc_functionContainer s \<Longrightarrow> bulk_registered s' = bulk_registered s"
  by (simp add: bulk_registered_def)

section \<open>Receiving\<close>

lemma sys_recv_data:
  assumes "unat (n :: size_t) < 2 ^ 31" and "first_look (unat n) k = data" and "data \<noteq> []"
  shows "sys_recv (sint (ucast n :: i32)) False k
    = (int (length data), data, k\<lparr>so_chunks := tl (so_chunks k), so_in := drop (length data) (so_in k)\<rparr>)"
proof -
  have "take (min (case so_chunks k of [] \<Rightarrow> length (so_in k) | c # _ \<Rightarrow> min c (length (so_in k))) (unat n)) (so_in k)
      = data"
    using assms(2) by (auto simp: first_look_def min_def split: list.splits)
  then show ?thesis
    unfolding sint_small[OF assms(1)] using assms(3) by (simp only: sys_recv_def Let_def nat_int) simp
qed

text \<open>The connector after a \<open>recv\<close>.\<close>

definition after_recv :: "nat \<Rightarrow> RedisConnector \<Rightarrow> RedisConnector" where
  "after_recv n s = (let k = ss_sock (rc_session s) in
     s\<lparr>rc_session := (rc_session s)\<lparr>ss_sock := k\<lparr>so_chunks := tl (so_chunks k), so_in := drop n (so_in k)\<rparr>\<rparr>\<rparr>)"

lemma after_recv_simps [simp]:
  "bulk_registered (after_recv n s) = bulk_registered s"
  "so_in (ss_sock (rc_session (after_recv n s))) = drop n (so_in (ss_sock (rc_session s)))"
  "so_chunks (ss_sock (rc_session (after_recv n s))) = tl (so_chunks (ss_sock (rc_session s)))"
  "so_timeout (ss_sock (rc_session (after_recv n s))) = so_timeout (ss_sock (rc_session s))"
  by (simp_all add: after_recv_def bulk_registered_def Let_def)

text \<open>One round of \<open>Paser\<close> that receives data.\<close>

lemma paser_round:
  assumes "unat (buffer_size - available) < 2 ^ 31"
    and "first_look (unat (buffer_size - available)) (ss_sock (rc_session s)) = data" and "data \<noteq> []"
    and "unat available + length data \<le> length memory" and "length memory < 2 ^ 63"
  shows "paser_loop memory buffer_size available retry s =
    (let memory1 = take (unat available) memory @ data @ drop (unat available + length data) memory
     in case process_reply memory1 retry (after_recv (length data) s) of
          Inl e \<Rightarrow> Some (Inl e)
        | Inr (None, retry', s') \<Rightarrow> Some (Inr (None, memory1, s'))
        | Inr (Some _, retry', s') \<Rightarrow>
            if retry' then paser_loop memory1 buffer_size (word_of_int (int (length data))) retry' s'
            else Some (Inr (Some True, memory1, s')))"
proof -
  have "unat (of_nat (length data) :: size_t) = length data"
    using assms(4,5) by (intro unat_of_nat_size) simp
  then have pos: "0 < (word_of_int (int (length data)) :: size_t)"
    using assms(3) by (simp add: word_less_nat_alt)
  have wr: "mem_write memory (unat available) data
      = Inr (take (unat available) memory @ data @ drop (unat available + length data) memory)"
    using assms(4) by (rule mem_write_ok)
  show ?thesis
    using pos assms(3) by (subst paser_loop.simps)
      (simp add: sys_recv_data[OF assms(1-3)] wr after_recv_def Let_def)
qed

section \<open>Waiting for more\<close>

text \<open>
  A connector that is told to retry while nothing more arrives: every \<open>recv\<close> times out. The buffer
  is processed again after every timeout, with the outcome that \<open>again\<close> describes.
\<close>

definition again :: "bytes \<Rightarrow> bool" where
  "again memory \<longleftrightarrow> (\<forall>s. bulk_registered s \<longrightarrow>
     (\<exists>b s'. process_reply memory True s = Inr (Some b, True, s') \<and> bulk_registered s'
        \<and> rc_session s' = rc_session s))"

definition waiting :: "bytes \<Rightarrow> size_t \<Rightarrow> size_t \<Rightarrow> bool \<Rightarrow> RedisConnector \<Rightarrow> bool" where
  "waiting memory buffer_size available retry s \<longleftrightarrow>
     again memory \<and> retry \<and> bulk_registered s
     \<and> so_in (ss_sock (rc_session s)) = [] \<and> so_timeout (ss_sock (rc_session s))
     \<and> 0 < sint (ucast (buffer_size - available) :: i32) \<and> 0 < sint (ucast (buffer_size + 1) :: i32)"

lemma sys_recv_timeout:
  assumes "so_in k = []" and "so_timeout k" and "0 < n"
  shows "sys_recv n False k = (- 1, [], k\<lparr>so_chunks := tl (so_chunks k)\<rparr>)"
  using assms by (simp add: sys_recv_def Let_def)

lemma waiting_step:
  assumes "waiting memory buffer_size available retry s"
  obtains b k s' where
    "sys_recv (sint (ucast (buffer_size - available) :: i32)) False (ss_sock (rc_session s)) = (- 1, [], k)"
    and "process_reply memory retry (s\<lparr>rc_session := (rc_session s)\<lparr>ss_sock := k\<rparr>\<rparr>) = Inr (Some b, True, s')"
    and "waiting memory buffer_size (word_of_int (- 1)) True s'"
proof -
  let ?k = "(ss_sock (rc_session s))\<lparr>so_chunks := tl (so_chunks (ss_sock (rc_session s)))\<rparr>"
  let ?s = "s\<lparr>rc_session := (rc_session s)\<lparr>ss_sock := ?k\<rparr>\<rparr>"
  have s: "again memory" "retry" "bulk_registered ?s"
    using assms bulk_registered_cong[of ?s s] by (simp_all add: waiting_def)
  then obtain b s' where s': "process_reply memory True ?s = Inr (Some b, True, s')"
    "bulk_registered s'" "rc_session s' = rc_session ?s"
    unfolding again_def by blast
  have "waiting memory buffer_size (word_of_int (- 1)) True s'"
    using assms s' by (simp add: waiting_def)
  then show thesis
    using that[of ?k b s'] s s'(1) assms by (simp add: waiting_def sys_recv_timeout)
qed

lemma waiting_never_returns:
  assumes "waiting memory buffer_size available retry s"
  shows "paser_loop memory buffer_size available retry s = None"
proof (rule ccontr)
  assume "paser_loop memory buffer_size available retry s \<noteq> None"
  then obtain r where "paser_loop memory buffer_size available retry s = Some r" by blast
  then have "\<not> waiting memory buffer_size available retry s"
  proof (rule paser_loop.raw_induct[where P = "\<lambda>m n a t s r. \<not> waiting m n a t s", rotated])
    fix F m n a t s and r :: "(bool option \<times> bytes \<times> RedisConnector) result"
    assume IH: "\<And>m n a t s r. F m n a t s = Some r \<Longrightarrow> \<not> waiting m n a t s"
      and body: "(case sys_recv (sint (ucast (n - a) :: i32)) False (ss_sock (rc_session s)) of (got, data, k) \<Rightarrow>
        case if data = [] then Inr m else mem_write m (unat a) data of Inl e \<Rightarrow> Some (Inl e)
        | Inr memory1 \<Rightarrow>
            if 0 < (word_of_int got :: size_t)
            then (case process_reply memory1 t (s\<lparr>rc_session := (rc_session s)\<lparr>ss_sock := k\<rparr>\<rparr>) of
                Inl e \<Rightarrow> Some (Inl e)
              | Inr (None, retry', s') \<Rightarrow> Some (Inr (None, memory1, s'))
              | Inr (Some _, retry', s') \<Rightarrow>
                  if retry' then F memory1 n (word_of_int got) retry' s' else Some (Inr (Some True, memory1, s')))
            else Some (Inr (Some False, memory1, s\<lparr>rc_session := (rc_session s)\<lparr>ss_sock := k\<rparr>\<rparr>))) = Some r"
    show "\<not> waiting m n a t s"
    proof
      assume "waiting m n a t s"
      then obtain b k s' where
        "sys_recv (sint (ucast (n - a) :: i32)) False (ss_sock (rc_session s)) = (- 1, [], k)"
        "process_reply m t (s\<lparr>rc_session := (rc_session s)\<lparr>ss_sock := k\<rparr>\<rparr>) = Inr (Some b, True, s')"
        "waiting m n (word_of_int (- 1)) True s'"
        by (rule waiting_step)
      then show False
        using body IH[of m n "word_of_int (- 1)" True s' r] by (simp add: word_gt_0)
    qed
  qed
  then show False using assms by simp
qed

text \<open>A reply in two pieces, the first of which makes the connector retry, and then silence.\<close>

lemma redis_store_keeps:
  "bulk_registered (store_reply r s) = bulk_registered s" "rc_session (store_reply r s) = rc_session s"
  by (cases r; simp add: bulk_registered_def)+

lemma small_gap:
  assumes "m < n" and "n + 1 < 2 ^ 31"
  shows "0 < sint (ucast (of_nat n - of_nat m :: size_t) :: i32)" and "0 < sint (ucast (of_nat n + 1 :: size_t) :: i32)"
proof -
  have "unat (of_nat n :: size_t) = n" "unat (of_nat m :: size_t) = m"
    using assms by (intro unat_of_nat_size; simp)+
  then have gap: "unat (of_nat n - of_nat m :: size_t) = n - m"
    using assms(1) by (simp add: unat_sub word_le_nat_alt)
  have inc: "unat (of_nat n + 1 :: size_t) = n + 1"
    using unat_of_nat_size[of "n + 1"] assms(2) by (simp add: add.commute)
  have "unat (of_nat n - of_nat m :: size_t) < 2 ^ 31" "unat (of_nat n + 1 :: size_t) < 2 ^ 31"
    unfolding gap inc using assms by linarith+
  note sint = this[THEN sint_small]
  show "0 < sint (ucast (of_nat n - of_nat m :: size_t) :: i32)"
    unfolding sint(1) gap using assms(1) by simp
  show "0 < sint (ucast (of_nat n + 1 :: size_t) :: i32)"
    unfolding sint(2) inc by simp
qed

lemma paser_two_pieces:
  assumes "bulk_registered s" and "so_in (ss_sock (rc_session s)) = enc"
    and "so_chunks (ss_sock (rc_session s)) = [c]" and "so_timeout (ss_sock (rc_session s))"
    and "0 < c" and "c < length enc" and "length enc < n" and "n + 1 < 2 ^ 31"
    and "process_reply (take c enc @ replicate (n - c) 0) False (after_recv c s) = Inr (Some b, True, after_recv c s)"
    and "again (enc @ replicate (n - length enc) 0)"
  shows "paser_loop (replicate n 0) (of_nat n) 0 False s = None"
proof -
  let ?m1 = "take c enc @ replicate (n - c) 0" and ?m2 = "enc @ replicate (n - length enc) 0"
  let ?s1 = "after_recv c s" and ?s2 = "after_recv (length enc - c) (after_recv c s)"
  have u: "unat (of_nat n :: size_t) = n" "unat (of_nat c :: size_t) = c" "unat (of_nat n - of_nat c :: size_t) = n - c"
    using assms(6-8) by (simp_all add: unat_of_nat_size unat_sub word_le_nat_alt)
  have ne: "enc \<noteq> []" using assms(6) by auto
  have r1: "paser_loop (replicate n 0) (of_nat n) 0 False s = paser_loop ?m1 (of_nat n) (of_nat c) True ?s1"
    using paser_round[of "of_nat n" 0 s "take c enc" "replicate n 0" False] assms(2,3,5-9) u(1) ne
    by (simp add: first_look_def)
  obtain b' s' where s': "process_reply ?m2 True ?s2 = Inr (Some b', True, s')"
    "bulk_registered s'" "rc_session s' = rc_session ?s2"
    using assms(10)[unfolded again_def, rule_format, of ?s2] assms(1) by auto
  have join: "take c enc @ drop c enc @ x = enc @ x" for x
    by (metis append_assoc append_take_drop_id)
  have r2: "paser_loop ?m1 (of_nat n) (of_nat c) True ?s1 = paser_loop ?m2 (of_nat n) (of_nat (length enc - c)) True s'"
    using paser_round[of "of_nat n" "of_nat c" ?s1 "drop c enc" ?m1 True] s'(1) assms(2,3,6-8) u(2,3)
    by (simp add: first_look_def join)
  have "waiting ?m2 (of_nat n) (of_nat (length enc - c)) True s'"
    using assms(1,2,4,6-8,10) s'(2,3) small_gap[of "length enc - c" n] by (simp add: waiting_def)
  from waiting_never_returns[OF this] show ?thesis
    by (simp only: r1 r2)
qed

text \<open>
  The flag \<open>retry\<close> is set when a bulk string has not arrived completely and is never reset. On a connector
  that has its functions registered, if the string arrives in two pieces, the first of which holds the
  line with its length, and then nothing more comes within the timeout of any further \<open>recv\<close>, because the
  server waits for the next command, \<open>Recv\<close> into a buffer of zeros never returns, although the whole reply is
  in the buffer.
\<close>

lemma redis_split_reply_never_returns:
  assumes "bulk_registered s" and "IsConnection (rc_session s)"
    and "bulk_ok v" and "so_in (ss_sock (rc_session s)) = encode_reply (Bulk_Reply v)"
    and "so_chunks (ss_sock (rc_session s)) = [c]" and "so_timeout (ss_sock (rc_session s))"
    and "length (RC_BULK # line (decimal (length v))) \<le> c" and "c < length (encode_reply (Bulk_Reply v))"
    and "length (encode_reply (Bulk_Reply v)) < n" and "n + 1 < 2 ^ 31"
  shows "RedisConnector_Recv (replicate n 0) (of_nat n) s = None"
proof -
  let ?hd = "RC_BULK # line (decimal (length v))" and ?enc = "encode_reply (Bulk_Reply v)"
  let ?t = "take (c - length ?hd) (line v)"
  have v: "0 \<notin> set v" "length v < 2 ^ 31"
    using assms(3) by (simp_all add: bulk_ok_def)
  have enc: "?enc = ?hd @ line v"
    by (simp add: bulk_text_def)
  have "take c ?hd = ?hd"
    using assms(7) by (rule take_all)
  then have first: "take c ?enc = ?hd @ ?t"
    unfolding enc take_append by (simp only:)
  have short: "length ?t < length v + 2"
    using assms(7,8) unfolding enc by (simp add: line_def RC_IDENTIFIER_def)
  have t: "0 \<notin> set ?t"
    using v(1) by (auto simp: line_def RC_IDENTIFIER_def dest: in_set_takeD)
  have zeros: "replicate (n - c) (0 :: u8) = 0 # replicate (n - c - 1) 0"
    using assms(8,9) by (cases "n - c") simp_all
  have "drop 1 (take c ?enc @ replicate (n - c) 0) = line (decimal (length v)) @ ?t @ 0 # replicate (n - c - 1) 0"
    unfolding first zeros by simp
  from Bulk_incomplete[OF this t short v(2)]
  have "process_reply (take c ?enc @ replicate (n - c) 0) False (after_recv c s) = Inr (Some True, True, after_recv c s)"
    using assms(1) unfolding first
    by (simp add: process_reply_bulk BulkProcessing_def)
  moreover have "again (?enc @ replicate (n - length ?enc) 0)"
    using reply_function_complete[of "Bulk_Reply v" "replicate (n - length ?enc) 0" True] assms(3,9,10)
    by (simp add: again_def process_reply_bulk) (metis redis_store_keeps store_reply.simps(4))
  ultimately have "paser_loop (replicate n 0) (of_nat n) 0 False s = None"
    using assms by (intro paser_two_pieces[of s ?enc c n True]) auto
  then show ?thesis
    using assms(2) by (simp add: RedisConnector_Recv_def RedisConnector_Paser_def)
qed

section \<open>Properties\<close>

text \<open>
  C24. The member functions that read replies, on the buffer with a whole reply of their kind in front: an
  error or a status line without carriage return and zero byte, an integer of 32 bits, a bulk string or a
  list of bulk strings without zero bytes, and behind the reply a zero byte. The function reports success,
  does not ask for more, stores exactly the value that was encoded in the member for that kind of reply and
  changes no other member. A null bulk string with nothing behind it is taken for a string that has not
  arrived completely: nothing is stored and more is asked for. The functions are called as they are, because
  no connector is ever completed: both constructors dereference a null pointer.
\<close>

theorem redis_reply_read_back:
  assumes "wf_reply r" and "0 \<in> set rest" and "length (encode_reply r @ rest) < 2 ^ 63"
  shows "call (reply_function r) (encode_reply r @ rest) 1 retry s = Inr (Some True, retry, store_reply r s)
    \<and> call Bulk_Func (RC_BULK # line (int_text (- 1)) @ 0 # rest') 1 retry s = Inr (Some True, True, s)
    \<and> RedisConnector_new u v = Inl Null_Pointer
    \<and> RedisConnector_new_connect resolve dial host port timeout u v = Inl Null_Pointer"
  using reply_function_complete[OF assms] null_bulk_retries RedisConnector_new_faults by blast

theorem redis_reply_read_back_witness:
  "MultiBulkProcessing (encode_reply (Multi_Reply [[97, 98], [99]]) @ replicate 21 0) 1 False (redis_members timerclear timerclear)
    = Inr (Some True, False, (redis_members timerclear timerclear)\<lparr>rc_multiBulk := [[97, 98], [99]]\<rparr>)"
proof -
  let ?r = "Multi_Reply [[97, 98], [99]]"
  have "length (encode_reply ?r) = 19"
    by (simp add: decimal.simps line_def bulk_text_def RC_IDENTIFIER_def)
  moreover have "wf_reply ?r"
    by (simp add: bulk_ok_def)
  ultimately show ?thesis
    using redis_reply_read_back[of ?r "replicate 21 0" False "redis_members timerclear timerclear"]
    by (simp del: encode_reply.simps replicate.simps)
qed

end
