(* ===== verification/Ring_Buffer.thy ===== *)
theory Ring_Buffer
  imports Memory_Manager
begin

text \<open>
  The helpers \<open>BufferManager\<close> and the ring buffer \<open>CBuffer\<close> (include/util/buffer.h), for the default
  element type, which is one byte wide. \<open>N\<close> is the template argument \<open>size_of_buffer\<close>.

  The functions \<open>Write\<close> pass \<open>m_pBuffer.size()\<close> as the size of the destination, but \<open>m_pBuffer\<close> is a
  pointer, so there is no such value; it is the parameter \<open>cap\<close> of the model. \<open>memcpy_s\<close> with a
  destination size below the count or with a null pointer calls the invalid parameter handler, which
  ends the program: a fault.
\<close>

section \<open>BufferManager\<close>

text \<open>Objects are given by their bytes; the functions return the number of bytes and what was written.\<close>

definition GetBuffer :: "bytes \<Rightarrow> bytes \<Rightarrow> (size_t \<times> bytes) result" where
  "GetBuffer buffer value =
     bind_result (mem_read buffer 0 (length value)) (\<lambda>bs. Inr (of_nat (length value), bs))"

definition GetBufferPtr :: "bytes \<Rightarrow> bytes \<Rightarrow> size_t \<Rightarrow> (size_t \<times> bytes) result" where
  "GetBufferPtr buffer value value_size =
     bind_result (mem_read buffer 0 (unat value_size)) (\<lambda>bs.
       bind_result (mem_write value 0 bs) (\<lambda>value'. Inr (value_size, value')))"

definition SetBuffer :: "bytes \<Rightarrow> bytes \<Rightarrow> (size_t \<times> bytes) result" where
  "SetBuffer buffer value =
     bind_result (mem_write buffer 0 value) (\<lambda>buffer'. Inr (of_nat (length value), buffer'))"

definition SetBufferPtr :: "bytes \<Rightarrow> bytes \<Rightarrow> size_t \<Rightarrow> (size_t \<times> bytes) result" where
  "SetBufferPtr buffer value value_size =
     bind_result (mem_read value 0 (unat value_size)) (\<lambda>bs.
       bind_result (mem_write buffer 0 bs) (\<lambda>buffer'. Inr (value_size, buffer')))"

section \<open>CBuffer\<close>

text \<open>The memory that \<open>m_pBuffer\<close> points to, \<open>None\<close> for the null pointer, and the two positions.\<close>

record CBuffer =
  cb_pBuffer :: "bytes option"
  cb_sizeRead :: size_t
  cb_sizeWrite :: size_t

definition CBuffer_new :: CBuffer where
  "CBuffer_new = \<lparr>cb_pBuffer = None, cb_sizeRead = 0, cb_sizeWrite = 0\<rparr>"

definition Set :: "bytes option \<Rightarrow> CBuffer \<Rightarrow> CBuffer" where
  "Set ptr b = b\<lparr>cb_pBuffer := ptr\<rparr>"

definition Getbuffer :: "CBuffer \<Rightarrow> bytes option" where
  "Getbuffer b = cb_pBuffer b"

definition reset :: "size_t \<Rightarrow> bool \<Rightarrow> CBuffer \<Rightarrow> CBuffer result" where
  "reset N b_mem_set b =
     (let b1 = b\<lparr>cb_sizeRead := 0, cb_sizeWrite := 0\<rparr>
      in if b_mem_set then
           (case cb_pBuffer b1 of
              None \<Rightarrow> Inl Null_Pointer
            | Some m \<Rightarrow> bind_result (mem_write m 0 (replicate (unat N) 0)) (\<lambda>m'. Inr (b1\<lparr>cb_pBuffer := Some m'\<rparr>)))
         else Inr b1)"

definition ReadSet :: "size_t \<Rightarrow> CBuffer \<Rightarrow> CBuffer" where
  "ReadSet n b = b\<lparr>cb_sizeRead := cb_sizeRead b + n\<rparr>"

text \<open>The range checks without argument; the one for writing returns a difference of the read position.\<close>

definition ReadsetRangeCheck0 :: "size_t \<Rightarrow> CBuffer \<Rightarrow> size_t" where
  "ReadsetRangeCheck0 N b = (if cb_sizeRead b < N then 0 else cb_sizeRead b - N)"

definition WritesetRangeCheck0 :: "size_t \<Rightarrow> CBuffer \<Rightarrow> size_t" where
  "WritesetRangeCheck0 N b = (if cb_sizeWrite b < N then 0 else cb_sizeRead b - N)"

definition ReadsetRangeCheck :: "size_t \<Rightarrow> size_t \<Rightarrow> CBuffer \<Rightarrow> size_t" where
  "ReadsetRangeCheck N add b = (if cb_sizeRead b + add < N then 0 else cb_sizeRead b + add - N)"

definition WritesetRangeCheck :: "size_t \<Rightarrow> size_t \<Rightarrow> CBuffer \<Rightarrow> size_t" where
  "WritesetRangeCheck N add b = (if cb_sizeWrite b + add < N then 0 else cb_sizeWrite b + add - N)"

definition ReadsetRangeSet :: "size_t \<Rightarrow> size_t \<Rightarrow> CBuffer \<Rightarrow> CBuffer" where
  "ReadsetRangeSet N n b =
     b\<lparr>cb_sizeRead := if cb_sizeRead b < N then cb_sizeRead b + n else cb_sizeRead b + n - N\<rparr>"

definition WritesetRangeSet :: "size_t \<Rightarrow> size_t \<Rightarrow> CBuffer \<Rightarrow> CBuffer" where
  "WritesetRangeSet N n b =
     b\<lparr>cb_sizeWrite := if cb_sizeWrite b < N then cb_sizeWrite b + n else cb_sizeWrite b + n - N\<rparr>"

definition GetReadPos :: "size_t \<Rightarrow> CBuffer \<Rightarrow> size_t \<times> CBuffer" where
  "GetReadPos N b = (let b' = ReadsetRangeSet N 0 b in (cb_sizeRead b', b'))"

definition GetWritePos :: "size_t \<Rightarrow> CBuffer \<Rightarrow> size_t \<times> CBuffer" where
  "GetWritePos N b = (let b' = WritesetRangeSet N 0 b in (cb_sizeWrite b', b'))"

text \<open>
  One copy into the buffer: \<open>n\<close> bytes of the object \<open>data\<close> from the position \<open>off\<close> on, and the update
  of the write position when it has succeeded; one copy out of it likewise.
\<close>

definition put :: "size_t \<Rightarrow> size_t \<Rightarrow> bytes \<Rightarrow> size_t \<Rightarrow> size_t \<Rightarrow> CBuffer \<Rightarrow> CBuffer result" where
  "put N cap data off n b =
     (let (pos, b1) = GetWritePos N b
      in if n = 0 then Inr (WritesetRangeSet N n b1)
         else case cb_pBuffer b1 of
           None \<Rightarrow> Inl Null_Pointer
         | Some m \<Rightarrow>
             if cap < n then Inl Out_Of_Bounds
             else bind_result (mem_read data (unat off) (unat n)) (\<lambda>bs.
               bind_result (mem_write m (unat pos) bs) (\<lambda>m'.
                 Inr (WritesetRangeSet N n (b1\<lparr>cb_pBuffer := Some m'\<rparr>)))))"

definition get :: "size_t \<Rightarrow> size_t \<Rightarrow> bytes \<Rightarrow> size_t \<Rightarrow> size_t \<Rightarrow> CBuffer \<Rightarrow> (bytes \<times> CBuffer) result" where
  "get N cap data off n b =
     (let (pos, b1) = GetReadPos N b
      in if n = 0 then Inr (data, ReadsetRangeSet N n b1)
         else case cb_pBuffer b1 of
           None \<Rightarrow> Inl Null_Pointer
         | Some m \<Rightarrow>
             if cap < n then Inl Out_Of_Bounds
             else bind_result (mem_read m (unat pos) (unat n)) (\<lambda>bs.
               bind_result (mem_write data (unat off) bs) (\<lambda>data'.
                 Inr (data', ReadsetRangeSet N n b1))))"

text \<open>The overloads for a typed object, given by its bytes, and for a pointer with a size.\<close>

definition Write_typed :: "size_t \<Rightarrow> size_t \<Rightarrow> bytes \<Rightarrow> CBuffer \<Rightarrow> (i32 \<times> CBuffer) result" where
  "Write_typed N cap data b =
     (let n = of_nat (length data); sizeRemain = WritesetRangeCheck N n b
      in if sizeRemain = 0 then bind_result (put N cap data 0 n b) (\<lambda>b1. Inr (0, b1))
         else let sizeTail = n - sizeRemain
              in bind_result (if n \<noteq> 0 then put N cap data 0 sizeTail b else Inr b) (\<lambda>b1.
                   bind_result (put N cap data 0 sizeRemain b1) (\<lambda>b2. Inr (0, b2))))"

definition Write :: "size_t \<Rightarrow> size_t \<Rightarrow> bytes \<Rightarrow> size_t \<Rightarrow> CBuffer \<Rightarrow> (i32 \<times> CBuffer) result" where
  "Write N cap data n b =
     (let sizeRemain = WritesetRangeCheck N n b
      in if sizeRemain = 0 then bind_result (put N cap data 0 n b) (\<lambda>b1. Inr (0, b1))
         else let sizeTail = n - sizeRemain
              in bind_result (if sizeTail \<noteq> 0 then put N cap data 0 sizeTail b else Inr b) (\<lambda>b1.
                   bind_result (put N cap data sizeTail sizeRemain b1) (\<lambda>b2. Inr (0, b2))))"

definition Read_typed :: "size_t \<Rightarrow> bytes \<Rightarrow> CBuffer \<Rightarrow> (size_t \<times> bytes \<times> CBuffer) result" where
  "Read_typed N data b =
     (let n = of_nat (length data); sizeRemain = ReadsetRangeCheck N n b
      in if sizeRemain = 0 then bind_result (get N n data 0 n b) (\<lambda>(data1, b1). Inr (n, data1, b1))
         else let sizeTail = n - sizeRemain
              in bind_result (if sizeTail \<noteq> 0 then get N n data 0 sizeTail b else Inr (data, b)) (\<lambda>(data1, b1).
                   bind_result (get N n data1 0 sizeRemain b1) (\<lambda>(data2, b2). Inr (n, data2, b2))))"

definition Read :: "size_t \<Rightarrow> bytes \<Rightarrow> size_t \<Rightarrow> CBuffer \<Rightarrow> (size_t \<times> bytes \<times> CBuffer) result" where
  "Read N data n b =
     (let sizeRemain = ReadsetRangeCheck N n b
      in if sizeRemain = 0 then bind_result (get N n data 0 n b) (\<lambda>(data1, b1). Inr (n, data1, b1))
         else let sizeTail = n - sizeRemain
              in bind_result (if sizeTail \<noteq> 0 then get N sizeTail data 0 sizeTail b else Inr (data, b)) (\<lambda>(data1, b1).
                   bind_result (get N sizeRemain data1 sizeTail sizeRemain b1) (\<lambda>(data2, b2). Inr (n, data2, b2))))"

section \<open>One copy\<close>

definition overwrite :: "bytes \<Rightarrow> nat \<Rightarrow> bytes \<Rightarrow> bytes" where
  "overwrite m pos bs = take pos m @ bs @ drop (pos + length bs) m"

lemma length_overwrite: "pos + length bs \<le> length m \<Longrightarrow> length (overwrite m pos bs) = length m"
  by (simp add: overwrite_def)

lemma nth_overwrite:
  "pos + length bs \<le> length m \<Longrightarrow> i < length m \<Longrightarrow>
     overwrite m pos bs ! i = (if pos \<le> i \<and> i < pos + length bs then bs ! (i - pos) else m ! i)"
  by (auto simp: overwrite_def nth_append min_def)

text \<open>
  A buffer with real memory of at least \<open>n\<close> bytes and positions in range. A position equal to the size
  stands for position 0.
\<close>

definition ring_ok :: "nat \<Rightarrow> CBuffer \<Rightarrow> bytes \<Rightarrow> bool" where
  "ring_ok n b m \<longleftrightarrow> cb_pBuffer b = Some m \<and> 0 < n \<and> n \<le> length m \<and> length m < 2 ^ 63
     \<and> unat (cb_sizeRead b) \<le> n \<and> unat (cb_sizeWrite b) \<le> n"

lemma position_mod: "(p :: nat) \<le> n \<Longrightarrow> 0 < n \<Longrightarrow> p mod n = (if p < n then p else 0)"
  by auto

lemma unat_normalised:
  assumes "unat (p :: size_t) \<le> n" and "0 < n" and "n < 2 ^ 63"
  shows "(if p < of_nat n then p + 0 else p + 0 - of_nat n) = of_nat (unat p mod n)"
proof (cases "unat p < n")
  case True
  then show ?thesis
    using unat_of_nat_size[of n] assms(3) by (simp add: word_less_nat_alt)
next
  case False
  then have "unat p = n" using assms(1) by simp
  moreover have "p = of_nat (unat p)" by simp
  ultimately show ?thesis by simp
qed

lemma put_ok:
  assumes "ring_ok n b m" and "pos = unat (cb_sizeWrite b) mod n" and "pos + k \<le> n" and "n \<le> unat cap"
    and "off + k \<le> length data" and "length data < 2 ^ 63"
  shows "put (of_nat n) cap data (of_nat off) (of_nat k) b
    = Inr (b\<lparr>cb_pBuffer := Some (overwrite m pos (take k (drop off data))), cb_sizeWrite := of_nat (pos + k)\<rparr>)"
proof -
  have ok: "cb_pBuffer b = Some m" "0 < n" "n \<le> length m" "n < 2 ^ 63" "unat (cb_sizeWrite b) \<le> n"
    using assms(1) by (simp_all add: ring_ok_def)
  have u: "unat (of_nat n :: size_t) = n" "unat (of_nat pos :: size_t) = pos" "unat (of_nat k :: size_t) = k"
    "unat (of_nat off :: size_t) = off"
    using ok(3,4) assms(3,5,6) by (intro unat_of_nat_size; simp)+
  have less: "(of_nat pos :: size_t) < of_nat n"
    unfolding word_less_nat_alt u(1,2) using ok(2) assms(2) by simp
  have pos: "GetWritePos (of_nat n) b = (of_nat pos, b\<lparr>cb_sizeWrite := of_nat pos\<rparr>)"
    using unat_normalised[OF ok(5,2,4)]
    by (simp add: GetWritePos_def WritesetRangeSet_def Let_def assms(2) del: add_0_right)
  have cap: "\<not> cap < of_nat k"
    using assms(3,4) by (simp add: word_less_nat_alt u(3))
  have "mem_write m pos (take k (drop off data)) = Inr (overwrite m pos (take k (drop off data)))"
    using assms(3,5) ok(3) by (simp add: mem_write_def overwrite_def)
  note wr = this
  have same: "b\<lparr>cb_pBuffer := Some m, cb_sizeWrite := of_nat pos\<rparr> = b\<lparr>cb_sizeWrite := of_nat pos\<rparr>"
    using ok(1) by (cases b) simp
  show ?thesis
  proof (cases "k = 0")
    case True
    then show ?thesis
      using less same by (simp add: put_def pos WritesetRangeSet_def overwrite_def)
  next
    case False
    then have "(of_nat k :: size_t) \<noteq> 0"
      using u(3) by auto
    then show ?thesis
      using ok(1) cap less wr mem_read_ok[OF assms(5)] by (simp add: put_def pos WritesetRangeSet_def u)
  qed
qed

lemma put_source:
  assumes "mem_read data (unat off) (unat k) = mem_read data' (unat off') (unat k)"
  shows "put N cap data off k b = put N cap data' off' k b"
  unfolding put_def assms ..

lemma get_ok:
  assumes "ring_ok n b m" and "pos = unat (cb_sizeRead b) mod n" and "pos + k \<le> n" and "k \<le> unat cap"
    and "off + k \<le> length data" and "length data < 2 ^ 63"
  shows "get (of_nat n) cap data (of_nat off) (of_nat k) b
    = Inr (overwrite data off (take k (drop pos m)), b\<lparr>cb_sizeRead := of_nat (pos + k)\<rparr>)"
proof -
  have ok: "cb_pBuffer b = Some m" "0 < n" "n \<le> length m" "n < 2 ^ 63" "unat (cb_sizeRead b) \<le> n"
    using assms(1) by (simp_all add: ring_ok_def)
  have u: "unat (of_nat n :: size_t) = n" "unat (of_nat pos :: size_t) = pos" "unat (of_nat k :: size_t) = k"
    "unat (of_nat off :: size_t) = off"
    using ok(3,4) assms(3,5,6) by (intro unat_of_nat_size; simp)+
  have less: "(of_nat pos :: size_t) < of_nat n"
    unfolding word_less_nat_alt u(1,2) using ok(2) assms(2) by simp
  have pos: "GetReadPos (of_nat n) b = (of_nat pos, b\<lparr>cb_sizeRead := of_nat pos\<rparr>)"
    using unat_normalised[OF ok(5,2,4)]
    by (simp add: GetReadPos_def ReadsetRangeSet_def Let_def assms(2) del: add_0_right)
  have cap: "\<not> cap < of_nat k"
    using assms(4) by (simp add: word_less_nat_alt u(3))
  have "length (take k (drop pos m)) = k"
    using assms(3) ok(3) by simp
  then have "mem_write data off (take k (drop pos m)) = Inr (overwrite data off (take k (drop pos m)))"
    using assms(5) by (simp add: mem_write_def overwrite_def)
  note wr = this
  show ?thesis
  proof (cases "k = 0")
    case True
    then show ?thesis
      using less by (simp add: get_def pos ReadsetRangeSet_def overwrite_def)
  next
    case False
    then have "(of_nat k :: size_t) \<noteq> 0"
      using u(3) by auto
    moreover have "mem_read m pos k = Inr (take k (drop pos m))"
      using assms(3) ok(3) by (simp add: mem_read_ok)
    ultimately show ?thesis
      using ok(1) cap less wr by (simp add: get_def pos ReadsetRangeSet_def u)
  qed
qed

section \<open>Copies across the end\<close>

text \<open>What the range checks compute for positions in range: the part beyond the end of the buffer.\<close>

lemma range_excess:
  fixes p :: size_t
  assumes "unat p \<le> n" and "k < 2 ^ 63" and "n < 2 ^ 63"
  shows "(if p + of_nat k < of_nat n then 0 else p + of_nat k - of_nat n) = of_nat (unat p + k - n)"
proof -
  have sum: "p + of_nat k = of_nat (unat p + k)"
    by simp
  have "unat (of_nat (unat p + k) :: size_t) = unat p + k" "unat (of_nat n :: size_t) = n"
    using assms by (intro unat_of_nat_size; simp)+
  then have "of_nat (unat p + k) < (of_nat n :: size_t) \<longleftrightarrow> unat p + k < n"
    by (simp only: word_less_nat_alt)
  then show ?thesis
    unfolding sum by (simp add: of_nat_diff)
qed

lemma of_nat_size_eq_0: "k < 2 ^ 63 \<Longrightarrow> (of_nat k :: size_t) = 0 \<longleftrightarrow> k = 0"
  using unat_of_nat_size[of k] by auto

lemma of_nat_size_diff: "m \<le> k \<Longrightarrow> (of_nat k - of_nat m :: size_t) = of_nat (k - m)"
  by simp

lemma overwrite_Nil [simp]: "overwrite m pos [] = m"
  by (simp add: overwrite_def)

text \<open>The memory after \<open>k\<close> bytes were written at a position, going on at the start.\<close>

definition ring_write :: "nat \<Rightarrow> bytes \<Rightarrow> nat \<Rightarrow> bytes \<Rightarrow> bytes" where
  "ring_write n m pos bs = overwrite (overwrite m pos (take (n - pos) bs)) 0 (drop (n - pos) bs)"

text \<open>
  The three courses of a transfer of \<open>k\<close> bytes at a position: it ends before the end of the memory, it
  is cut in two, or the position is the end of the memory and it goes to the start.
\<close>

lemma transfer_cases:
  fixes p :: size_t
  defines "excess \<equiv> \<lambda>k n. (if p + of_nat k < of_nat n then 0 else p + of_nat k - of_nat n) :: size_t"
  assumes "unat p \<le> n" and "0 < n" and "n < 2 ^ 63" and "k \<le> n" and "pos = unat p mod n"
  obtains (whole) "excess k n = 0" and "pos + k \<le> n"
    | (split) "excess k n = of_nat (pos + k - n)" and "excess k n \<noteq> 0" and "of_nat k - excess k n = of_nat (n - pos)"
        and "(of_nat (n - pos) :: size_t) \<noteq> 0" and "n < pos + k" and "pos < n"
    | (start) "excess k n = of_nat k" and "excess k n \<noteq> 0" and "of_nat k - excess k n = 0" and "pos = 0"
proof -
  have k: "k < 2 ^ 63" using assms(4,5) by simp
  have ex: "excess k n = of_nat (unat p + k - n)"
    unfolding excess_def by (rule range_excess[OF assms(2) k assms(4)])
  show thesis
  proof (cases "unat p + k \<le> n")
    case True
    then show ?thesis
      using whole ex assms(6) position_mod[OF assms(2,3)] by simp
  next
    case False
    then have nz: "excess k n \<noteq> 0"
      using of_nat_size_eq_0[of "unat p + k - n"] assms(2,4,5) unfolding ex by simp
    show ?thesis
    proof (cases "unat p < n")
      case True
      then have pos: "pos = unat p" using assms(6) by simp
      have "of_nat k - excess k n = of_nat (n - pos)"
        unfolding ex using of_nat_size_diff[of "unat p + k - n" k] assms(5) False True by (simp add: pos)
      moreover have "(of_nat (n - pos) :: size_t) \<noteq> 0"
        using of_nat_size_eq_0[of "n - pos"] True assms(4) by (simp add: pos)
      ultimately show ?thesis
        using split nz ex False True by (simp add: pos)
    next
      case False
      then have "unat p = n" using assms(2) by simp
      then show ?thesis
        using start nz ex assms(6) by simp
    qed
  qed
qed

lemma Write_ok:
  assumes "ring_ok n b m" and "pos = unat (cb_sizeWrite b) mod n" and "k \<le> n" and "n \<le> unat cap"
    and "k \<le> length data" and "length data < 2 ^ 63"
  shows "\<exists>w. Write (of_nat n) cap data (of_nat k) b
      = Inr (0, b\<lparr>cb_pBuffer := Some (ring_write n m pos (take k data)), cb_sizeWrite := of_nat w\<rparr>)
    \<and> w \<le> n \<and> w mod n = (pos + k) mod n"
proof -
  have ok: "0 < n" "n \<le> length m" "n < 2 ^ 63" "unat (cb_sizeWrite b) \<le> n"
    using assms(1) by (simp_all add: ring_ok_def)
  have one: "ring_write n m pos (take k data) = overwrite m pos (take k data)" if "pos + k \<le> n"
    using that by (simp add: ring_write_def)
  from ok(4,1,3) assms(3,2) show ?thesis
  proof (cases rule: transfer_cases)
    case whole
    then show ?thesis
      using put_ok[OF assms(1,2) whole(2) assms(4), of 0 data] assms(5,6) one
      by (intro exI[of _ "pos + k"]) (simp add: Write_def WritesetRangeCheck_def)
  next
    case split
    let ?r = "pos + k - n" and ?x = "take (n - pos) data"
    let ?b1 = "b\<lparr>cb_pBuffer := Some (overwrite m pos ?x), cb_sizeWrite := of_nat n\<rparr>"
    have first: "put (of_nat n) cap data 0 (of_nat (n - pos)) b = Inr ?b1"
      using put_ok[OF assms(1,2) _ assms(4), of "n - pos" 0 data] split(5,6) assms(5,6) by simp
    have un: "unat (of_nat n :: size_t) = n"
      using ok(3) by (intro unat_of_nat_size) simp
    have "length (overwrite m pos ?x) = length m"
      using split(6) ok(2) by (intro length_overwrite) simp
    then have ok1: "ring_ok n ?b1 (overwrite m pos ?x)"
      using assms(1) un by (simp add: ring_ok_def)
    have second: "put (of_nat n) cap data (of_nat (n - pos)) (of_nat ?r) ?b1 = Inr (?b1\<lparr>cb_pBuffer :=
        Some (overwrite (overwrite m pos ?x) 0 (take ?r (drop (n - pos) data))), cb_sizeWrite := of_nat ?r\<rparr>)"
      using put_ok[OF ok1 _ _ assms(4), of 0 ?r "n - pos" data] un assms(3,5,6) split(5,6) by simp
    have "n - pos \<le> k" "k - (n - pos) = ?r" "?r \<le> n"
      using split(5,6) assms(3) by simp_all
    moreover from this have "take (n - pos) (take k data) = ?x" "drop (n - pos) (take k data) = take ?r (drop (n - pos) data)"
      by (simp add: min_absorb2, simp only: drop_take)
    ultimately show ?thesis
      using split first second
      by (intro exI[of _ ?r]) (simp add: Write_def WritesetRangeCheck_def ring_write_def mod_if)
  next
    case start
    then show ?thesis
      using put_ok[OF assms(1,2) _ assms(4), of k 0 data] assms(3,5,6) one
      by (intro exI[of _ k]) (simp add: Write_def WritesetRangeCheck_def Let_def)
  qed
qed

definition ring_read :: "nat \<Rightarrow> bytes \<Rightarrow> nat \<Rightarrow> nat \<Rightarrow> bytes" where
  "ring_read n m pos k = take (min k (n - pos)) (drop pos m) @ take (k - (n - pos)) m"

lemma overwrite_overwrite: "overwrite (overwrite d 0 xs) (length xs) ys = overwrite d 0 (xs @ ys)"
  by (simp add: overwrite_def add.commute)

lemma Read_ok:
  assumes "ring_ok n b m" and "pos = unat (cb_sizeRead b) mod n" and "k \<le> n"
    and "k \<le> length data" and "length data < 2 ^ 63"
  shows "\<exists>r. Read (of_nat n) data (of_nat k) b
      = Inr (of_nat k, overwrite data 0 (ring_read n m pos k), b\<lparr>cb_sizeRead := of_nat r\<rparr>)
    \<and> r \<le> n \<and> r mod n = (pos + k) mod n"
proof -
  have ok: "0 < n" "n \<le> length m" "n < 2 ^ 63" "unat (cb_sizeRead b) \<le> n"
    using assms(1) by (simp_all add: ring_ok_def)
  have u: "unat (of_nat j :: size_t) = j" if "j \<le> n" for j
    using that ok(3) by (intro unat_of_nat_size) simp
  have one: "ring_read n m pos k = take k (drop pos m)" if "pos + k \<le> n"
    using that by (simp add: ring_read_def min_def)
  from ok(4,1,3) assms(3,2) show ?thesis
  proof (cases rule: transfer_cases)
    case whole
    then show ?thesis
      using get_ok[OF assms(1,2) whole(2), of "of_nat k" 0 data] assms(3-5) u[of k] one
      by (intro exI[of _ "pos + k"]) (simp add: Read_def ReadsetRangeCheck_def)
  next
    case split
    let ?r = "pos + k - n" and ?x = "take (n - pos) (drop pos m)" and ?b1 = "b\<lparr>cb_sizeRead := of_nat n\<rparr>"
    have first: "get (of_nat n) (of_nat (n - pos)) data 0 (of_nat (n - pos)) b = Inr (overwrite data 0 ?x, ?b1)"
      using get_ok[OF assms(1,2), of "n - pos" "of_nat (n - pos)" 0 data] split(5,6) assms(4,5) u[of "n - pos"] by simp
    have ok1: "ring_ok n ?b1 m"
      using assms(1) u[of n] by (simp add: ring_ok_def)
    have lx: "length ?x = n - pos" using ok(2) split(6) by simp
    then have ld: "length (overwrite data 0 ?x) = length data"
      using split(5) assms(4) by (intro length_overwrite) simp
    have second: "get (of_nat n) (of_nat ?r) (overwrite data 0 ?x) (of_nat (n - pos)) (of_nat ?r) ?b1
        = Inr (overwrite data 0 (?x @ take ?r m), b\<lparr>cb_sizeRead := of_nat ?r\<rparr>)"
      using get_ok[OF ok1, of 0 ?r "of_nat ?r" "n - pos" "overwrite data 0 ?x"] u[of n] u[of ?r] assms(3-5) split(5,6) ld
        overwrite_overwrite[of data ?x "take ?r m"] lx by simp
    have "n - pos \<le> k" "k - (n - pos) = ?r" "?r \<le> n"
      using split(5,6) assms(3) by simp_all
    moreover from this have "ring_read n m pos k = ?x @ take ?r m"
      unfolding ring_read_def by (simp add: min_absorb2)
    ultimately show ?thesis
      using split first second
      by (intro exI[of _ ?r]) (simp add: Read_def ReadsetRangeCheck_def mod_if)
  next
    case start
    then show ?thesis
      using get_ok[OF assms(1,2), of k "of_nat k" 0 data] assms(3-5) u[of k] one
      by (intro exI[of _ k]) (simp add: Read_def ReadsetRangeCheck_def Let_def)
  qed
qed

section \<open>The contents of the ring\<close>

lemma ring_read_nth:
  assumes "n \<le> length m" and "pos < n" and "k \<le> n"
  shows "length (ring_read n m pos k) = k" and "i < k \<Longrightarrow> ring_read n m pos k ! i = m ! ((pos + i) mod n)"
proof -
  show "length (ring_read n m pos k) = k"
    using assms by (simp add: ring_read_def)
  have wrap: "(pos + i) mod n = pos + i - n" if "i < k" "n - pos \<le> i" for i
  proof -
    have "n \<le> pos + i" "pos + i - n < n" using that assms by linarith+
    then show ?thesis by (simp add: le_mod_geq)
  qed
  show "ring_read n m pos k ! i = m ! ((pos + i) mod n)" if "i < k"
  proof (cases "i < n - pos")
    case True
    then show ?thesis
      using that assms by (simp add: ring_read_def nth_append)
  next
    case False
    have "length (take (min k (n - pos)) (drop pos m)) = n - pos" "i - (n - pos) = pos + i - n"
      using that assms False by simp_all
    then show ?thesis
      using that assms False wrap[OF that] by (simp add: ring_read_def nth_append del: length_take length_drop)
  qed
qed

lemma ring_write_nth:
  assumes "n \<le> length m" and "pos < n" and "length bs \<le> n" and "i < n"
  shows "ring_write n m pos bs ! ((pos + i) mod n) = (if i < length bs then bs ! i else m ! ((pos + i) mod n))"
    and "length (ring_write n m pos bs) = length m"
proof -
  let ?x = "take (n - pos) bs" and ?y = "drop (n - pos) bs" and ?j = "(pos + i) mod n"
  have len: "pos + length ?x \<le> length m" "length (overwrite m pos ?x) = length m" "0 + length ?y \<le> length m"
    using assms by (auto simp: length_overwrite)
  then show "length (ring_write n m pos bs) = length m"
    by (simp add: ring_write_def length_overwrite)
  have "?j < n" using assms(2) by simp
  then have j: "?j < length m" using assms(1) by simp
  have nth: "ring_write n m pos bs ! ?j = (if ?j < length ?y then ?y ! ?j else
      if pos \<le> ?j \<and> ?j < pos + length ?x then ?x ! (?j - pos) else m ! ?j)"
    unfolding ring_write_def using len j by (simp add: nth_overwrite del: length_take length_drop)
  show "ring_write n m pos bs ! ?j = (if i < length bs then bs ! i else m ! ?j)"
  proof (cases "pos + i < n")
    case True
    then show ?thesis using nth assms(3) by auto
  next
    case False
    then have "?j = pos + i - n" using assms by (simp add: mod_if)
    then show ?thesis using nth False assms by auto
  qed
qed

section \<open>A first-in first-out queue of bytes\<close>

text \<open>
  Operations on a queue that holds at most \<open>n\<close> bytes, and what they return: \<open>None\<close> when an operation
  is not allowed, the bytes taken out otherwise.
\<close>

datatype fifo_op = Enqueue bytes | Dequeue nat

fun fifo_spec :: "nat \<Rightarrow> fifo_op list \<Rightarrow> bytes \<Rightarrow> (bytes list \<times> bytes) option" where
  "fifo_spec n [] q = Some ([], q)"
| "fifo_spec n (Enqueue bs # ops) q =
     (if length q + length bs \<le> n then fifo_spec n ops (q @ bs) else None)"
| "fifo_spec n (Dequeue k # ops) q =
     (if k \<le> length q then map_option (\<lambda>(outs, q'). (take k q # outs, q')) (fifo_spec n ops (drop k q)) else None)"

text \<open>The same operations on an implementation.\<close>

fun fifo_run ::
  "(bytes \<Rightarrow> 's \<Rightarrow> 's result) \<Rightarrow> (nat \<Rightarrow> 's \<Rightarrow> (bytes \<times> 's) result) \<Rightarrow> fifo_op list \<Rightarrow> 's \<Rightarrow> (bytes list \<times> 's) result" where
  "fifo_run enq deq [] s = Inr ([], s)"
| "fifo_run enq deq (Enqueue bs # ops) s = bind_result (enq bs s) (fifo_run enq deq ops)"
| "fifo_run enq deq (Dequeue k # ops) s =
     bind_result (deq k s) (\<lambda>(bs, s'). bind_result (fifo_run enq deq ops s') (\<lambda>(outs, s''). Inr (bs # outs, s'')))"

locale byte_fifo =
  fixes room :: nat
    and enq :: "bytes \<Rightarrow> 's \<Rightarrow> 's result"
    and deq :: "nat \<Rightarrow> 's \<Rightarrow> (bytes \<times> 's) result"
    and holds :: "'s \<Rightarrow> bytes \<Rightarrow> bool"
  assumes enq: "holds s q \<Longrightarrow> length q + length bs \<le> room \<Longrightarrow> \<exists>s'. enq bs s = Inr s' \<and> holds s' (q @ bs)"
    and deq: "holds s q \<Longrightarrow> k \<le> length q \<Longrightarrow> \<exists>s'. deq k s = Inr (take k q, s') \<and> holds s' (drop k q)"
begin

lemma run_refines:
  assumes "holds s q" and "fifo_spec room ops q = Some (outs, q')"
  shows "\<exists>s'. fifo_run enq deq ops s = Inr (outs, s') \<and> holds s' q'"
  using assms
proof (induction ops arbitrary: s q outs)
  case (Cons op ops)
  show ?case
  proof (cases op)
    case (Enqueue bs)
    then show ?thesis
      using Cons enq[of s q bs] by (fastforce split: if_splits)
  next
    case (Dequeue k)
    with Cons.prems(2) obtain outs' where
      o: "k \<le> length q" "fifo_spec room ops (drop k q) = Some (outs', q')" "outs = take k q # outs'"
      by (auto split: if_splits)
    from deq[OF Cons.prems(1) o(1)] obtain s' where s': "deq k s = Inr (take k q, s')" "holds s' (drop k q)"
      by blast
    from Cons.IH[OF s'(2) o(2)] show ?thesis
      using s'(1) o(3) Dequeue by auto
  qed
qed simp

end

section \<open>The ring buffer is such a queue\<close>

text \<open>
  The buffer holds the queue \<open>q\<close>: the bytes from the read position on, modulo the size, are those of
  \<open>q\<close>, and the write position is behind them. For a queue that is full both positions are equal, as
  they are for an empty one: the buffer does not know how much it holds.
\<close>

definition ring_holds :: "nat \<Rightarrow> CBuffer \<Rightarrow> bytes \<Rightarrow> bool" where
  "ring_holds n b q \<longleftrightarrow> (\<exists>m. ring_ok n b m \<and> length q \<le> n
     \<and> unat (cb_sizeWrite b) mod n = (unat (cb_sizeRead b) + length q) mod n
     \<and> (\<forall>i < length q. m ! ((unat (cb_sizeRead b) + i) mod n) = q ! i))"

definition ring_enq :: "nat \<Rightarrow> size_t \<Rightarrow> bytes \<Rightarrow> CBuffer \<Rightarrow> CBuffer result" where
  "ring_enq n cap bs b = bind_result (Write (of_nat n) cap bs (of_nat (length bs)) b) (\<lambda>(_, b'). Inr b')"

definition ring_deq :: "nat \<Rightarrow> nat \<Rightarrow> CBuffer \<Rightarrow> (bytes \<times> CBuffer) result" where
  "ring_deq n k b = bind_result (Read (of_nat n) (replicate k 0) (of_nat k) b) (\<lambda>(_, bs, b'). Inr (bs, b'))"

lemma ring_write_cells:
  assumes "0 < n" and "n \<le> length m" and "length q + length bs \<le> n" and "w mod n = (r + length q) mod n"
    and "\<forall>i < length q. m ! ((r + i) mod n) = q ! i" and "i < length (q @ bs)"
  shows "ring_write n m (w mod n) bs ! ((r + i) mod n) = (q @ bs) ! i"
proof -
  note nth = ring_write_nth(1)[OF assms(2), of "w mod n" bs]
  have shift: "(w mod n + j) mod n = ((r + length q) + j) mod n" for j
    unfolding assms(4) by (simp only: mod_add_left_eq)
  show ?thesis
  proof (cases "i < length q")
    case True
    let ?j = "n - length q + i"
    have "(w mod n + ?j) mod n = ((r + length q) + ?j) mod n" by (rule shift)
    also have "(r + length q) + ?j = (r + i) + n" using assms(3) by simp
    finally have j: "(w mod n + ?j) mod n = (r + i) mod n" by simp
    have "?j < n" "\<not> ?j < length bs" using True assms(3) by simp_all
    then show ?thesis
      using nth[of ?j] j assms(1,3,5) True by (simp add: nth_append)
  next
    case False
    let ?j = "i - length q"
    have "(r + length q) + ?j = r + i" using False by simp
    then have j: "(w mod n + ?j) mod n = (r + i) mod n" using shift[of ?j] by simp
    have "?j < n" "?j < length bs" using False assms(3,6) by auto
    then show ?thesis
      using nth[of ?j] j False assms(1,3) by (simp add: nth_append)
  qed
qed

lemma ring_holds_Write:
  assumes "ring_holds n b q" and "length q + length bs \<le> n" and "n \<le> unat cap"
  shows "\<exists>b'. ring_enq n cap bs b = Inr b' \<and> ring_holds n b' (q @ bs)"
proof -
  from assms(1) obtain m where m: "ring_ok n b m"
    "unat (cb_sizeWrite b) mod n = (unat (cb_sizeRead b) + length q) mod n"
    "\<forall>i < length q. m ! ((unat (cb_sizeRead b) + i) mod n) = q ! i"
    by (auto simp: ring_holds_def)
  let ?r = "unat (cb_sizeRead b)" and ?pos = "unat (cb_sizeWrite b) mod n"
  have n: "0 < n" "n \<le> length m" "length m < 2 ^ 63"
    using m(1) by (simp_all add: ring_ok_def)
  have lb: "length bs < 2 ^ 63" using assms(2) n by simp
  obtain w where w: "Write (of_nat n) cap bs (of_nat (length bs)) b
      = Inr (0, b\<lparr>cb_pBuffer := Some (ring_write n m ?pos bs), cb_sizeWrite := of_nat w\<rparr>)"
    "w \<le> n" "w mod n = (?pos + length bs) mod n"
    using Write_ok[OF m(1) refl, of "length bs" cap bs] assms(2,3) lb by auto
  let ?m = "ring_write n m ?pos bs"
  note nth = ring_write_nth[OF n(2), of ?pos bs]
  have uw: "unat (of_nat w :: size_t) = w"
    using w(2) n by (intro unat_of_nat_size) simp
  have cell: "?m ! ((?r + i) mod n) = (q @ bs) ! i" if "i < length (q @ bs)" for i
    by (rule ring_write_cells[OF n(1,2) assms(2) m(2,3) that])
  have "length ?m = length m"
    using nth(2)[of 0] assms(2) n(1) by simp
  moreover have "w mod n = (?r + length (q @ bs)) mod n"
    unfolding w(3) m(2) by (simp add: mod_add_left_eq add.assoc)
  ultimately have "ring_holds n (b\<lparr>cb_pBuffer := Some ?m, cb_sizeWrite := of_nat w\<rparr>) (q @ bs)"
    unfolding ring_holds_def using m(1) w(2) uw assms(2) cell by (intro exI[of _ ?m]) (simp add: ring_ok_def)
  then show ?thesis
    using w(1) by (simp add: ring_enq_def)
qed

lemma ring_holds_Read:
  assumes "ring_holds n b q" and "k \<le> length q"
  shows "\<exists>b'. ring_deq n k b = Inr (take k q, b') \<and> ring_holds n b' (drop k q)"
proof -
  from assms(1) obtain m where m: "ring_ok n b m" "length q \<le> n"
    "unat (cb_sizeWrite b) mod n = (unat (cb_sizeRead b) + length q) mod n"
    "\<forall>i < length q. m ! ((unat (cb_sizeRead b) + i) mod n) = q ! i"
    by (auto simp: ring_holds_def)
  let ?r = "unat (cb_sizeRead b)"
  have n: "0 < n" "n \<le> length m" "length m < 2 ^ 63" "k \<le> n"
    using m(1,2) assms(2) by (simp_all add: ring_ok_def)
  have small: "k < 2 ^ 63" using n by simp
  obtain p where p: "Read (of_nat n) (replicate k 0) (of_nat k) b
      = Inr (of_nat k, overwrite (replicate k 0) 0 (ring_read n m (?r mod n) k), b\<lparr>cb_sizeRead := of_nat p\<rparr>)"
    "p \<le> n" "p mod n = (?r mod n + k) mod n"
    using Read_ok[OF m(1) refl n(4), of "replicate k 0"] small by auto
  note rd = ring_read_nth[OF n(2) mod_less_divisor[OF n(1), of ?r] n(4)]
  have up: "unat (of_nat p :: size_t) = p"
    using p(2) n by (intro unat_of_nat_size) simp
  have "ring_read n m (?r mod n) k = take k q"
  proof (rule nth_equalityI)
    fix i assume "i < length (ring_read n m (?r mod n) k)"
    then have "i < k" using rd(1) by simp
    then show "ring_read n m (?r mod n) k ! i = take k q ! i"
      using rd(2) m(4) assms(2) by (simp add: mod_add_left_eq)
  qed (use rd(1) assms(2) in simp)
  moreover from this have "overwrite (replicate k 0) 0 (ring_read n m (?r mod n) k) = take k q"
    using assms(2) by (simp add: overwrite_def)
  moreover have pr: "(p + j) mod n = (?r + (k + j)) mod n" for j
    using p(3) by (metis mod_add_left_eq add.assoc)
  moreover have "m ! ((p + i) mod n) = drop k q ! i" if "i < length q - k" for i
    using that m(4) pr[of i] by (simp add: add.commute)
  ultimately have "ring_holds n (b\<lparr>cb_sizeRead := of_nat p\<rparr>) (drop k q)"
    unfolding ring_holds_def using m(1-3) p(2) up assms(2) pr[of "length q - k"]
    by (intro exI[of _ m]) (simp add: ring_ok_def)
  then show ?thesis
    using p(1) \<open>overwrite _ _ _ = take k q\<close> by (simp add: ring_deq_def)
qed

interpretation ring: byte_fifo "min n (unat cap)" "ring_enq n cap" "ring_deq n" "\<lambda>b q. n \<le> unat cap \<and> ring_holds n b q"
  for n cap
proof
  fix b q and bs :: bytes
  assume "n \<le> unat cap \<and> ring_holds n b q" and "length q + length bs \<le> min n (unat cap)"
  then show "\<exists>b'. ring_enq n cap bs b = Inr b' \<and> n \<le> unat cap \<and> ring_holds n b' (q @ bs)"
    using ring_holds_Write[of n b q bs cap] by auto
next
  fix b and q :: bytes and k
  assume "n \<le> unat cap \<and> ring_holds n b q" and "k \<le> length q"
  then show "\<exists>b'. ring_deq n k b = Inr (take k q, b') \<and> n \<le> unat cap \<and> ring_holds n b' (drop k q)"
    using ring_holds_Read[of n b q k] by blast
qed

section \<open>Properties\<close>

text \<open>
  C7. A ring buffer of \<open>n\<close> bytes, freshly constructed and given memory, is a first-in first-out queue:
  every sequence of writes and reads through a pointer and a size, of which no write exceeds the free
  space and no read exceeds what was written, goes through without a fault and returns, read by
  read, exactly the bytes of the queue, across any number of turns around the end of the memory.
\<close>

theorem ring_buffer_refines_fifo:
  assumes "0 < n" and "n \<le> length m" and "length m < 2 ^ 63" and "n \<le> unat cap"
    and "fifo_spec n ops [] = Some (outs, q)"
  shows "\<exists>b. fifo_run (ring_enq n cap) (ring_deq n) ops (Set (Some m) CBuffer_new) = Inr (outs, b) \<and> ring_holds n b q"
proof -
  have "ring_holds n (Set (Some m) CBuffer_new) []"
    using assms(1-3) by (simp add: ring_holds_def ring_ok_def Set_def CBuffer_new_def)
  then show ?thesis
    using ring.run_refines[of n cap "Set (Some m) CBuffer_new" "[]" ops outs q] assms(4,5) by (auto simp: min_def)
qed

theorem ring_buffer_refines_fifo_witness:
  "\<exists>b. fifo_run (ring_enq 4 4) (ring_deq 4) [Enqueue [1, 2, 3], Dequeue 2, Enqueue [4, 5, 6], Dequeue 4]
      (Set (Some [0, 0, 0, 0]) CBuffer_new) = Inr ([[1, 2], [3, 4, 5, 6]], b) \<and> ring_holds 4 b []"
  by (rule ring_buffer_refines_fifo) simp_all

text \<open>
  The overload of \<open>Write\<close> for a typed object is wrong when the object crosses the end of the
  memory: the second copy starts again at the first byte of the object, so the bytes read back are
  its first part, twice over.
\<close>

lemma typed_Write_repeats_start:
  assumes "ring_ok n b m" and "pos = unat (cb_sizeWrite b)" and "pos < n" and "n < pos + length data"
    and "length data \<le> n" and "n \<le> unat cap"
  shows "Write_typed (of_nat n) cap data b
    = Write (of_nat n) cap (take (n - pos) data @ take (pos + length data - n) data) (of_nat (length data)) b"
proof -
  let ?t = "n - pos" and ?r = "pos + length data - n" and ?l = "length data"
  let ?data = "take ?t data @ take ?r data"
  have n: "n < 2 ^ 63" "unat (cb_sizeWrite b) \<le> n" "?l < 2 ^ 63"
    using assms by (simp_all add: ring_ok_def)
  have excess: "WritesetRangeCheck (of_nat n) (of_nat ?l) b = of_nat ?r"
    using range_excess[OF n(2,3,1)] assms(2) by (simp add: WritesetRangeCheck_def)
  have u: "unat (of_nat ?t :: size_t) = ?t" "unat (of_nat ?r :: size_t) = ?r"
    using n assms(3,5) by (intro unat_of_nat_size; simp)+
  have tail: "(of_nat ?l - of_nat ?r :: size_t) = of_nat ?t"
    using of_nat_size_diff[of ?r ?l] assms(3,4) by simp
  have nz: "(of_nat ?r :: size_t) \<noteq> 0" "(of_nat ?t :: size_t) \<noteq> 0" "(of_nat ?l :: size_t) \<noteq> 0"
    using of_nat_size_eq_0[of ?r] of_nat_size_eq_0[of ?t] of_nat_size_eq_0[of ?l] assms(3-5) n by auto
  have "mem_read data 0 ?t = mem_read ?data 0 ?t" "mem_read data 0 ?r = mem_read ?data ?t ?r"
    using assms(3,4) by (auto simp: mem_read_def min_def)
  then have "put (of_nat n) cap data 0 (of_nat ?t) b = put (of_nat n) cap ?data 0 (of_nat ?t) b"
    "put (of_nat n) cap data 0 (of_nat ?r) b' = put (of_nat n) cap ?data (of_nat ?t) (of_nat ?r) b'" for b'
    using u by (auto intro: put_source)
  then show ?thesis
    unfolding Write_typed_def Write_def Let_def excess tail using nz by simp
qed

end
