(* ===== verification/Test_Client.thy ===== *)
theory Test_Client
  imports Sync_Client
begin

text \<open>
  The sample client (src/testClient/testClient.cpp): its main function with the session it opens. The
  header object is shared by the session and the main function, so it is the header of the session.
  \<open>resolved\<close> and \<open>peer\<close> are what the resolver and the network make of the server's address.
\<close>

section \<open>The main function\<close>

definition client_timeout :: timeval where
  "client_timeout = \<lparr>tv_sec = 90000, tv_usec = 0\<rparr>"

text \<open>One round: the \<open>i\<close>-th value is sent, and an answer is received and read.\<close>

definition client_round ::
  "bool \<Rightarrow> nat \<Rightarrow> bytes \<Rightarrow> bytes \<Rightarrow> i32 \<Rightarrow> HeaderCCT SyncSessionImpl
     \<Rightarrow> (bytes \<times> bytes \<times> i32 \<times> HeaderCCT SyncSessionImpl) result" where
  "client_round en i sendbuffer recvBuffer recvValue s =
     (let sendValue = of_nat i + 1 :: i32; index = client_GetHeaderSize (ss_pHeader s)
      in bind_result (WriteToBuffer_n sendbuffer 20 index (le_bytes 4 sendValue) 4) (\<lambda>(_, index, sendbuffer).
         bind_result (SyncSessionImpl_Send sendbuffer index s) (\<lambda>(_, s1).
         bind_result (SyncSessionImpl_Recv (client_vtbl en) recvBuffer 20 s1) (\<lambda>(_, recvBuffer, s2).
         bind_result (client_Deserialize en (client_SetDataSize (ss_pHeader s2) 4) recvBuffer 20) (\<lambda>(_, h).
         bind_result (ReadFromBuffer_n recvBuffer 20 (client_GetHeaderSize h) (le_bytes 4 recvValue) 4) (\<lambda>(_, _, value).
         Inr (sendbuffer, recvBuffer, le_word value, s2\<lparr>ss_pHeader := h\<rparr>)))))))"

fun client_rounds ::
  "bool \<Rightarrow> nat \<Rightarrow> nat \<Rightarrow> bytes \<Rightarrow> bytes \<Rightarrow> i32 \<Rightarrow> HeaderCCT SyncSessionImpl \<Rightarrow> (HeaderCCT SyncSessionImpl) result" where
  "client_rounds en 0 i sendbuffer recvBuffer recvValue s = Inr s"
| "client_rounds en (Suc n) i sendbuffer recvBuffer recvValue s =
     bind_result (client_round en i sendbuffer recvBuffer recvValue s)
       (\<lambda>(sendbuffer, recvBuffer, recvValue, s'). client_rounds en n (Suc i) sendbuffer recvBuffer recvValue s')"

definition client_main ::
  "bool \<Rightarrow> nat \<Rightarrow> SD_ENDER \<Rightarrow> timeval \<Rightarrow> timeval \<Rightarrow> bool \<Rightarrow> sock option \<Rightarrow> (int \<times> HeaderCCT SyncSessionImpl) result" where
  "client_main en rnd uninit u v resolved peer =
     (let testClient = SetRecvTimeout client_timeout (SetSendTimeout client_timeout
            (SyncSessionImpl_new u v (client_HeaderCCT_new uninit)))
      in bind_result (SyncSessionImpl_Connect resolved peer testClient) (\<lambda>(connected, s).
        if \<not> connected then bind_result (SyncSessionImpl_destroy s) (\<lambda>s'. Inr (- 1, s'))
        else let h = snd (client_MakeHeader en rnd (ss_pHeader s) 101 4)
             in bind_result (client_Serialize h (replicate 20 0) (client_GetTotalSize h)) (\<lambda>(_, sendbuffer).
                bind_result (client_rounds en 1000 0 sendbuffer (replicate 20 0) 0 (s\<lparr>ss_pHeader := h\<rparr>)) (\<lambda>s'.
                bind_result (SyncSessionImpl_Close s') (\<lambda>(_, s'').
                bind_result (SyncSessionImpl_destroy s'') (\<lambda>s3. Inr (0, s3)))))))"

section \<open>The first round\<close>

lemma Send_beyond_buffer:
  assumes "IsConnection s" and "length buffer < unat n" and "unat n < 2 ^ 31"
  shows "SyncSessionImpl_Send buffer n s = Inl Out_Of_Bounds"
proof -
  have "sint (ucast (n - 0) :: i32) = int (unat n)"
    using sint_small[OF assms(3)] by simp
  then have "send_tries (Suc i) buffer n 0 k = Inl Out_Of_Bounds" for i k
    using assms(2) by (simp add: mem_read_def)
  moreover have "n \<noteq> 0" using assms(2) by auto
  ultimately show ?thesis
    using assms(1) by (simp add: SyncSessionImpl_Send_def try_count_def eval_nat_numeral)
qed

lemma client_round_faults:
  assumes "IsConnection s" and "good_header (ss_pHeader s)"
  shows "client_round en i (replicate 20 0) recvBuffer recvValue s = Inl Out_Of_Bounds"
proof -
  have "GetHeaderSize (ss_pHeader s) = 33"
    using assms(2) by (simp add: good_header_def GetHeaderSize_def sizeof_SD_HEADER_def)
  moreover have "WriteToBuffer_n (replicate 20 0) 20 33 bs 4 = Inr (False, 33, replicate 20 0)" for bs
    by (simp add: WriteToBuffer_n_def)
  moreover have "SyncSessionImpl_Send (replicate 20 0) 33 s = Inl Out_Of_Bounds"
    using assms(1) by (intro Send_beyond_buffer) simp_all
  ultimately show ?thesis
    by (simp add: client_round_def client_as_server del: replicate.simps)
qed

section \<open>Properties\<close>

text \<open>
  C38. The sample client never completes a round. If the address cannot be resolved, the exception of
  the resolver ends it; if the connection is refused, it returns -1 with its
  socket closed; once it is connected, the first
  \<open>Send\<close> is given the header size of 33 bytes as the size of a buffer of 20 bytes, and reads beyond
  its end.
\<close>

theorem test_client_outcome:
  "client_main en rnd uninit u v resolved peer =
    (if \<not> resolved then Inl Uncaught_Exception
     else case peer of
       None \<Rightarrow> Inr (- 1, (SetRecvTimeout client_timeout (SetSendTimeout client_timeout
            (SyncSessionImpl_new u v (HeaderCCT_new uninit))))\<lparr>ss_sock := closed_sock\<rparr>)
     | Some k \<Rightarrow> Inl Out_Of_Bounds)"
proof -
  let ?s0 = "SetRecvTimeout client_timeout (SetSendTimeout client_timeout (SyncSessionImpl_new u v (HeaderCCT_new uninit)))"
  have new: "\<not> IsConnection ?s0" "ss_pHeader ?s0 = HeaderCCT_new uninit"
    by (simp_all add: IsConnection_def SetRecvTimeout_def SetSendTimeout_def SyncSessionImpl_new_def
        ClearRecvTimeout_def ClearSendTimeout_def closed_sock_def)
  have "client_rounds en 1000 0 (replicate 20 0) recvBuffer recvValue s = Inl Out_Of_Bounds"
    if "IsConnection s" "good_header (ss_pHeader s)" for recvBuffer recvValue s
    using client_round_faults[OF that] by (simp add: eval_nat_numeral(3) numeral_eq_Suc del: replicate.simps)
  moreover have "IsConnection (SetTimeWait (s\<lparr>ss_sock := k\<lparr>so_open := True\<rparr>\<rparr>))"
    "ss_pHeader (SetTimeWait (s\<lparr>ss_sock := k\<lparr>so_open := True\<rparr>\<rparr>)) = ss_pHeader s" for s :: "HeaderCCT SyncSessionImpl" and k
    by (simp_all add: IsConnection_def SetTimeWait_def Let_def)
  moreover have "good_header (snd (client_MakeHeader en rnd (HeaderCCT_new uninit) 101 4))"
    by (intro good_header_client_MakeHeader good_header_new)
  ultimately show ?thesis
    using new by (simp add: client_main_def client_as_server SyncSessionImpl_destroy_def SyncSessionImpl_Close_def closed_sock_def SyncSessionImpl_Connect_def client_Serialize_def IsConnection_def Let_def
        del: replicate.simps split: option.split)
qed

end
