(* ===== verification/Tasks.thy ===== *)
theory Tasks
  imports Prelude
begin

text \<open>
  The base classes for background work: \<open>AutoTask\<close> (include/util/auto_task.h), which processes the
  objects of a queue in a thread of its own, and \<open>RepeateTask\<close> (include/util/repeate_task.h), which
  calls \<open>Processing\<close> at intervals. The threads run at any time after their creation, so the use of an
  \<open>AutoTask\<close> is a transition system.
\<close>

section \<open>AutoTask\<close>

text \<open>
  The queue, the number of threads that have been created and have not run yet, and the objects that
  were given to the virtual function \<open>Processing\<close>, in order.
\<close>

record 'a AutoTask =
  at_taskContainer :: "'a list"
  at_threads :: nat
  at_processed :: "'a list"

definition AutoTask_Run :: "'a AutoTask \<Rightarrow> 'a AutoTask" where
  "AutoTask_Run t = t\<lparr>at_threads := at_threads t + 1\<rparr>"

definition AutoTask_new :: "'a AutoTask" where
  "AutoTask_new = AutoTask_Run \<lparr>at_taskContainer = [], at_threads = 0, at_processed = []\<rparr>"

definition AutoTask_Insert :: "'a \<Rightarrow> 'a AutoTask \<Rightarrow> 'a AutoTask" where
  "AutoTask_Insert object t = t\<lparr>at_taskContainer := at_taskContainer t @ [object]\<rparr>"

text \<open>The body of a thread: one object at most.\<close>

definition AutoTaskRun :: "'a AutoTask \<Rightarrow> 'a AutoTask" where
  "AutoTaskRun t =
     (case at_taskContainer t of
        [] \<Rightarrow> t
      | object # rest \<Rightarrow> t\<lparr>at_taskContainer := rest, at_processed := at_processed t @ [object]\<rparr>)"

text \<open>
  \<open>Stop\<close> waits for the thread; the body has no interruption point of its own, so a thread that has
  not run yet does so first.
\<close>

definition AutoTask_Stop :: "'a AutoTask \<Rightarrow> 'a AutoTask" where
  "AutoTask_Stop t = (if at_threads t = 0 then t else (AutoTaskRun t)\<lparr>at_threads := at_threads t - 1\<rparr>)"

definition AutoTask_destroy :: "'a AutoTask \<Rightarrow> 'a AutoTask" where
  "AutoTask_destroy t = AutoTask_Stop t"

text \<open>
  A task and the objects that were inserted into it. The constructor has created the thread; after
  that, objects are inserted, the thread runs, and the task is stopped.
\<close>

inductive task_reachable :: "'a list \<Rightarrow> 'a AutoTask \<Rightarrow> bool" where
  created: "task_reachable [] AutoTask_new"
| inserted: "task_reachable xs t \<Longrightarrow> task_reachable (xs @ [x]) (AutoTask_Insert x t)"
| thread_runs: "task_reachable xs t \<Longrightarrow> 0 < at_threads t \<Longrightarrow>
    task_reachable xs ((AutoTaskRun t)\<lparr>at_threads := at_threads t - 1\<rparr>)"
| stopped: "task_reachable xs t \<Longrightarrow> task_reachable xs (AutoTask_Stop t)"
| destroyed: "task_reachable xs t \<Longrightarrow> task_reachable xs (AutoTask_destroy t)"

section \<open>RepeateTask\<close>

text \<open>
  The object the virtual function \<open>Processing\<close> works on, the interval, and whether \<open>m_pThread\<close> points
  to a thread.
\<close>

record 's RepeateTask =
  rt_pObject :: 's
  rt_tickRepeate :: i32
  rt_pThread :: bool

definition RepeateTask_new :: "'s \<Rightarrow> i32 \<Rightarrow> 's RepeateTask" where
  "RepeateTask_new object millisec = \<lparr>rt_pObject = object, rt_tickRepeate = millisec, rt_pThread = False\<rparr>"

definition Reset_Timetick :: "i32 \<Rightarrow> 's RepeateTask \<Rightarrow> 's RepeateTask" where
  "Reset_Timetick repeate_timetick t = t\<lparr>rt_tickRepeate := repeate_timetick\<rparr>"

definition RepeateTask_Run :: "'s RepeateTask \<Rightarrow> 's RepeateTask" where
  "RepeateTask_Run t = t\<lparr>rt_pThread := True\<rparr>"

text \<open>
  The loop of the thread, left by the interruption in the sleep after \<open>n\<close> rounds; the interruption
  comes from \<open>Stop\<close>, which dereferences the pointer to the thread.
\<close>

fun RepeateTaskRun :: "('s \<Rightarrow> 's) \<Rightarrow> nat \<Rightarrow> 's RepeateTask \<Rightarrow> 's RepeateTask" where
  "RepeateTaskRun Processing 0 t = t"
| "RepeateTaskRun Processing (Suc n) t = RepeateTaskRun Processing n (t\<lparr>rt_pObject := Processing (rt_pObject t)\<rparr>)"

definition RepeateTask_Stop :: "('s \<Rightarrow> 's) \<Rightarrow> nat \<Rightarrow> 's RepeateTask \<Rightarrow> ('s RepeateTask) result" where
  "RepeateTask_Stop Processing n t =
     (if rt_pThread t then Inr (RepeateTaskRun Processing n t) else Inl Null_Pointer)"

lemma RepeateTaskRun_iterates:
  "RepeateTaskRun Processing n t = t\<lparr>rt_pObject := (Processing ^^ n) (rt_pObject t)\<rparr>"
  by (induction n arbitrary: t) (simp_all add: funpow_swap1)

lemma RepeateTask_lifetime:
  "RepeateTask_Stop Processing n (RepeateTask_new object millisec) = Inl Null_Pointer"
  "RepeateTask_Stop Processing n (RepeateTask_Run (RepeateTask_new object millisec))
     = Inr \<lparr>rt_pObject = (Processing ^^ n) object, rt_tickRepeate = millisec, rt_pThread = True\<rparr>"
  by (simp_all add: RepeateTask_Stop_def RepeateTask_new_def RepeateTask_Run_def RepeateTaskRun_iterates)

section \<open>What an AutoTask processes\<close>

lemma AutoTaskRun_effect:
  "at_processed (AutoTaskRun t) @ at_taskContainer (AutoTaskRun t) = at_processed t @ at_taskContainer t"
  "length (at_processed (AutoTaskRun t)) \<le> length (at_processed t) + 1"
  "at_threads (AutoTaskRun t) = at_threads t"
  by (simp_all add: AutoTaskRun_def split: list.split)

lemma AutoTask_Stop_effect:
  assumes "xs = at_processed t @ at_taskContainer t \<and> length (at_processed t) + at_threads t \<le> 1"
  shows "xs = at_processed (AutoTask_Stop t) @ at_taskContainer (AutoTask_Stop t)
    \<and> length (at_processed (AutoTask_Stop t)) + at_threads (AutoTask_Stop t) \<le> 1"
  using assms AutoTaskRun_effect[of t] by (cases "at_threads t = 0") (simp_all add: AutoTask_Stop_def)

lemma task_invariant:
  assumes "task_reachable xs t"
  shows "xs = at_processed t @ at_taskContainer t \<and> length (at_processed t) + at_threads t \<le> 1"
  using assms
proof induction
  case (stopped xs t)
  show ?case using stopped.IH by (rule AutoTask_Stop_effect)
next
  case (destroyed xs t)
  show ?case unfolding AutoTask_destroy_def using destroyed.IH by (rule AutoTask_Stop_effect)
next
  case (thread_runs xs t)
  then show ?case
    using AutoTaskRun_effect[of t] by simp
qed (simp_all add: AutoTask_new_def AutoTask_Run_def AutoTask_Insert_def)

section \<open>Properties\<close>

text \<open>
  Objects of an \<open>AutoTask\<close> are processed in the order of their insertion and none is lost or
  processed twice, but whatever is inserted and however the thread is scheduled, no more than one
  object is ever processed: the thread ends after one look at the queue.
\<close>

lemma auto_task_processes_at_most_one:
  assumes "task_reachable xs t"
  shows "at_processed t @ at_taskContainer t = xs \<and> length (at_processed t) \<le> 1"
  using task_invariant[OF assms] by simp

end
