(* ===== verification/Calculation.thy ===== *)
theory Calculation
  imports Complex_Main Prelude
begin

text \<open>
  The class template \<open>ReinterationCalculation\<close> (include/util/calculation.h): count, minimum, maximum
  and running mean of the values inserted. The element type is any linearly ordered type with a
  conversion to \<open>double\<close>; the arithmetic of \<open>double\<close> is that of the real numbers, without rounding,
  which concerns the mean only. The constructor leaves minimum and maximum as they are in memory.

  The spin lock is taken in the body of an \<open>if\<close> statement and released at its end, so it protects
  nothing; the operations are modelled one after the other.
\<close>

record 'a ReinterationCalculation =
  ca_min :: 'a
  ca_max :: 'a
  ca_mean :: real
  ca_count :: size_t
  ca_bThread :: bool

definition m_constMaxCnt :: size_t where
  "m_constMaxCnt = push_bit 17 1"

definition ReinterationCalculation_new :: "'a \<Rightarrow> 'a \<Rightarrow> bool \<Rightarrow> 'a ReinterationCalculation" where
  "ReinterationCalculation_new u v thread_safe =
     \<lparr>ca_min = u, ca_max = v, ca_mean = 0, ca_count = 0, ca_bThread = thread_safe\<rparr>"

definition GetMin :: "'a ReinterationCalculation \<Rightarrow> 'a" where
  "GetMin c = ca_min c"

definition GetMax :: "'a ReinterationCalculation \<Rightarrow> 'a" where
  "GetMax c = ca_max c"

definition GetMean :: "'a ReinterationCalculation \<Rightarrow> real" where
  "GetMean c = ca_mean c"

definition GetCount :: "'a ReinterationCalculation \<Rightarrow> size_t" where
  "GetCount c = ca_count c"

definition Calculation_Mean :: "('a \<Rightarrow> real) \<Rightarrow> 'a \<Rightarrow> 'a ReinterationCalculation \<Rightarrow> 'a ReinterationCalculation" where
  "Calculation_Mean double insert_value c =
     (let dinsertvalue = double insert_value
      in if ca_count c = 1 then c\<lparr>ca_mean := dinsertvalue\<rparr>
         else c\<lparr>ca_mean := ca_mean c + (dinsertvalue - ca_mean c) / real (unat (ca_count c))\<rparr>)"

definition Calculation_MinMax :: "'a::linorder \<Rightarrow> 'a ReinterationCalculation \<Rightarrow> 'a ReinterationCalculation" where
  "Calculation_MinMax insert_value c =
     (if ca_count c = 1 then c\<lparr>ca_max := insert_value, ca_min := insert_value\<rparr>
      else let c1 = (if insert_value > ca_max c then c\<lparr>ca_max := insert_value\<rparr> else c)
           in if insert_value < ca_min c1 then c1\<lparr>ca_min := insert_value\<rparr> else c1)"

definition Calculation_Insert ::
  "('a \<Rightarrow> real) \<Rightarrow> 'a::linorder \<Rightarrow> 'a ReinterationCalculation \<Rightarrow> 'a ReinterationCalculation" where
  "Calculation_Insert double value c =
     (let c1 = (if ca_count c < m_constMaxCnt then c\<lparr>ca_count := ca_count c + 1\<rparr> else c)
      in Calculation_MinMax value (Calculation_Mean double value c1))"

definition Calculation_Clear :: "'a ReinterationCalculation \<Rightarrow> 'a ReinterationCalculation" where
  "Calculation_Clear c = c\<lparr>ca_count := 0\<rparr>"

section \<open>Statistics of the values inserted\<close>

abbreviation inserts :: "('a \<Rightarrow> real) \<Rightarrow> 'a::linorder list \<Rightarrow> 'a ReinterationCalculation \<Rightarrow> 'a ReinterationCalculation" where
  "inserts double vs c \<equiv> fold (Calculation_Insert double) vs c"

text \<open>The bound of the count, opaque to the simplifier.\<close>

definition max_count :: nat where
  "max_count = 131072"

lemma constMaxCnt: "m_constMaxCnt = of_nat max_count"
  by (simp add: m_constMaxCnt_def push_bit_eq_mult max_count_def)

lemma unat_max_count: "n \<le> max_count \<Longrightarrow> unat (of_nat n :: size_t) = n" "1 < max_count"
  by (intro unat_of_nat_size) (simp_all add: max_count_def)

text \<open>What the members are after \<open>n\<close> inserts, of which \<open>ws\<close> are the values, the last one first.\<close>

definition stats :: "('a \<Rightarrow> real) \<Rightarrow> 'a::linorder list \<Rightarrow> 'a ReinterationCalculation \<Rightarrow> bool" where
  "stats double ws c \<longleftrightarrow> ca_count c = of_nat (min (length ws) max_count)
     \<and> (ws \<noteq> [] \<longrightarrow> ca_min c = Min (set ws) \<and> ca_max c = Max (set ws))
     \<and> (ws \<noteq> [] \<and> length ws \<le> max_count \<longrightarrow> ca_mean c * real (length ws) = sum_list (map double ws))"

lemma count_after_insert:
  assumes "ca_count c = of_nat (min n max_count)"
  shows "ca_count (Calculation_Insert double v c) = of_nat (min (Suc n) max_count)"
    and "(if ca_count c < m_constMaxCnt then c\<lparr>ca_count := ca_count c + 1\<rparr> else c) = c\<lparr>ca_count := of_nat (min (Suc n) max_count)\<rparr>"
proof -
  have "unat (of_nat (min n max_count) :: size_t) = min n max_count" "unat (of_nat max_count :: size_t) = max_count"
    by (simp_all add: unat_max_count)
  then have less: "(of_nat (min n max_count) :: size_t) < of_nat max_count \<longleftrightarrow> n < max_count"
    by (simp only: word_less_nat_alt) auto
  show count: "(if ca_count c < m_constMaxCnt then c\<lparr>ca_count := ca_count c + 1\<rparr> else c) = c\<lparr>ca_count := of_nat (min (Suc n) max_count)\<rparr>"
  proof (cases "n < max_count")
    case True
    then have "min n max_count = n" "min (Suc n) max_count = Suc n" by simp_all
    then show ?thesis
      using True less assms unfolding constMaxCnt by (simp add: add.commute)
  next
    case False
    then have "min n max_count = max_count" "min (Suc n) max_count = max_count" by simp_all
    then show ?thesis
      using False less assms unfolding constMaxCnt by (cases c) simp
  qed
  show "ca_count (Calculation_Insert double v c) = of_nat (min (Suc n) max_count)"
    unfolding Calculation_Insert_def count Let_def
    by (simp add: Calculation_MinMax_def Calculation_Mean_def Let_def)
qed

lemma count_is_one: "(of_nat (min (Suc n) max_count) :: size_t) = 1 \<longleftrightarrow> n = 0"
proof -
  have "unat (of_nat (min (Suc n) max_count) :: size_t) = min (Suc n) max_count"
    by (simp add: unat_max_count)
  then show ?thesis using unat_max_count(2) by (simp add: word_unat_eq_iff min_def)
qed

lemma running_mean: "0 < k \<Longrightarrow> (m + (d - m) / k) * k = m * (k - 1) + (d :: real)"
  by (simp add: field_simps)

lemma MinMax_effect:
  assumes "ca_count c \<noteq> 1"
  shows "ca_min (Calculation_MinMax v c) = min v (ca_min c)" and "ca_max (Calculation_MinMax v c) = max v (ca_max c)"
  using assms by (auto simp: Calculation_MinMax_def Let_def min_def max_def)

lemma stats_Insert:
  assumes "stats double ws c"
  shows "stats double (v # ws) (Calculation_Insert double v c)"
proof -
  let ?n = "length ws" and ?k = "of_nat (min (Suc (length ws)) max_count) :: size_t"
  let ?c = "Calculation_Insert double v c"
  have count: "ca_count c = of_nat (min ?n max_count)"
    using assms by (simp add: stats_def)
  have ins: "?c = Calculation_MinMax v (Calculation_Mean double v (c\<lparr>ca_count := ?k\<rparr>))"
    unfolding Calculation_Insert_def count_after_insert(2)[OF count] by simp
  have min_max: "ca_min ?c = Min (set (v # ws)) \<and> ca_max ?c = Max (set (v # ws))"
  proof (cases "ws = []")
    case True
    then show ?thesis
      using count_is_one[of ?n] by (simp add: ins Calculation_MinMax_def Calculation_Mean_def)
  next
    case False
    then have "ca_min c = Min (set ws)" "ca_max c = Max (set ws)" "?k \<noteq> 1"
      using assms count_is_one[of ?n] by (auto simp: stats_def)
    moreover from this have "ca_min ?c = min v (ca_min c)" "ca_max ?c = max v (ca_max c)"
      unfolding ins by (simp_all add: MinMax_effect Calculation_Mean_def Let_def)
    ultimately show ?thesis
      using False by simp
  qed
  have mean: "ca_mean ?c * real (Suc ?n) = double v + sum_list (map double ws)" if "Suc ?n \<le> max_count"
  proof (cases "ws = []")
    case True
    then show ?thesis
      using count_is_one[of ?n] by (simp add: ins Calculation_MinMax_def Calculation_Mean_def)
  next
    case False
    have "unat ?k = Suc ?n"
      using that unat_max_count(1)[of "Suc ?n"] by (simp add: min_absorb1 del: of_nat_Suc)
    moreover have "?k \<noteq> 1" "ca_mean c * real ?n = sum_list (map double ws)"
      using False that assms count_is_one[of ?n] by (auto simp: stats_def)
    moreover have "(m + (d - m) / real (Suc ?n)) * real (Suc ?n) = m * (real (Suc ?n) - 1) + d" for m d
      by (rule running_mean) simp
    moreover have "ca_mean (Calculation_MinMax v b) = ca_mean b" for b
      by (simp add: Calculation_MinMax_def Let_def)
    ultimately show ?thesis
      by (simp add: ins Calculation_Mean_def Let_def)
  qed
  show ?thesis
    unfolding stats_def using count_after_insert(1)[OF count] min_max mean by simp
qed

lemma stats_inserts: "stats double ws c \<Longrightarrow> stats double (rev vs @ ws) (inserts double vs c)"
proof (induction vs arbitrary: ws c)
  case (Cons v vs)
  then show ?case
    using Cons.IH[OF stats_Insert[OF Cons.prems]] by simp
qed simp

lemma stats_Clear: "stats double [] (Calculation_Clear c)"
  by (simp add: stats_def Calculation_Clear_def)

section \<open>Properties\<close>

text \<open>
  After \<open>Clear\<close>, whatever the object held before, and any non-empty sequence of inserts, \<open>GetMin\<close>
  and \<open>GetMax\<close> are the least and the greatest value inserted, and \<open>GetCount\<close> is their number up to
  131072, where it stays; up to that number, and up to rounding, \<open>GetMean\<close> is their mean.
\<close>

lemma calculation_statistics:
  fixes double :: "'a::linorder \<Rightarrow> real" and c :: "'a ReinterationCalculation"
  assumes "vs \<noteq> []"
  defines "c' \<equiv> inserts double vs (Calculation_Clear c)"
  shows "GetMin c' = Min (set vs) \<and> GetMax c' = Max (set vs)
    \<and> unat (GetCount c') = min (length vs) 131072
    \<and> (length vs \<le> 131072 \<longrightarrow> GetMean c' = sum_list (map double vs) / real (length vs))"
proof -
  have "stats double (rev vs) c'"
    unfolding c'_def using stats_inserts[OF stats_Clear, of double vs c] by simp
  moreover have "sum_list (map double (rev vs)) = sum_list (map double vs)"
    by (simp add: rev_map[symmetric] sum_list_rev)
  moreover have "unat (of_nat (min (length vs) 131072) :: size_t) = min (length vs) 131072"
    using unat_max_count(1)[of "min (length vs) max_count"] by (simp add: max_count_def)
  ultimately show ?thesis
    using assms(1)
    by (auto simp: stats_def max_count_def GetMin_def GetMax_def GetCount_def GetMean_def field_simps)
qed

end
