(* ===== verification/Text_Util.thy ===== *)
theory Text_Util
  imports Decimal
begin

text \<open>
  The text utilities: \<open>StringUtil\<close> (src/lib/string_util.cpp), \<open>Encoder\<close> (include/util/encoder.h) and
  \<open>TimeFunc\<close> (src/lib/time_func.cpp, the Windows branch). Strings are lists of bytes.
\<close>

section \<open>StringUtil\<close>

definition blank :: "u8 \<Rightarrow> bool" where
  "blank c \<longleftrightarrow> c \<in> {32, 9, 11, 10}"

text \<open>\<open>find_first_not_of\<close> and \<open>find_last_not_of\<close> for the blanks; \<open>None\<close> is \<open>npos\<close>.\<close>

fun find_first_not_of :: "bytes \<Rightarrow> nat option" where
  "find_first_not_of [] = None"
| "find_first_not_of (c # cs) = (if blank c then map_option Suc (find_first_not_of cs) else Some 0)"

definition find_last_not_of :: "bytes \<Rightarrow> nat option" where
  "find_last_not_of s = map_option (\<lambda>n. length s - 1 - n) (find_first_not_of (rev s))"

definition substr :: "bytes \<Rightarrow> nat \<Rightarrow> nat \<Rightarrow> bytes" where
  "substr s pos n = take n (drop pos s)"

definition trim_left :: "bytes \<Rightarrow> bytes" where
  "trim_left str = (case find_first_not_of str of None \<Rightarrow> str | Some n \<Rightarrow> substr str n (length str))"

definition trim_right :: "bytes \<Rightarrow> bytes" where
  "trim_right str = (case find_last_not_of str of None \<Rightarrow> str | Some n \<Rightarrow> substr str 0 (n + 1))"

definition trim :: "bytes \<Rightarrow> bytes" where
  "trim str = trim_left (trim_right str)"

lemma find_first_not_of_None: "find_first_not_of s = None \<longleftrightarrow> list_all blank s"
  by (induction s) auto

lemma find_first_not_of_Some: "find_first_not_of s = Some n \<Longrightarrow> n < length s \<and> drop n s = dropWhile blank s"
  by (induction s arbitrary: n) (auto split: if_splits)

lemma trim_left_eq: "trim_left s = (if list_all blank s then s else dropWhile blank s)"
  using find_first_not_of_None[of s] find_first_not_of_Some[of s]
  by (auto simp: trim_left_def substr_def length_dropWhile_le split: option.splits)

lemma trim_right_eq: "trim_right s = rev (trim_left (rev s))"
proof (cases "find_first_not_of (rev s)")
  case None
  then show ?thesis by (simp add: trim_right_def find_last_not_of_def trim_left_def)
next
  case (Some n)
  then have "n < length s" using find_first_not_of_Some[of "rev s" n] by simp
  then show ?thesis
    using Some by (simp add: trim_right_def find_last_not_of_def trim_left_def substr_def rev_take rev_drop Suc_diff_Suc)
qed

text \<open>
  \<open>trim\<close> removes the blanks on both sides of a string that has something else; a string of blanks
  only comes back as it is.
\<close>

lemma trim_result:
  "trim s = (if list_all blank s then s else dropWhile blank (rev (dropWhile blank (rev s))))"
proof (cases "list_all blank s")
  case True
  then show ?thesis by (simp add: trim_def trim_left_eq trim_right_eq)
next
  case False
  then obtain c where c: "c \<in> set s" "\<not> blank c" by (auto simp: list_all_iff)
  then have "c \<in> set (dropWhile blank (rev s))"
    using set_takeWhileD[of c blank "rev s"] by (metis Un_iff set_append set_rev takeWhile_dropWhile_id)
  then have "\<not> list_all blank (rev (dropWhile blank (rev s)))"
    using c(2) by (auto simp: list_all_iff)
  then show ?thesis
    using False by (simp add: trim_def trim_left_eq trim_right_eq)
qed

section \<open>Encoder\<close>

text \<open>
  \<open>XorConvert\<close>: byte by byte from the source to the destination, either of which may be too short. The
  last assignment sets the local pointer and not the byte it points to.
\<close>

fun xor_loop :: "nat \<Rightarrow> nat \<Rightarrow> u8 \<Rightarrow> bytes \<Rightarrow> bytes \<Rightarrow> bytes result" where
  "xor_loop 0 nPos key org_str dest_str = Inr dest_str"
| "xor_loop (Suc n) nPos key org_str dest_str =
     bind_result (mem_read org_str nPos 1) (\<lambda>c.
     bind_result (mem_write dest_str nPos [hd c XOR key]) (\<lambda>dest_str'.
     xor_loop n (Suc nPos) key org_str dest_str'))"

definition XorConvert :: "u8 \<Rightarrow> size_t \<Rightarrow> bytes \<Rightarrow> bytes \<Rightarrow> bytes result" where
  "XorConvert key sz org_str dest_str = xor_loop (unat sz) 0 key org_str dest_str"

lemma xor_loop_ok:
  assumes "p + n \<le> length org" and "p + n \<le> length dest"
  shows "xor_loop n p key org dest
    = Inr (take p dest @ map (\<lambda>c. c XOR key) (take n (drop p org)) @ drop (p + n) dest)"
  using assms
proof (induction n arbitrary: p dest)
  case (Suc n)
  let ?d = "take p dest @ [org ! p XOR key] @ drop (p + 1) dest"
  have rd: "mem_read org p 1 = Inr [org ! p]" and wr: "mem_write dest p [org ! p XOR key] = Inr ?d"
    using Suc.prems by (simp_all add: mem_read_def mem_write_def take_Suc_conv_app_nth hd_drop_conv_nth take_Suc)
  have "xor_loop n (Suc p) key org ?d
      = Inr (take (Suc p) ?d @ map (\<lambda>c. c XOR key) (take n (drop (Suc p) org)) @ drop (Suc p + n) ?d)"
    using Suc.prems by (intro Suc.IH) simp_all
  moreover have "take (Suc p) ?d = take p dest @ [org ! p XOR key]" "drop (Suc p + n) ?d = drop (p + Suc n) dest"
    using Suc.prems by (simp_all add: take_Suc_conv_app_nth add.commute)
  moreover have "take (Suc n) (drop p org) = org ! p # take n (drop (Suc p) org)"
    using Suc.prems by (simp add: Cons_nth_drop_Suc[symmetric])
  ultimately show ?case
    using rd wr by simp
qed simp

text \<open>Converting twice with the same key gives the text back.\<close>

lemma XorConvert_involution:
  assumes "length org < 2 ^ 63" and "length dest = length org" and "length dest' = length org"
  shows "bind_result (XorConvert key (of_nat (length org)) org dest)
      (\<lambda>enc. XorConvert key (of_nat (length org)) enc dest') = Inr org"
proof -
  have n: "unat (of_nat (length org) :: size_t) = length org"
    using assms(1) by (intro unat_of_nat_size) simp
  have "XorConvert key (of_nat (length org)) org dest = Inr (map (\<lambda>c. c XOR key) org)"
    using assms(2) by (simp add: XorConvert_def n xor_loop_ok)
  moreover have "XorConvert key (of_nat (length org)) (map (\<lambda>c. c XOR key) org) dest' = Inr org"
    using assms(3) by (simp add: XorConvert_def n xor_loop_ok xor.assoc o_def)
  ultimately show ?thesis by simp
qed

text \<open>
  \<open>StrtoBinary\<close>: the byte is widened as a signed character before it is written with \<open>%02x\<close>, so a byte
  from 128 on becomes eight digits, and \<open>sprintf_s\<close> ends the program because the buffer has room for
  two. \<open>dst\<close> is the text the destination holds, in a buffer with room for \<open>cap\<close> characters with the
  terminator.
\<close>

definition hex_digit :: "nat \<Rightarrow> u8" where
  "hex_digit n = (if n < 10 then of_nat (48 + n) else of_nat (87 + n))"

definition hex_text :: "u8 \<Rightarrow> bytes" where
  "hex_text c =
     (let n = unat c
      in if n < 128 then [hex_digit (n div 16), hex_digit (n mod 16)]
         else replicate 6 102 @ [hex_digit (n div 16), hex_digit (n mod 16)])"

fun StrtoBinary :: "bytes \<Rightarrow> nat \<Rightarrow> bytes \<Rightarrow> bytes result" where
  "StrtoBinary [] cap dst = Inr dst"
| "StrtoBinary (c # src) cap dst =
     (let charTmp = hex_text c
      in if length charTmp < 3
         then if length dst + length charTmp < cap then StrtoBinary src cap (dst @ charTmp) else Inl Out_Of_Bounds
         else Inl Out_Of_Bounds)"

lemma StrtoBinary_iff:
  "(\<exists>d. StrtoBinary src cap dst = Inr d) \<longleftrightarrow>
     (\<forall>c \<in> set src. unat c < 128) \<and> (src = [] \<or> length dst + 2 * length src < cap)"
  by (induction src arbitrary: dst) (auto simp: hex_text_def Let_def)

section \<open>TimeFunc\<close>

record SYSTEMTIME =
  wYear :: u16
  wMonth :: u16
  wDay :: u16
  wHour :: u16
  wMinute :: u16
  wSecond :: u16
  wMilliseconds :: u16

definition time_text :: "SYSTEMTIME \<Rightarrow> bytes" where
  "time_text t = literal ''['' @ padded 4 (unat (wYear t)) @ literal ''-'' @ padded 2 (unat (wMonth t)) @ literal ''-''
     @ padded 2 (unat (wDay t)) @ literal '' '' @ padded 2 (unat (wHour t)) @ literal '':''
     @ padded 2 (unat (wMinute t)) @ literal '':'' @ padded 2 (unat (wSecond t)) @ literal '':''
     @ padded 3 (unat (wMilliseconds t)) @ literal ''] ''"

text \<open>The text in a buffer of \<open>n\<close> characters, then appended to a string, then with \<open>erase\<close>.\<close>

definition GetCurrentTimeToString_buf :: "SYSTEMTIME \<Rightarrow> nat \<Rightarrow> bytes result" where
  "GetCurrentTimeToString_buf systemtime n =
     (if length (time_text systemtime) < n then Inr (time_text systemtime) else Inl Out_Of_Bounds)"

definition kdatelength :: nat where
  "kdatelength = 64"

definition GetCurrentTimeToString :: "SYSTEMTIME \<Rightarrow> bytes \<Rightarrow> bytes result" where
  "GetCurrentTimeToString systemtime strtime =
     bind_result (GetCurrentTimeToString_buf systemtime kdatelength) (\<lambda>date. Inr (strtime @ date))"

text \<open>\<open>std::string::erase\<close> with a position: it removes everything from there on, or throws.\<close>

definition string_erase :: "bytes \<Rightarrow> nat \<Rightarrow> bytes result" where
  "string_erase s pos = (if pos \<le> length s then Inr (take pos s) else Inl Uncaught_Exception)"

definition GetCurrentTimeToString_nospecialchar :: "SYSTEMTIME \<Rightarrow> bytes \<Rightarrow> bytes result" where
  "GetCurrentTimeToString_nospecialchar systemtime strtime =
     bind_result (GetCurrentTimeToString_buf systemtime kdatelength) (\<lambda>date.
     bind_result (string_erase (strtime @ date) 45) (\<lambda>s1.
     bind_result (string_erase s1 58) (\<lambda>s2.
     bind_result (string_erase s2 91) (\<lambda>s3.
     string_erase s3 93))))"

lemma length_padded_u16: "length (padded k (unat (w :: u16))) \<le> max k 5"
proof -
  have "unat w < 10 ^ 5"
    using unsigned_less[of w, where 'a = nat] by simp
  then show ?thesis
    using length_decimal_bound[of "unat w" 5] by (simp add: padded_def)
qed

lemma time_text_fits: "length (time_text t) < kdatelength"
  using length_padded_u16[of 4 "wYear t"] length_padded_u16[of 2 "wMonth t"] length_padded_u16[of 2 "wDay t"]
    length_padded_u16[of 2 "wHour t"] length_padded_u16[of 2 "wMinute t"] length_padded_u16[of 2 "wSecond t"]
    length_padded_u16[of 3 "wMilliseconds t"]
  by (simp add: time_text_def kdatelength_def)

section \<open>Properties\<close>

text \<open>
  The time is always appended to the string by \<open>GetCurrentTimeToString\<close>, and the buffer of 64
  characters is always large enough. The variant that is to remove the special characters always
  throws: the characters are taken for positions, and after the first \<open>erase\<close> the second position is
  beyond the end.
\<close>

lemma time_to_string_outcomes:
  "GetCurrentTimeToString t s = Inr (s @ time_text t)
    \<and> GetCurrentTimeToString_nospecialchar t s = Inl Uncaught_Exception"
  using time_text_fits[of t]
  by (simp add: GetCurrentTimeToString_def GetCurrentTimeToString_nospecialchar_def GetCurrentTimeToString_buf_def
      string_erase_def)

end
