(* ===== verification/Stop_Watch.thy ===== *)
theory Stop_Watch
  imports Main
begin

text \<open>
  The class \<open>StopWatch\<close> (include/util/stop_watch.h, src/lib/stop_watch.cpp). Points in time are numbers
  of ticks of the clock, of which there are \<open>hz\<close> in a second; \<open>now\<close> is what the clock returns. The
  conversions of durations round towards zero.
\<close>

record StopWatch =
  sw_startTime :: int
  sw_checkTimeContainer :: "int list"

definition StopWatch_new :: StopWatch where
  "StopWatch_new = \<lparr>sw_startTime = 0, sw_checkTimeContainer = []\<rparr>"

definition StopWatch_Reset :: "int \<Rightarrow> StopWatch \<Rightarrow> StopWatch" where
  "StopWatch_Reset now w = w\<lparr>sw_startTime := now, sw_checkTimeContainer := []\<rparr>"

definition StopWatch_Start :: "int \<Rightarrow> StopWatch \<Rightarrow> StopWatch" where
  "StopWatch_Start now w = StopWatch_Reset now w"

definition StopWatch_Check :: "int \<Rightarrow> StopWatch \<Rightarrow> StopWatch" where
  "StopWatch_Check now w = w\<lparr>sw_checkTimeContainer := sw_checkTimeContainer w @ [now]\<rparr>"

definition duration_cast :: "int \<Rightarrow> int \<Rightarrow> int \<Rightarrow> int" where
  "duration_cast hz units d = (if 0 \<le> d then d * units div hz else - (- d * units div hz))"

definition GetElapsedSec :: "int \<Rightarrow> int \<Rightarrow> StopWatch \<Rightarrow> int" where
  "GetElapsedSec hz now w = duration_cast hz 1 (now - sw_startTime w)"

definition GetElapsedmilliSec :: "int \<Rightarrow> int \<Rightarrow> StopWatch \<Rightarrow> int" where
  "GetElapsedmilliSec hz now w = duration_cast hz 1000 (now - sw_startTime w)"

definition GetElapsedmicroSec :: "int \<Rightarrow> int \<Rightarrow> StopWatch \<Rightarrow> int" where
  "GetElapsedmicroSec hz now w = duration_cast hz 1000000 (now - sw_startTime w)"

definition GetElapsedtime :: "int \<Rightarrow> StopWatch \<Rightarrow> int" where
  "GetElapsedtime now w = now - sw_startTime w"

text \<open>For a clock that does not go back, the times elapsed agree with each other up to rounding.\<close>

lemma div_refine:
  assumes "0 < (k :: int)" and "0 < hz"
  shows "d * (u * k) div hz div k = d * u div hz"
proof -
  have "d * (u * k) div hz div k = d * u * k div (hz * k)"
    using assms by (simp add: zdiv_zmult2_eq mult.assoc)
  then show ?thesis using assms(1) by simp
qed

lemma elapsed_agree:
  assumes "sw_startTime w \<le> now" and "0 < hz"
  shows "GetElapsedmicroSec hz now w div 1000 = GetElapsedmilliSec hz now w"
    and "GetElapsedmilliSec hz now w div 1000 = GetElapsedSec hz now w"
  using assms div_refine[of 1000 hz "now - sw_startTime w" 1000] div_refine[of 1000 hz "now - sw_startTime w" 1]
  by (simp_all add: GetElapsedmicroSec_def GetElapsedmilliSec_def GetElapsedSec_def duration_cast_def)

lemma elapsed_after_Start: "GetElapsedmilliSec hz now (StopWatch_Start now w) = 0"
  by (simp add: GetElapsedmilliSec_def StopWatch_Start_def StopWatch_Reset_def duration_cast_def)

text \<open>The stop watch is monotone: a later look at the clock never shows less.\<close>

lemma elapsed_mono:
  assumes "sw_startTime w \<le> t1" and "t1 \<le> t2" and "0 < hz"
  shows "GetElapsedmilliSec hz t1 w \<le> GetElapsedmilliSec hz t2 w"
  using assms by (simp add: GetElapsedmilliSec_def duration_cast_def zdiv_mono1)

end
