(* ===== verification/DB_Connector.thy ===== *)
theory DB_Connector
  imports Prelude
begin

text \<open>
  The class \<open>DBConnector\<close> (include/db/db_connector.h, src/lib/db_connector.cpp) over the ODBC library.
  ODBC is not part of the program: its functions are an argument of the operations, over a state of
  its own, and what the program relies on is the predicate \<open>odbc_laws\<close>.
\<close>

section \<open>ODBC\<close>

type_synonym SQLRETURN = i16
type_synonym SQLSMALLINT = i16
type_synonym SQLUSMALLINT = u16
type_synonym SQLLEN = i64

text \<open>A handle; the null handle is 0.\<close>

type_synonym handle = addr

abbreviation SQL_NULL_HANDLE :: handle where
  "SQL_NULL_HANDLE \<equiv> 0"

definition SQL_SUCCESS :: SQLRETURN where "SQL_SUCCESS = 0"
definition SQL_SUCCESS_WITH_INFO :: SQLRETURN where "SQL_SUCCESS_WITH_INFO = 1"
definition SQL_NO_DATA :: SQLRETURN where "SQL_NO_DATA = 100"

definition SQL_HANDLE_ENV :: SQLSMALLINT where "SQL_HANDLE_ENV = 1"
definition SQL_HANDLE_DBC :: SQLSMALLINT where "SQL_HANDLE_DBC = 2"
definition SQL_HANDLE_STMT :: SQLSMALLINT where "SQL_HANDLE_STMT = 3"

text \<open>
  The functions the class calls. An output parameter is given with the value it has before the call
  and returned with the value it has afterwards. \<open>SQLBindCol\<close> keeps the two addresses it is given.
\<close>

record 'o ODBC =
  SQLAllocHandle :: "SQLSMALLINT \<Rightarrow> handle \<Rightarrow> handle \<Rightarrow> 'o \<Rightarrow> SQLRETURN \<times> handle \<times> 'o"
  SQLSetEnvAttr :: "handle \<Rightarrow> 'o \<Rightarrow> SQLRETURN \<times> 'o"
  SQLConnect :: "handle \<Rightarrow> string \<Rightarrow> string \<Rightarrow> string \<Rightarrow> 'o \<Rightarrow> SQLRETURN \<times> 'o"
  SQLDisconnect :: "handle \<Rightarrow> 'o \<Rightarrow> SQLRETURN \<times> 'o"
  SQLFreeHandle :: "SQLSMALLINT \<Rightarrow> handle \<Rightarrow> 'o \<Rightarrow> SQLRETURN \<times> 'o"
  SQLExecDirect :: "handle \<Rightarrow> string \<Rightarrow> 'o \<Rightarrow> SQLRETURN \<times> 'o"
  SQLFetch :: "handle \<Rightarrow> 'o \<Rightarrow> SQLRETURN \<times> 'o"
  SQLCloseCursor :: "handle \<Rightarrow> 'o \<Rightarrow> SQLRETURN \<times> 'o"
  SQLRowCount :: "handle \<Rightarrow> SQLLEN \<Rightarrow> 'o \<Rightarrow> SQLRETURN \<times> SQLLEN \<times> 'o"
  SQLBindCol :: "handle \<Rightarrow> SQLUSMALLINT \<Rightarrow> SQLSMALLINT \<Rightarrow> addr \<Rightarrow> SQLLEN \<Rightarrow> addr \<Rightarrow> 'o \<Rightarrow> SQLRETURN \<times> 'o"

section \<open>The connector\<close>

record DBConnector =
  db_hEnv :: handle
  db_hDbc :: handle
  db_hSTMT :: handle
  db_bConnect :: bool
  db_odbcName :: string
  db_odbcID :: string
  db_odbcPwd :: string

text \<open>The constructors leave the handles as they are in memory; the first leaves the names empty.\<close>

definition DBConnector_default :: "handle \<Rightarrow> handle \<Rightarrow> handle \<Rightarrow> DBConnector" where
  "DBConnector_default x y z =
     \<lparr>db_hEnv = x, db_hDbc = y, db_hSTMT = z, db_bConnect = False, db_odbcName = [], db_odbcID = [], db_odbcPwd = []\<rparr>"

definition DBConnector_new :: "handle \<Rightarrow> handle \<Rightarrow> handle \<Rightarrow> string \<Rightarrow> string \<Rightarrow> string \<Rightarrow> DBConnector" where
  "DBConnector_new x y z odbc_name odbc_id odbc_pw =
     \<lparr>db_hEnv = x, db_hDbc = y, db_hSTMT = z, db_bConnect = False, db_odbcName = odbc_name, db_odbcID = odbc_id,
      db_odbcPwd = odbc_pw\<rparr>"

definition SQL_RetCheck :: "SQLRETURN \<Rightarrow> bool" where
  "SQL_RetCheck ret \<longleftrightarrow> ret = SQL_SUCCESS \<or> ret = SQL_SUCCESS_WITH_INFO"

definition Connet :: "'o ODBC \<Rightarrow> DBConnector \<Rightarrow> 'o \<Rightarrow> bool \<times> DBConnector \<times> 'o" where
  "Connet D c od =
     (let (r1, env, od1) = SQLAllocHandle D SQL_HANDLE_ENV SQL_NULL_HANDLE (db_hEnv c) od;
          c1 = c\<lparr>db_hEnv := env\<rparr>
      in if \<not> SQL_RetCheck r1 then (False, c1, od1)
         else let (r2, od2) = SQLSetEnvAttr D (db_hEnv c1) od1
      in if \<not> SQL_RetCheck r2 then (False, c1, od2)
         else let (r3, dbc, od3) = SQLAllocHandle D SQL_HANDLE_DBC (db_hEnv c1) (db_hDbc c1) od2;
                  c3 = c1\<lparr>db_hDbc := dbc\<rparr>
      in if \<not> SQL_RetCheck r3 then (False, c3, od3)
         else let (r4, od4) = SQLConnect D (db_hDbc c3) (db_odbcName c3) (db_odbcID c3) (db_odbcPwd c3) od3
      in if \<not> SQL_RetCheck r4 then (False, c3, od4)
         else let (r5, stmt, od5) = SQLAllocHandle D SQL_HANDLE_STMT (db_hDbc c3) (db_hSTMT c3) od4;
                  c5 = c3\<lparr>db_hSTMT := stmt\<rparr>
      in if \<not> SQL_RetCheck r5 then (False, c5, od5)
         else (True, c5\<lparr>db_bConnect := True\<rparr>, od5))"

definition Connet_to :: "'o ODBC \<Rightarrow> string \<Rightarrow> string \<Rightarrow> string \<Rightarrow> DBConnector \<Rightarrow> 'o \<Rightarrow> bool \<times> DBConnector \<times> 'o" where
  "Connet_to D odbc_name odbc_id odbc_pw c od =
     Connet D (c\<lparr>db_odbcName := odbc_name, db_odbcID := odbc_id, db_odbcPwd := odbc_pw\<rparr>) od"

definition DisConnect :: "'o ODBC \<Rightarrow> DBConnector \<Rightarrow> 'o \<Rightarrow> DBConnector \<times> 'o" where
  "DisConnect D c od =
     (let od1 = (if db_hSTMT c \<noteq> 0 then snd (SQLFreeHandle D SQL_HANDLE_STMT (db_hSTMT c) od) else od);
          od2 = (if db_hDbc c \<noteq> 0 then snd (SQLDisconnect D (db_hDbc c) od1) else od1);
          od3 = (if db_hDbc c \<noteq> 0 then snd (SQLFreeHandle D SQL_HANDLE_DBC (db_hDbc c) od2) else od2);
          od4 = (if db_hEnv c \<noteq> 0 then snd (SQLFreeHandle D SQL_HANDLE_ENV (db_hEnv c) od3) else od3)
      in (c\<lparr>db_bConnect := False\<rparr>, od4))"

definition DBConnector_destroy :: "'o ODBC \<Rightarrow> DBConnector \<Rightarrow> 'o \<Rightarrow> 'o" where
  "DBConnector_destroy D c od = (if db_bConnect c then snd (DisConnect D c od) else od)"

text \<open>The macro \<open>SQL_SUCCEEDED\<close> tests all bits but the lowest.\<close>

definition ExcuteSQL :: "'o ODBC \<Rightarrow> string \<Rightarrow> DBConnector \<Rightarrow> 'o \<Rightarrow> bool \<times> 'o" where
  "ExcuteSQL D query c od = (let (ret, od1) = SQLExecDirect D (db_hSTMT c) query od in (ret AND NOT 1 = 0, od1))"

text \<open>The cursor is closed when there are no more rows; its result is not looked at.\<close>

definition Fetch :: "'o ODBC \<Rightarrow> DBConnector \<Rightarrow> 'o \<Rightarrow> bool \<times> 'o" where
  "Fetch D c od =
     (let (r, od1) = SQLFetch D (db_hSTMT c) od
      in if r \<noteq> SQL_NO_DATA then (True, od1)
         else (False, if db_hSTMT c \<noteq> 0 then snd (SQLCloseCursor D (db_hSTMT c) od1) else od1))"

text \<open>\<open>len\<close> is what the local variable holds before the call.\<close>

definition GetrowCount :: "'o ODBC \<Rightarrow> SQLLEN \<Rightarrow> DBConnector \<Rightarrow> 'o \<Rightarrow> SQLLEN \<times> 'o" where
  "GetrowCount D len c od = snd (SQLRowCount D (db_hSTMT c) len od)"

text \<open>
  Columns are bound to the caller's variable; the indicator is the address of the local variable
  \<open>length\<close> of the call, here the argument \<open>local_length\<close>.
\<close>

definition BindColBinary :: "'o ODBC \<Rightarrow> addr \<Rightarrow> SQLUSMALLINT \<Rightarrow> addr \<Rightarrow> size_t \<Rightarrow> DBConnector \<Rightarrow> 'o \<Rightarrow> SQLRETURN \<times> 'o" where
  "BindColBinary D local_length col_no bindvalue size_of_value c od =
     SQLBindCol D (db_hSTMT c) col_no (- 2) bindvalue size_of_value local_length od"

definition BindCol_text :: "'o ODBC \<Rightarrow> addr \<Rightarrow> SQLUSMALLINT \<Rightarrow> addr \<Rightarrow> size_t \<Rightarrow> DBConnector \<Rightarrow> 'o \<Rightarrow> SQLRETURN \<times> 'o" where
  "BindCol_text D local_length col_no bindvalue size_of_value c od =
     SQLBindCol D (db_hSTMT c) col_no 1 bindvalue size_of_value local_length od"

datatype int_type = Int8 | Int16 | Int32 | Int64 | UInt8 | UInt16 | UInt32 | UInt64

text \<open>The C types the eight overloads for integers name, as ODBC numbers them, and their sizes.\<close>

fun c_type :: "int_type \<Rightarrow> SQLSMALLINT" where
  "c_type Int8 = - 6"
| "c_type Int16 = 5"
| "c_type Int32 = 4"
| "c_type Int64 = - 25"
| "c_type UInt8 = - 28"
| "c_type UInt16 = - 17"
| "c_type UInt32 = - 18"
| "c_type UInt64 = - 27"

fun sizeof_int :: "int_type \<Rightarrow> SQLLEN" where
  "sizeof_int Int8 = 1"
| "sizeof_int Int16 = 2"
| "sizeof_int Int32 = 4"
| "sizeof_int Int64 = 8"
| "sizeof_int UInt8 = 1"
| "sizeof_int UInt16 = 2"
| "sizeof_int UInt32 = 4"
| "sizeof_int UInt64 = 8"

definition BindCol :: "'o ODBC \<Rightarrow> addr \<Rightarrow> SQLUSMALLINT \<Rightarrow> int_type \<Rightarrow> addr \<Rightarrow> DBConnector \<Rightarrow> 'o \<Rightarrow> SQLRETURN \<times> 'o" where
  "BindCol D local_length col_no ty bindvalue c od =
     SQLBindCol D (db_hSTMT c) col_no (c_type ty) bindvalue (sizeof_int ty) local_length od"

section \<open>Results\<close>

text \<open>Both ways of testing a return value agree.\<close>

lemma SQL_SUCCEEDED_iff: "r AND NOT 1 = (0 :: SQLRETURN) \<longleftrightarrow> SQL_RetCheck r"
proof -
  have "r = 0 \<or> r = 1" if "r AND NOT 1 = 0"
  proof -
    from that have "r = r AND 1"
      by (metis and.right_neutral bit.conj_disj_distrib bit.disj_cancel_right or.left_neutral or.commute)
    also have "\<dots> = r mod 2" by (simp add: and_one_eq)
    finally show ?thesis by (metis mod2_eq_if)
  qed
  then show ?thesis
    by (auto simp: SQL_RetCheck_def SQL_SUCCESS_def SQL_SUCCESS_WITH_INFO_def)
qed

lemma ExcuteSQL_succeeded: "fst (ExcuteSQL D query c od) \<longleftrightarrow> SQL_RetCheck (fst (SQLExecDirect D (db_hSTMT c) query od))"
  by (cases "SQLExecDirect D (db_hSTMT c) query od") (simp only: ExcuteSQL_def Let_def prod.case fst_conv SQL_SUCCEEDED_iff)

text \<open>An error of \<open>SQLFetch\<close> counts as a row.\<close>

lemma Fetch_True_iff: "fst (Fetch D c od) \<longleftrightarrow> fst (SQLFetch D (db_hSTMT c) od) \<noteq> SQL_NO_DATA"
  by (simp add: Fetch_def split: prod.splits)

section \<open>Handles\<close>

text \<open>
  What ODBC documents of handles. \<open>live\<close> are the allocated handles with their parents, \<open>conn\<close> the open
  connections. A successful allocation gives a handle that is not in use, a failed one changes nothing.
  Connecting opens the connection when it succeeds. A successful disconnect closes an open connection and
  drops the statements on it; after a failed one the connection is still open. Freeing succeeds only for an
  allocated handle that is no parent and no open connection (anything else is a function sequence error or
  an invalid handle), and then the handle is gone; after a failure it is still valid.
\<close>

definition odbc_laws :: "'o ODBC \<Rightarrow> ('o \<Rightarrow> (handle \<times> handle) set) \<Rightarrow> ('o \<Rightarrow> handle set) \<Rightarrow> bool" where
  "odbc_laws D live conn \<longleftrightarrow>
     (\<forall>ty p x od r h od'. SQLAllocHandle D ty p x od = (r, h, od') \<longrightarrow> conn od' = conn od
        \<and> (if SQL_RetCheck r
           then h \<noteq> 0 \<and> h \<notin> Domain (live od) \<and> h \<notin> Range (live od) \<and> h \<notin> conn od \<and> live od' = insert (h, p) (live od)
           else live od' = live od))
     \<and> (\<forall>e od r od'. SQLSetEnvAttr D e od = (r, od') \<longrightarrow> live od' = live od \<and> conn od' = conn od)
     \<and> (\<forall>h n u pw od r od'. SQLConnect D h n u pw od = (r, od') \<longrightarrow> live od' = live od
        \<and> conn od' = (if SQL_RetCheck r then insert h (conn od) else conn od))
     \<and> (\<forall>h od r od'. SQLDisconnect D h od = (r, od') \<longrightarrow>
        (if SQL_RetCheck r then h \<in> conn od \<and> live od' = {x \<in> live od. snd x \<noteq> h} \<and> conn od' = conn od - {h}
         else live od' = live od \<and> conn od' = conn od))
     \<and> (\<forall>ty h od r od'. SQLFreeHandle D ty h od = (r, od') \<longrightarrow> conn od' = conn od
        \<and> (if SQL_RetCheck r
           then h \<in> Domain (live od) \<and> h \<notin> Range (live od) \<and> h \<notin> conn od \<and> live od' = {x \<in> live od. fst x \<noteq> h}
           else live od' = live od))"

lemma odbc_allocD:
  assumes "odbc_laws D live conn" and "SQLAllocHandle D ty p x od = (r, h, od')"
  shows "conn od' = conn od"
    and "SQL_RetCheck r \<Longrightarrow>
      h \<noteq> 0 \<and> h \<notin> Domain (live od) \<and> h \<notin> Range (live od) \<and> h \<notin> conn od \<and> live od' = insert (h, p) (live od)"
proof -
  note laws = assms(1)[unfolded odbc_laws_def, THEN conjunct1, rule_format, OF assms(2)]
  show "conn od' = conn od"
    using laws by (rule conjunct1)
  show "h \<noteq> 0 \<and> h \<notin> Domain (live od) \<and> h \<notin> Range (live od) \<and> h \<notin> conn od \<and> live od' = insert (h, p) (live od)"
    if "SQL_RetCheck r"
    using laws[THEN conjunct2] unfolding if_P[OF that] .
qed

lemma odbc_attrD:
  assumes "odbc_laws D live conn" and "SQLSetEnvAttr D e od = (r, od')"
  shows "live od' = live od \<and> conn od' = conn od"
  using assms(1)[unfolded odbc_laws_def, THEN conjunct2, THEN conjunct1, rule_format, OF assms(2)] .

lemma odbc_connectD:
  assumes "odbc_laws D live conn" and "SQLConnect D h n u pw od = (r, od')"
  shows "live od' = live od \<and> conn od' = (if SQL_RetCheck r then insert h (conn od) else conn od)"
  using assms(1)[unfolded odbc_laws_def, THEN conjunct2, THEN conjunct2, THEN conjunct1, rule_format, OF assms(2)] .

lemma odbc_disconnectD:
  assumes "odbc_laws D live conn" and "SQLDisconnect D h od = (r, od')"
  shows "if SQL_RetCheck r then h \<in> conn od \<and> live od' = {x \<in> live od. snd x \<noteq> h} \<and> conn od' = conn od - {h}
    else live od' = live od \<and> conn od' = conn od"
  using assms(1)[unfolded odbc_laws_def, THEN conjunct2, THEN conjunct2, THEN conjunct2, THEN conjunct1, rule_format, OF assms(2)] .

lemma odbc_freeD:
  assumes "odbc_laws D live conn" and "SQLFreeHandle D ty h od = (r, od')"
  shows "conn od' = conn od \<and> (if SQL_RetCheck r
    then h \<in> Domain (live od) \<and> h \<notin> Range (live od) \<and> h \<notin> conn od \<and> live od' = {x \<in> live od. fst x \<noteq> h}
    else live od' = live od)"
  using assms(1)[unfolded odbc_laws_def, THEN conjunct2, THEN conjunct2, THEN conjunct2, THEN conjunct2, rule_format, OF assms(2)] .

text \<open>The handles and the connection a successful \<open>Connet\<close> leaves.\<close>

lemma Connet_ok:
  assumes laws: "odbc_laws D live conn" and c: "Connet D c od = (True, c', od')"
  shows "db_bConnect c'" and "distinct [db_hEnv c', db_hDbc c', db_hSTMT c', 0]"
    and "{db_hEnv c', db_hDbc c', db_hSTMT c'} \<inter> (Domain (live od) \<union> Range (live od) \<union> conn od) = {}"
    and "live od' = {(db_hEnv c', 0), (db_hDbc c', db_hEnv c'), (db_hSTMT c', db_hDbc c')} \<union> live od"
    and "conn od' = insert (db_hDbc c') (conn od)"
proof -
  obtain r1 e od1 r2 od2 r3 d od3 r4 od4 r5 s od5 where calls:
    "SQLAllocHandle D SQL_HANDLE_ENV 0 (db_hEnv c) od = (r1, e, od1)" "SQLSetEnvAttr D e od1 = (r2, od2)"
    "SQLAllocHandle D SQL_HANDLE_DBC e (db_hDbc c) od2 = (r3, d, od3)"
    "SQLConnect D d (db_odbcName c) (db_odbcID c) (db_odbcPwd c) od3 = (r4, od4)"
    "SQLAllocHandle D SQL_HANDLE_STMT d (db_hSTMT c) od4 = (r5, s, od5)"
    by (metis prod_cases3 surj_pair)
  then have ok: "SQL_RetCheck r1" "SQL_RetCheck r3" "SQL_RetCheck r4" "SQL_RetCheck r5" and fields: "db_hEnv c' = e"
    "db_hDbc c' = d" "db_hSTMT c' = s" "db_bConnect c'" "od' = od5"
    using c by (auto simp: Connet_def Let_def split: if_splits)
  have c1: "conn od1 = conn od" "conn od2 = conn od1" "conn od3 = conn od2" "conn od4 = insert d (conn od3)" "conn od5 = conn od4"
    using odbc_allocD(1)[OF laws calls(1)] odbc_attrD[OF laws calls(2)] odbc_allocD(1)[OF laws calls(3)]
      odbc_connectD[OF laws calls(4)] odbc_allocD(1)[OF laws calls(5)] ok by simp_all
  have l: "live od1 = insert (e, 0) (live od)" "live od2 = live od1" "live od3 = insert (d, e) (live od2)"
    "live od4 = live od3" "live od5 = insert (s, d) (live od4)"
    using odbc_allocD(2)[OF laws calls(1) ok(1)] odbc_attrD[OF laws calls(2)] odbc_allocD(2)[OF laws calls(3) ok(2)]
      odbc_connectD[OF laws calls(4)] odbc_allocD(2)[OF laws calls(5) ok(4)] by simp_all
  have e: "e \<noteq> 0" "e \<notin> Domain (live od) \<union> Range (live od) \<union> conn od"
    using odbc_allocD(2)[OF laws calls(1) ok(1)] by simp_all
  have d: "d \<noteq> 0" "d \<noteq> e" "d \<notin> Domain (live od) \<union> Range (live od) \<union> conn od"
    using odbc_allocD(2)[OF laws calls(3) ok(2)] c1 l by auto
  have s: "s \<noteq> 0" "s \<noteq> e" "s \<noteq> d" "s \<notin> Domain (live od) \<union> Range (live od) \<union> conn od"
    using odbc_allocD(2)[OF laws calls(5) ok(4)] c1 l by auto
  show "db_bConnect c'" by (rule fields)
  show "distinct [db_hEnv c', db_hDbc c', db_hSTMT c', 0]"
    unfolding fields using e(1) d(1,2) s(1-3) by auto
  show "{db_hEnv c', db_hDbc c', db_hSTMT c'} \<inter> (Domain (live od) \<union> Range (live od) \<union> conn od) = {}"
    unfolding fields using e(2) d(3) s(4) by blast
  show "live od' = {(db_hEnv c', 0), (db_hDbc c', db_hEnv c'), (db_hSTMT c', db_hDbc c')} \<union> live od"
    unfolding fields l by blast
  show "conn od' = insert (db_hDbc c') (conn od)"
    unfolding fields c1 by (rule refl)
qed

text \<open>The handle table after a handle, or the handles of a parent, were removed.\<close>

lemma drop_handle:
  "{x \<in> insert (a, b) A. fst x \<noteq> h} = (if a = h then {} else {(a, b)}) \<union> {x \<in> A. fst x \<noteq> h}"
  "h \<notin> Domain L \<Longrightarrow> {x \<in> L. fst x \<noteq> h} = L"
  "{x \<in> insert (a, b) A. snd x \<noteq> h} = (if b = h then {} else {(a, b)}) \<union> {x \<in> A. snd x \<noteq> h}"
  "h \<notin> Range L \<Longrightarrow> {x \<in> L. snd x \<noteq> h} = L"
  by force+

text \<open>
  The calls \<open>DisConnect\<close> makes with the three handles of a connected connector, and what their return values,
  which it does not look at, say about the handles and the connection.
\<close>

lemma DisConnect_outcome:
  assumes laws: "odbc_laws D live conn" and c: "db_hEnv c = e" "db_hDbc c = d" "db_hSTMT c = s" "distinct [e, d, s, 0]"
    and new: "{e, d, s} \<inter> (Domain L \<union> Range L \<union> C) = {}"
    and od: "live od = {(e, 0), (d, e), (s, d)} \<union> L" "conn od = insert d C"
    and calls: "SQLFreeHandle D SQL_HANDLE_STMT s od = (r1, od1)" "SQLDisconnect D d od1 = (r2, od2)"
      "SQLFreeHandle D SQL_HANDLE_DBC d od2 = (r3, od3)" "SQLFreeHandle D SQL_HANDLE_ENV e od3 = (r4, od4)"
  shows "snd (DisConnect D c od) = od4" and "SQL_RetCheck r4 \<longrightarrow> SQL_RetCheck r3" and "SQL_RetCheck r3 \<longrightarrow> SQL_RetCheck r2"
    and "conn od4 = (if SQL_RetCheck r2 then C else insert d C)"
    and "live od4 = L \<union> (if SQL_RetCheck r1 \<or> SQL_RetCheck r2 then {} else {(s, d)})
      \<union> (if SQL_RetCheck r3 then {} else {(d, e)}) \<union> (if SQL_RetCheck r4 then {} else {(e, 0)})"
proof -
  show "snd (DisConnect D c od) = od4"
    using c calls by (simp add: DisConnect_def Let_def)
  have dist: "e \<noteq> d" "e \<noteq> s" "d \<noteq> s" "e \<noteq> 0" "d \<noteq> 0" "s \<noteq> 0" "d \<noteq> e" "s \<noteq> e" "s \<noteq> d" "0 \<noteq> d"
    using c(4) by auto
  have out: "e \<notin> Domain L" "d \<notin> Domain L" "s \<notin> Domain L" "d \<notin> Range L"
    using new by auto
  note law1 = odbc_freeD[OF laws calls(1)] and law2 = odbc_disconnectD[OF laws calls(2)]
    and law3 = odbc_freeD[OF laws calls(3)] and law4 = odbc_freeD[OF laws calls(4)]
  note table = Un_insert_left Un_empty_left drop_handle dist out simp_thms if_True if_False
  have conn1: "conn od1 = insert d C" and conn3: "conn od3 = conn od2" and conn4: "conn od4 = conn od3"
    using law1[THEN conjunct1] law3[THEN conjunct1] law4[THEN conjunct1] od(2) by simp_all
  have conn2: "conn od2 = (if SQL_RetCheck r2 then C else insert d C)"
    using law2 new by (cases "SQL_RetCheck r2") (simp_all add: conn1)
  show 32: "SQL_RetCheck r3 \<longrightarrow> SQL_RetCheck r2"
    using law3[THEN conjunct2] by (cases "SQL_RetCheck r2"; cases "SQL_RetCheck r3") (simp_all add: conn2)
  show "conn od4 = (if SQL_RetCheck r2 then C else insert d C)"
    using conn2 conn3 conn4 by simp
  have 1: "live od1 = {(e, 0), (d, e)} \<union> (if SQL_RetCheck r1 then {} else {(s, d)}) \<union> L"
    using law1[THEN conjunct2] unfolding od(1) by (cases "SQL_RetCheck r1") (simp_all only: table)
  have 2: "live od2 = {(e, 0), (d, e)} \<union> (if SQL_RetCheck r1 \<or> SQL_RetCheck r2 then {} else {(s, d)}) \<union> L"
    using law2 unfolding 1 by (cases "SQL_RetCheck r1"; cases "SQL_RetCheck r2") (simp_all only: table)
  have 3: "live od3 = {(e, 0)} \<union> (if SQL_RetCheck r3 then {} else {(d, e)})
      \<union> (if SQL_RetCheck r1 \<or> SQL_RetCheck r2 then {} else {(s, d)}) \<union> L"
    using law3[THEN conjunct2] unfolding 2
    by (cases "SQL_RetCheck r1 \<or> SQL_RetCheck r2"; cases "SQL_RetCheck r3") (simp_all only: table)
  show 43: "SQL_RetCheck r4 \<longrightarrow> SQL_RetCheck r3"
  proof (rule impI, rule ccontr)
    assume "SQL_RetCheck r4" "\<not> SQL_RetCheck r3"
    then have "e \<notin> Range (live od3)" and "(d, e) \<in> live od3"
      using law4[THEN conjunct2] by (simp_all add: 3)
    then show False by blast
  qed
  have "live od4 = (if SQL_RetCheck r4 then {} else {(e, 0)}) \<union> (if SQL_RetCheck r3 then {} else {(d, e)})
      \<union> (if SQL_RetCheck r1 \<or> SQL_RetCheck r2 then {} else {(s, d)}) \<union> L"
    using law4[THEN conjunct2] unfolding 3
    by (cases "SQL_RetCheck r1 \<or> SQL_RetCheck r2"; cases "SQL_RetCheck r3"; cases "SQL_RetCheck r4") (simp_all only: table)
  then show "live od4 = L \<union> (if SQL_RetCheck r1 \<or> SQL_RetCheck r2 then {} else {(s, d)})
      \<union> (if SQL_RetCheck r3 then {} else {(d, e)}) \<union> (if SQL_RetCheck r4 then {} else {(e, 0)})"
    by (simp only: Un_ac)
qed

section \<open>Properties\<close>

text \<open>
  C39. What is left of a connector that is destroyed. After a successful \<open>Connet\<close> the destructor frees the
  statement, disconnects, and frees the connection and the environment, without looking at the results; each
  handle whose call succeeded is gone, and if all succeed everything is as before \<open>Connet\<close>. A failed
  disconnect leaves the connection open and makes freeing the connection and the environment fail as well, so
  both handles stay allocated. After a failed \<open>Connet\<close> the destructor does nothing: what was allocated or
  opened up to the failure stays, because it looks only at the flag that is set at the end.
\<close>

theorem db_handles_after_destruction:
  assumes "odbc_laws D live conn"
    and "Connet D (DBConnector_new x y z name user pw) od = (ok, c, od')"
    and "SQLFreeHandle D SQL_HANDLE_STMT (db_hSTMT c) od' = (r1, od1)" and "SQLDisconnect D (db_hDbc c) od1 = (r2, od2)"
    and "SQLFreeHandle D SQL_HANDLE_DBC (db_hDbc c) od2 = (r3, od3)" and "SQLFreeHandle D SQL_HANDLE_ENV (db_hEnv c) od3 = (r4, od4)"
  shows "if ok
    then live (DBConnector_destroy D c od') = live od
        \<union> (if SQL_RetCheck r1 \<or> SQL_RetCheck r2 then {} else {(db_hSTMT c, db_hDbc c)})
        \<union> (if SQL_RetCheck r3 then {} else {(db_hDbc c, db_hEnv c)}) \<union> (if SQL_RetCheck r4 then {} else {(db_hEnv c, 0)})
      \<and> conn (DBConnector_destroy D c od') = (if SQL_RetCheck r2 then conn od else insert (db_hDbc c) (conn od))
      \<and> (\<not> SQL_RetCheck r2 \<longrightarrow> \<not> SQL_RetCheck r3 \<and> \<not> SQL_RetCheck r4)
    else DBConnector_destroy D c od' = od'"
proof (cases ok)
  case True
  with assms(2) have c: "Connet D (DBConnector_new x y z name user pw) od = (True, c, od')" by simp
  note ok = Connet_ok[OF assms(1) c]
  note out = DisConnect_outcome[OF assms(1) refl refl refl ok(2-5) assms(3-6)]
  have "DBConnector_destroy D c od' = od4"
    using out(1) ok(1) by (simp add: DBConnector_destroy_def)
  then show ?thesis
    using True out(2,3) by (simp only: out(4,5) if_True simp_thms) blast
next
  case False
  then have "\<not> db_bConnect c"
    using assms(2) by (auto simp: Connet_def DBConnector_new_def Let_def split: prod.splits if_splits)
  then show ?thesis
    using False by (simp add: DBConnector_destroy_def)
qed

text \<open>
  A driver with these laws: handles are numbered, and the return values of its calls are given in advance,
  success when none are left; a call that the laws forbid fails.
\<close>

record test_driver =
  td_returns :: "SQLRETURN list"
  td_live :: "(handle \<times> handle) list"
  td_conn :: "handle list"

definition td_call :: "test_driver \<Rightarrow> SQLRETURN \<times> test_driver" where
  "td_call t = (case td_returns t of [] \<Rightarrow> (SQL_SUCCESS, t) | r # rs \<Rightarrow> (r, t\<lparr>td_returns := rs\<rparr>))"

definition td_used :: "test_driver \<Rightarrow> handle list" where
  "td_used t = 0 # map fst (td_live t) @ map snd (td_live t) @ td_conn t"

text \<open>An address that is not in use, if there is one: among the first \<open>length xs + 1\<close> numbers.\<close>

definition td_fresh :: "handle list \<Rightarrow> handle option" where
  "td_fresh xs = find (\<lambda>h. h \<notin> set xs) (map of_nat [0..<length xs + 1])"

definition td_alloc :: "SQLSMALLINT \<Rightarrow> handle \<Rightarrow> handle \<Rightarrow> test_driver \<Rightarrow> SQLRETURN \<times> handle \<times> test_driver" where
  "td_alloc ty p x t =
     (case td_fresh (td_used t) of
        None \<Rightarrow> (- 1, 0, t)
      | Some h \<Rightarrow> let (r, t') = td_call t
          in if SQL_RetCheck r then (r, h, t'\<lparr>td_live := (h, p) # td_live t'\<rparr>) else (r, 0, t'))"

definition td_disconnect :: "handle \<Rightarrow> test_driver \<Rightarrow> SQLRETURN \<times> test_driver" where
  "td_disconnect h t =
     (let (r, t') = td_call t
      in if h \<notin> set (td_conn t) then (- 1, t')
         else if SQL_RetCheck r
         then (r, t'\<lparr>td_live := filter (\<lambda>x. snd x \<noteq> h) (td_live t'), td_conn := removeAll h (td_conn t')\<rparr>)
         else (r, t'))"

definition td_free :: "handle \<Rightarrow> test_driver \<Rightarrow> SQLRETURN \<times> test_driver" where
  "td_free h t =
     (let (r, t') = td_call t
      in if h \<notin> fst ` set (td_live t) \<or> h \<in> snd ` set (td_live t) \<or> h \<in> set (td_conn t) then (- 1, t')
         else if SQL_RetCheck r then (r, t'\<lparr>td_live := filter (\<lambda>x. fst x \<noteq> h) (td_live t')\<rparr>)
         else (r, t'))"

definition test_ODBC :: "test_driver ODBC" where
  "test_ODBC =
     \<lparr>SQLAllocHandle = td_alloc,
      SQLSetEnvAttr = \<lambda>h. td_call,
      SQLConnect = \<lambda>h n u pw t. (let (r, t') = td_call t in (r, if SQL_RetCheck r then t'\<lparr>td_conn := h # td_conn t'\<rparr> else t')),
      SQLDisconnect = td_disconnect,
      SQLFreeHandle = \<lambda>ty. td_free,
      SQLExecDirect = \<lambda>h q. td_call, SQLFetch = \<lambda>h. td_call, SQLCloseCursor = \<lambda>h. td_call,
      SQLRowCount = \<lambda>h n t. (SQL_SUCCESS, 0, t), SQLBindCol = \<lambda>h n ty a k l. td_call\<rparr>"

lemma td_call_keeps: "td_call t = (r, t') \<Longrightarrow> td_live t' = td_live t \<and> td_conn t' = td_conn t"
  by (auto simp: td_call_def split: list.splits)

lemma td_fresh_Some: "td_fresh xs = Some h \<Longrightarrow> h \<notin> set xs"
  by (auto simp: td_fresh_def find_Some_iff)

lemma td_alloc_law:
  assumes "td_alloc ty p x t = (r, h, t')"
  shows "td_conn t' = td_conn t" and "\<not> SQL_RetCheck r \<Longrightarrow> td_live t' = td_live t"
    and "SQL_RetCheck r \<Longrightarrow> h \<notin> set (td_used t) \<and> td_live t' = (h, p) # td_live t"
  using assms td_fresh_Some[of "td_used t"] td_call_keeps[of t]
  by (auto simp: td_alloc_def SQL_RetCheck_def SQL_SUCCESS_def SQL_SUCCESS_WITH_INFO_def split: option.splits prod.splits if_splits)

lemma td_disconnect_law:
  assumes "td_disconnect h t = (r, t')"
  shows "if SQL_RetCheck r
    then h \<in> set (td_conn t) \<and> set (td_live t') = {x \<in> set (td_live t). snd x \<noteq> h} \<and> set (td_conn t') = set (td_conn t) - {h}
    else set (td_live t') = set (td_live t) \<and> set (td_conn t') = set (td_conn t)"
proof -
  obtain r0 t0 where call: "td_call t = (r0, t0)" by (cases "td_call t")
  then show ?thesis
    using assms td_call_keeps[OF call]
    by (auto simp: td_disconnect_def SQL_RetCheck_def SQL_SUCCESS_def SQL_SUCCESS_WITH_INFO_def split: if_splits)
qed

lemma td_free_law:
  assumes "td_free h t = (r, t')"
  shows "td_conn t' = td_conn t \<and> (if SQL_RetCheck r
    then h \<in> Domain (set (td_live t)) \<and> h \<notin> Range (set (td_live t)) \<and> h \<notin> set (td_conn t)
      \<and> set (td_live t') = {x \<in> set (td_live t). fst x \<noteq> h}
    else set (td_live t') = set (td_live t))"
proof -
  obtain r0 t0 where call: "td_call t = (r0, t0)" by (cases "td_call t")
  then show ?thesis
    using assms td_call_keeps[OF call]
    by (auto simp: td_free_def Domain_fst Range_snd SQL_RetCheck_def SQL_SUCCESS_def SQL_SUCCESS_WITH_INFO_def split: if_splits)
qed

lemma test_ODBC_laws: "odbc_laws test_ODBC (\<lambda>t. set (td_live t)) (\<lambda>t. set (td_conn t))"
proof -
  have alloc: "td_conn t' = td_conn t \<and> (if SQL_RetCheck r
      then h \<noteq> 0 \<and> h \<notin> Domain (set (td_live t)) \<and> h \<notin> Range (set (td_live t)) \<and> h \<notin> set (td_conn t)
        \<and> set (td_live t') = insert (h, p) (set (td_live t))
      else set (td_live t') = set (td_live t))"
    if "td_alloc ty p x t = (r, h, t')" for ty p x t r h t'
    using td_alloc_law[OF that] by (auto simp: td_used_def Domain_fst Range_snd)
  have connect: "set (td_live t') = set (td_live t) \<and> set (td_conn t') = (if SQL_RetCheck r then insert h (set (td_conn t)) else set (td_conn t))"
    if "(let (r, t') = td_call t in (r, if SQL_RetCheck r then t'\<lparr>td_conn := h # td_conn t'\<rparr> else t')) = (r, t')" for h t r t'
    using that by (auto simp: Let_def dest: td_call_keeps split: prod.splits if_splits)
  show ?thesis
    unfolding odbc_laws_def
    by (intro conjI allI impI)
      (use alloc connect td_disconnect_law td_free_law td_call_keeps in \<open>simp_all add: test_ODBC_def\<close>)
qed

text \<open>The disconnect of a connector that was connected fails: the connection and two handles are left.\<close>

theorem db_handles_after_destruction_witness:
  "\<exists>c od'. Connet test_ODBC (DBConnector_new 0 0 0 ''n'' ''u'' ''p'')
        \<lparr>td_returns = [0, 0, 1, 0, 0, 0, - 1], td_live = [], td_conn = []\<rparr> = (True, c, od')
      \<and> set (td_live (DBConnector_destroy test_ODBC c od')) = {(2, 1), (1, 0)}
      \<and> set (td_conn (DBConnector_destroy test_ODBC c od')) = {2}"
proof -
  let ?od = "\<lparr>td_returns = [0, 0, 1, 0, 0, 0, - 1], td_live = [], td_conn = []\<rparr>"
  obtain ok c od' where run: "Connet test_ODBC (DBConnector_new 0 0 0 ''n'' ''u'' ''p'') ?od = (ok, c, od')"
    by (metis prod_cases3)
  then have c: ok "td_live od' = [(3, 2), (2, 1), (1, 0)]" "td_conn od' = [2]" "td_returns od' = [0, - 1]"
      "db_hEnv c = 1" "db_hDbc c = 2" "db_hSTMT c = 3"
    by (auto simp: Connet_def test_ODBC_def td_alloc_def td_fresh_def td_used_def td_call_def SQL_RetCheck_def SQL_SUCCESS_def
        SQL_SUCCESS_WITH_INFO_def DBConnector_new_def upt_rec)
  obtain od1 od2 where calls: "SQLFreeHandle test_ODBC SQL_HANDLE_STMT (db_hSTMT c) od' = (0, od1)"
      "SQLDisconnect test_ODBC (db_hDbc c) od1 = (- 1, od2)"
    using c(2-7) by (simp add: test_ODBC_def td_free_def td_disconnect_def td_call_def SQL_RetCheck_def SQL_SUCCESS_def
        SQL_SUCCESS_WITH_INFO_def)
  obtain r3 od3 r4 od4 where rest: "SQLFreeHandle test_ODBC SQL_HANDLE_DBC (db_hDbc c) od2 = (r3, od3)"
      "SQLFreeHandle test_ODBC SQL_HANDLE_ENV (db_hEnv c) od3 = (r4, od4)"
    by (metis surj_pair)
  have ret: "SQL_RetCheck 0" "\<not> SQL_RetCheck (- 1)"
    by (simp_all add: SQL_RetCheck_def SQL_SUCCESS_def SQL_SUCCESS_WITH_INFO_def)
  from db_handles_after_destruction[OF test_ODBC_laws run calls rest] show ?thesis
    using run c ret by auto
qed

end
