(* ===== verification/Configure.thy ===== *)
theory Configure
  imports Logger "HOL-Library.AList"
begin

text \<open>
  The class \<open>ConfigureData\<close> (include/util/configure.h, src/lib/configure.cpp): settings read from an
  ini file. The property tree, the ini parser and the file system are those of boost; they are an
  argument of the operations, over a type of trees and a type of file systems of their own. An
  exception of theirs is the text it gives for \<open>what()\<close>.
\<close>

section \<open>The library\<close>

text \<open>
  \<open>il_groups\<close> is the iteration over a tree: the groups with the keys and values of each. \<open>il_native\<close>
  is the text of a path in the wide characters of Windows, without its terminator. A failed
  \<open>read_ini\<close> leaves the tree it was given as it was.
\<close>

record ('t, 'f) ini_library =
  il_exists :: "bytes \<Rightarrow> 'f \<Rightarrow> bytes + bool"
  il_native :: "bytes \<Rightarrow> u16 list"
  il_read_ini :: "bytes \<Rightarrow> 'f \<Rightarrow> bytes + 't"
  il_write_ini :: "bytes \<Rightarrow> 't \<Rightarrow> 'f \<Rightarrow> bytes option \<times> 'f"
  il_groups :: "'t \<Rightarrow> (bytes \<times> (bytes \<times> bytes) list) list"
  il_erase :: "bytes \<Rightarrow> 't \<Rightarrow> 't"
  il_put :: "bytes \<Rightarrow> bytes \<Rightarrow> 't \<Rightarrow> 't"
  il_put_u32 :: "bytes \<Rightarrow> u32 \<Rightarrow> 't \<Rightarrow> 't"
  il_get_i16 :: "'t \<Rightarrow> bytes \<Rightarrow> i16 \<Rightarrow> i16"
  il_get_i32 :: "'t \<Rightarrow> bytes \<Rightarrow> i32 \<Rightarrow> i32"
  il_get_size :: "'t \<Rightarrow> bytes \<Rightarrow> size_t \<Rightarrow> size_t"
  il_get_string :: "'t \<Rightarrow> bytes \<Rightarrow> bytes \<Rightarrow> bytes"

section \<open>Operations\<close>

record 't ConfigureData =
  cf_iniTree :: 't
  cf_configurePath :: bytes

definition out_line :: "bytes \<Rightarrow> bytes \<Rightarrow> bytes \<times> bytes \<Rightarrow> bytes" where
  "out_line path group_nm key_value =
     literal ''['' @ c_str path @ literal ''][''  @ c_str group_nm @ literal ''][''  @ c_str (fst key_value)
     @ literal '' = '' @ c_str (snd key_value) @ literal '']''"

text \<open>A sequence of calls of the logger.\<close>

fun trace_all :: "bytes list \<Rightarrow> Logger \<Rightarrow> Logger result" where
  "trace_all [] l = Inr l"
| "trace_all (text # rest) l = bind_result (Logger_Trace text l) (trace_all rest)"

definition OutConfigureData :: "('t, 'f) ini_library \<Rightarrow> 't ConfigureData \<Rightarrow> Logger \<Rightarrow> Logger result" where
  "OutConfigureData L cd l =
     trace_all ([literal ''[PRINT CONFIGURE DATA START]'']
       @ concat (map (\<lambda>(group_nm, kvs). map (out_line (cf_configurePath cd) group_nm) kvs) (il_groups L (cf_iniTree cd)))
       @ [literal ''[PRINT CONFIGURE DATA END]'']) l"

text \<open>
  The conversion \<open>%s\<close> of the narrow \<open>Error\<close> is given the wide text of the path: it prints the bytes of
  its characters up to the first zero byte.
\<close>

definition not_exist_text :: "u16 list \<Rightarrow> bytes" where
  "not_exist_text native = literal ''[ConfigureData][LoadCofigureFile] Not exist File[''
     @ c_str (concat (map (le_bytes 2) native)) @ literal '']''"

text \<open>The result is what the function returns, or the text of the exception that leaves it.\<close>

definition LoadCofigureFile ::
  "('t, 'f) ini_library \<Rightarrow> 'f \<Rightarrow> bytes \<Rightarrow> 't ConfigureData \<Rightarrow> Logger \<Rightarrow> ((bytes + bool) \<times> 't ConfigureData \<times> Logger) result" where
  "LoadCofigureFile L fs ConfigureFilePath cd l =
     (let path = c_str ConfigureFilePath
      in case il_exists L path fs of
        Inl what \<Rightarrow> Inr (Inl what, cd, l)
      | Inr False \<Rightarrow> bind_result (Logger_Error (not_exist_text (il_native L path)) l) (\<lambda>l'. Inr (Inr False, cd, l'))
      | Inr True \<Rightarrow>
          let cd1 = cd\<lparr>cf_configurePath := ConfigureFilePath\<rparr>
          in case il_read_ini L path fs of
               Inl what \<Rightarrow> Inr (Inl what, cd1, l)
             | Inr tree \<Rightarrow>
                 let cd2 = cd1\<lparr>cf_iniTree := tree\<rparr>
                 in bind_result (OutConfigureData L cd2 l) (\<lambda>l'. Inr (Inr True, cd2, l')))"

text \<open>
  The conversion \<open>%s\<close> of the wide \<open>Error\<close> reads its argument as wide characters up to a zero, from the
  memory that starts with the exception's text.
\<close>

fun wide_at :: "bytes \<Rightarrow> (u16 list) result" where
  "wide_at (b # c # m) = (if b = 0 \<and> c = 0 then Inr [] else bind_result (wide_at m) (\<lambda>ws. Inr (le_word [b, c] # ws)))"
| "wide_at _ = Inl Out_Of_Bounds"

definition init_error_text :: "u16 list \<Rightarrow> u16 list" where
  "init_error_text what = map ucast (literal ''[ConfigureData] Initialize Error['') @ what @ map ucast (literal '']'')"

text \<open>\<open>after\<close>: the accessible memory behind the text of an exception and its terminator.\<close>

definition ConfigureData_Initialize ::
  "('t, 'f) ini_library \<Rightarrow> bytes \<Rightarrow> 'f \<Rightarrow> bytes \<Rightarrow> 't ConfigureData \<Rightarrow> Logger \<Rightarrow> (bool \<times> 't ConfigureData \<times> Logger) result" where
  "ConfigureData_Initialize L after fs ConfigureFilePath cd l =
     bind_result (LoadCofigureFile L fs ConfigureFilePath cd l) (\<lambda>(r, cd', l').
       case r of
         Inl what \<Rightarrow> bind_result (wide_at (what @ 0 # after)) (\<lambda>ws.
           bind_result (Logger_Error_w (init_error_text ws) l') (\<lambda>l''. Inr (False, cd', l'')))
       | Inr _ \<Rightarrow> Inr (True, cd', l'))"

definition WriteConfigureFile :: "('t, 'f) ini_library \<Rightarrow> 't ConfigureData \<Rightarrow> 'f \<Rightarrow> (bytes + bool) \<times> 'f" where
  "WriteConfigureFile L cd fs =
     (case il_write_ini L (c_str (cf_configurePath cd)) (cf_iniTree cd) fs of
        (Some what, fs') \<Rightarrow> (Inl what, fs')
      | (None, fs') \<Rightarrow> (Inr True, fs'))"

definition SetConfigureData_u32 :: "('t, 'f) ini_library \<Rightarrow> bytes \<Rightarrow> u32 \<Rightarrow> 't ConfigureData \<Rightarrow> 't ConfigureData" where
  "SetConfigureData_u32 L key val cd = cd\<lparr>cf_iniTree := il_put_u32 L key val (il_erase L key (cf_iniTree cd))\<rparr>"

definition SetConfigureData :: "('t, 'f) ini_library \<Rightarrow> bytes \<Rightarrow> bytes \<Rightarrow> 't ConfigureData \<Rightarrow> 't ConfigureData" where
  "SetConfigureData L key val cd = cd\<lparr>cf_iniTree := il_put L key val (il_erase L key (cf_iniTree cd))\<rparr>"

text \<open>The template: \<open>get\<close> is the instance of \<open>ptree::get\<close> for the type.\<close>

definition GetConfigureData :: "('t \<Rightarrow> bytes \<Rightarrow> 'a \<Rightarrow> 'a) \<Rightarrow> bytes \<Rightarrow> 'a \<Rightarrow> 't ConfigureData \<Rightarrow> 'a" where
  "GetConfigureData get key default_value cd = get (cf_iniTree cd) key default_value"

section \<open>Logging the settings\<close>

lemma trace_all_ok:
  "lg_pLogger l \<Longrightarrow> list_all (\<lambda>t. length t < 1024) ts \<Longrightarrow>
     trace_all ts l = Inr (l\<lparr>lg_out := lg_out l @ map (\<lambda>t. (TRACE, Narrow t)) ts\<rparr>)"
  by (induction ts arbitrary: l) (simp_all add: log_trace.log_ok)

text \<open>The lines the settings of a tree are logged with all fit.\<close>

definition printable :: "('t, 'f) ini_library \<Rightarrow> bytes \<Rightarrow> 't \<Rightarrow> bool" where
  "printable L path tree \<longleftrightarrow>
     list_all (\<lambda>(g, kvs). list_all (\<lambda>kv. length (out_line path g kv) < 1024) kvs) (il_groups L tree)"

lemma OutConfigureData_ok:
  assumes "lg_pLogger l" and "printable L (cf_configurePath cd) (cf_iniTree cd)"
  obtains l' where "OutConfigureData L cd l = Inr l'" and "lg_pLogger l'"
proof -
  let ?ts = "[literal ''[PRINT CONFIGURE DATA START]'']
       @ concat (map (\<lambda>(group_nm, kvs). map (out_line (cf_configurePath cd) group_nm) kvs) (il_groups L (cf_iniTree cd)))
       @ [literal ''[PRINT CONFIGURE DATA END]'']"
  have "list_all (\<lambda>t. length t < 1024) ?ts"
    using assms(2) by (auto simp: printable_def list_all_iff)
  from trace_all_ok[OF assms(1) this] show thesis
    by (intro that) (simp_all only: OutConfigureData_def, simp add: assms(1))
qed

section \<open>Reading the file\<close>

lemma LoadCofigureFile_ok:
  assumes "il_exists L (c_str path) fs = Inr True" and "il_read_ini L (c_str path) fs = Inr tree"
    and "lg_pLogger l" and "printable L path tree"
  obtains l' where "LoadCofigureFile L fs path cd l = Inr (Inr True, \<lparr>cf_iniTree = tree, cf_configurePath = path\<rparr>, l')"
    and "lg_pLogger l'"
proof -
  let ?cd = "\<lparr>cf_iniTree = tree, cf_configurePath = path\<rparr>"
  obtain l' where "OutConfigureData L ?cd l = Inr l'" "lg_pLogger l'"
    using OutConfigureData_ok[OF assms(3), of L ?cd] assms(4) by auto
  moreover have "cd\<lparr>cf_configurePath := path\<rparr>\<lparr>cf_iniTree := tree\<rparr> = ?cd" by simp
  ultimately show thesis
    using assms(1,2) by (intro that[of l']) (simp_all only: LoadCofigureFile_def Let_def sum.case bool.case bind_result_simps)
qed

lemma LoadCofigureFile_missing:
  assumes "il_exists L (c_str path) fs = Inr False" and "lg_pLogger l"
    and "length (not_exist_text (il_native L (c_str path))) < 1024"
  shows "LoadCofigureFile L fs path cd l = Inr (Inr False, cd,
    l\<lparr>lg_out := lg_out l @ [(ERROR, Narrow (not_exist_text (il_native L (c_str path))))]\<rparr>)"
  using assms by (simp add: LoadCofigureFile_def log_error.log_ok)

lemma LoadCofigureFile_unreadable:
  assumes "il_exists L (c_str path) fs = Inr True" and "il_read_ini L (c_str path) fs = Inl what"
  shows "LoadCofigureFile L fs path cd l = Inr (Inl what, cd\<lparr>cf_configurePath := path\<rparr>, l)"
  using assms by (simp add: LoadCofigureFile_def)

text \<open>
  The name of the file that is missing is logged with its first character only when that character
  takes one byte.
\<close>

lemma not_exist_text_first:
  assumes "native = ucast (b :: u8) # rest" and "b \<noteq> 0"
  shows "not_exist_text native = literal ''[ConfigureData][LoadCofigureFile] Not exist File['' @ [b] @ literal '']''"
proof -
  have "ucast (drop_bit 8 (ucast b :: u16)) = (0 :: u8)"
    by (rule bit_word_eqI) (auto simp: bit_simps dest: bit_imp_le_length)
  moreover have "ucast (ucast b :: u16) = b"
    by (rule bit_word_eqI) (auto simp: bit_simps)
  ultimately show ?thesis
    using assms by (simp add: not_exist_text_def c_str_def numeral_2_eq_2)
qed

text \<open>Reading a narrow text as wide characters runs over its end.\<close>

lemma wide_at_overruns: "0 \<notin> set what \<Longrightarrow> wide_at (what @ [0]) = Inl Out_Of_Bounds"
  by (induction what rule: wide_at.induct) auto

section \<open>Properties\<close>

text \<open>
  C40. \<open>Initialize\<close> cannot tell its caller that there are no settings. When the file is missing it
  returns true and the settings are those from before. When the file cannot be parsed, the text of
  the exception is read as wide characters beyond its end before false could be returned; the path is
  then that of the unreadable file while the settings are those from before, so that the next
  \<open>WriteConfigureFile\<close> replaces the file by them.
\<close>

theorem configuration_failures:
  assumes "lg_pLogger l" and "length (not_exist_text (il_native L (c_str path))) < 1024"
    and "il_exists L (c_str path) fs = Inr ex" and "ex \<longrightarrow> il_read_ini L (c_str path) fs = Inl what \<and> 0 \<notin> set what"
  shows "if ex
    then ConfigureData_Initialize L [] fs path cd l = Inl Out_Of_Bounds
      \<and> (\<exists>cd'. LoadCofigureFile L fs path cd l = Inr (Inl what, cd', l)
          \<and> snd (WriteConfigureFile L cd' fs) = snd (il_write_ini L (c_str path) (cf_iniTree cd) fs))
    else \<exists>l'. ConfigureData_Initialize L [] fs path cd l = Inr (True, cd, l')"
proof (cases ex)
  case True
  then have "LoadCofigureFile L fs path cd l = Inr (Inl what, cd\<lparr>cf_configurePath := path\<rparr>, l)" "0 \<notin> set what"
    using LoadCofigureFile_unreadable[of L path fs what cd l] assms(3,4) by simp_all
  then show ?thesis
    using True by (simp add: ConfigureData_Initialize_def wide_at_overruns WriteConfigureFile_def split: prod.splits option.splits)
next
  case False
  then show ?thesis
    using LoadCofigureFile_missing[of L path fs l cd] assms(1-3) by (simp add: ConfigureData_Initialize_def)
qed

text \<open>A file system with one file, which holds a text that is not an ini file.\<close>

definition test_ini :: "(bytes list, (bytes \<times> bytes list) list) ini_library" where
  "test_ini =
     \<lparr>il_exists = \<lambda>p fs. Inr (map_of fs p \<noteq> None), il_native = map ucast,
      il_read_ini = \<lambda>p fs. (case map_of fs p of None \<Rightarrow> Inl [67] | Some t \<Rightarrow> if t = [] then Inl [80] else Inr t),
      il_write_ini = \<lambda>p t fs. (None, AList.update p t fs),
      il_groups = \<lambda>t. [], il_erase = \<lambda>k. remove1 k, il_put = \<lambda>k v. Cons v, il_put_u32 = \<lambda>k v. Cons (le_bytes 4 v),
      il_get_i16 = \<lambda>t k d. d, il_get_i32 = \<lambda>t k d. d, il_get_size = \<lambda>t k d. d,
      il_get_string = \<lambda>t k d. d\<rparr>"

theorem configuration_failures_witness:
  "(\<exists>cd'. LoadCofigureFile test_ini [([97], [])] [97] \<lparr>cf_iniTree = [[1]], cf_configurePath = []\<rparr>
        \<lparr>lg_pLogger = True, lg_out = []\<rparr> = Inr (Inl [80], cd', \<lparr>lg_pLogger = True, lg_out = []\<rparr>)
      \<and> snd (WriteConfigureFile test_ini cd' [([97], [])]) = [([97], [[1]])])"
proof -
  let ?l = "\<lparr>lg_pLogger = True, lg_out = []\<rparr>" and ?fs = "[([97], [])]"
  have "length (not_exist_text (il_native test_ini (c_str [97]))) < 1024"
    by (simp add: not_exist_text_first[of _ 97 "[]"] test_ini_def c_str_def)
  from configuration_failures[of ?l test_ini "[97]" ?fs True "[80]" "\<lparr>cf_iniTree = [[1]], cf_configurePath = []\<rparr>", OF _ this]
  show ?thesis
    by (simp add: test_ini_def c_str_def)
qed

end
