(* ===== verification/Server_Main.thy ===== *)
theory Server_Main
  imports Dummy_Server Configure
begin

text \<open>
  The main function of the sample server (\<open>_tmain\<close> of src/dummyServer/dummyServer.cpp) with the
  constructor of the server it runs (\<open>SkltServer\<close> of src/lib/skeleton_server.cpp): the logger, the
  configuration, the handler table, the workers, the session pool and the acceptor put together.
\<close>

section \<open>Starting\<close>

text \<open>
  What the start depends on besides the program: whether it was built with assertions, whether the logger
  could be configured, the file system, whether the port can be listened on, the initial contents of uninitialised members, and the
  environment of the handlers.
\<close>

record 'f main_env =
  me_asserts :: bool
  me_logger :: bool
  me_fs :: 'f
  me_listens :: "i16 \<Rightarrow> bool"
  me_enders :: "nat \<Rightarrow> SD_ENDER"
  me_handlers :: handler_env

text \<open>The server while \<open>Run\<close> runs it.\<close>

record server =
  sv_version :: i32
  sv_port :: i16
  sv_workers :: "((HeaderCCT, i32) Net) PacketWorker list"
  sv_net :: "(HeaderCCT, i32) Net"

definition CONFIG_FILE_NAME :: bytes where
  "CONFIG_FILE_NAME = literal ''Configure.ini''"

definition loaded_text :: "i32 \<Rightarrow> bytes" where
  "loaded_text protocolNo = literal ''Protocol ['' @ int_text (sint protocolNo) @ literal ''] loaded''"

text \<open>The lines the manager of the workers and the pool of the sessions log; the second is wide.\<close>

definition workers_text :: "size_t \<Rightarrow> bytes" where
  "workers_text n = literal ''Worker create ['' @ int_text (sint (ucast n :: i32)) @ literal ''] Complete ''"

definition sessions_text :: "size_t \<Rightarrow> u16 list" where
  "sessions_text n = map ucast (literal ''Session Pool Amount ['' @ int_text (sint (ucast n :: i32)) @ literal ''] : Create complete'')"

text \<open>
  The constructor of \<open>SkltServer\<close>. Opening the acceptor throws when the port cannot be listened on. The
  accepting coroutine is spawned here and takes its first session as soon as \<open>Run\<close> runs it. The sessions
  get their headers from the factory, whose closure has been set before.
\<close>

definition SkltServer_new ::
  "('t, 'f) ini_library \<Rightarrow> 'f main_env \<Rightarrow> 't ConfigureData \<Rightarrow> (SD_ENDER, unit, HeaderCCT) HeaderFactory
     \<Rightarrow> i16 \<Rightarrow> ((HeaderCCT, i32) Net) HandlerManager \<Rightarrow> Logger \<Rightarrow> ((((HeaderCCT, i32) Net) PacketWorker list \<times> (HeaderCCT, i32) Net) \<times> Logger) result" where
  "SkltServer_new L env cd factory port handler_manager l =
     (if \<not> me_listens env port then Inl Uncaught_Exception
      else let worker_cnt = GetConfigureData (il_get_size L) (literal ''CONFIGURE.WORKER_COUNT'') 4 cd;
               pool_cnt = GetConfigureData (il_get_size L) (literal ''CONFIGURE.SESSION_POOL_COUNT'') 10000 cd;
               max_buffer = GetConfigureData (il_get_size L) (literal ''CONFIGURE.SESSION_BUFFER_MAX'') 32768 cd
           in bind_result (SkltServer_Initialize (me_asserts env) handler_manager worker_cnt pool_cnt max_buffer
                (\<lambda>i. the (MakeHeader_factory factory (me_enders env i))) (\<lambda>_. 0) (blank_net (me_enders env) max_buffer 0))
                (\<lambda>(_, workers, w).
              bind_result (Logger_Trace (workers_text worker_cnt) l) (\<lambda>l1.
              bind_result (Logger_Info_w (sessions_text pool_cnt) l1) (\<lambda>l2.
              bind_result (Logger_Info (literal ''[ServerBase][Initiazize] Complete'') l2) (\<lambda>l3.
              bind_result (StartAccept w) (\<lambda>(_, w'). Inr ((workers, w'), l3)))))))"

text \<open>
  The result is \<open>None\<close> when the function returns before there is a server, and otherwise the server
  that \<open>Run\<close> then runs.
\<close>

definition tmain ::
  "('t, 'f) ini_library \<Rightarrow> bool \<Rightarrow> 'f main_env
     \<Rightarrow> (((HeaderCCT, i32) Net) HandlerManager \<Rightarrow> (i32 \<times> ((HeaderCCT, i32) Net) FunctionObject) list)
     \<Rightarrow> 't ConfigureData \<Rightarrow> Logger \<Rightarrow> (server option \<times> Logger) result" where
  "tmain L en env iter conf l =
     bind_result (Logger_Info (literal ''Dummy Server Start!!!'') (Logger_Create (me_logger env) l)) (\<lambda>l1.
     bind_result (LoadCofigureFile L (me_fs env) CONFIG_FILE_NAME conf l1) (\<lambda>(loaded, cd, l2).
     case loaded of
       Inl what \<Rightarrow> Inl Uncaught_Exception
     | Inr False \<Rightarrow> bind_result (Logger_Error (literal ''Load configure file FAIL [Error]'') l2) (\<lambda>l3. Inr (None, l3))
     | Inr True \<Rightarrow>
         bind_result (Logger_Trace (literal ''LoadCofigureFile [Success]'') l2) (\<lambda>l3.
         let version = GetConfigureData (il_get_i32 L) (literal ''CONFIGURE.VERSION'') 143 cd;
             factory = snd (SetClosure HeaderFactory_new (make_header_closure (\<lambda>m. Inr (HeaderCCT_new m))));
             pHandlerManager = HandlerSet en (me_handlers env) HandlerManager_new;
             vProtocolList = ProtocolListGet iter pHandlerManager []
         in bind_result (trace_all ([literal ''[Loaded protocol list][Start]''] @ map loaded_text vProtocolList
              @ [literal ''[Loaded protocol list][End]'']) l3) (\<lambda>l4.
            bind_result (Logger_Info (literal ''=============== Dummy Server by libSkeleton Start ==================='') l4) (\<lambda>l5.
            let port = GetConfigureData (il_get_i16 L) (literal ''CONFIGURE.PORT'') 12800 cd
            in bind_result (SkltServer_new L env cd factory port pHandlerManager l5) (\<lambda>((workers, w), l6).
               bind_result (Logger_Trace (literal '' Server Run()'') l6) (\<lambda>l7.
                 Inr (Some \<lparr>sv_version = version, sv_port = port, sv_workers = workers, sv_net = w\<rparr>, l7))))))))"

section \<open>A start that succeeds\<close>

text \<open>The first round of the acceptor takes the first session.\<close>

lemma StartAccept_started:
  assumes "unat n < 2 ^ 31" and "0 < unat n"
  obtains w where "StartAccept (started e mb n u) = Inr (True, w)" and "server_step V W (started e mb n u) w"
    and "n_accepting w = Some 0"
proof -
  have "[0..<unat n] = 0 # [1..<unat n]"
    using assms(2) by (simp add: upt_conv_Cons)
  then obtain w where w: "accept_ready (started e mb n u) = Inr w" "n_accepting w = Some 0"
    using assms(1) by (simp add: accept_ready_def SessionPool_Acquire_def Acquire_def started_effect)
  show thesis
    by (rule that[of w]) (use w assms(1) in \<open>auto simp: StartAccept_def started_effect intro: step_accept_ready\<close>)
qed

text \<open>The workers all have the handler table they are given.\<close>

lemma Initialize_server:
  "SkltServer_Initialize asserts hm k n mb (\<lambda>i. HeaderCCT_new (e i)) (\<lambda>_. 0) (blank_net e mb u)
     = (if asserts \<and> k = 0 then Inl Assertion_Failed
        else Inr (True, PacketWorkerManager_Initialize hm (unat k), started e mb n u))"
  by (simp add: SkltServer_Initialize_def PacketWorkerManager_new_def started_def word_gt_0)

lemma workers_of_manager:
  "length (PacketWorkerManager_Initialize hm k) = k"
  "pk \<in> set (PacketWorkerManager_Initialize hm k) \<Longrightarrow> pk_spHandlerManager pk = hm"
  by (auto simp: PacketWorkerManager_Initialize_def Run_def PacketWorker_new_def SetHandlerManager_def)

lemma loaded_protocols:
  assumes "iterates iter (HandlerSet en henv HandlerManager_new)"
  shows "set (ProtocolListGet iter (HandlerSet en henv HandlerManager_new) []) = {101, 501}"
proof -
  have "set (ProtocolListGet iter (HandlerSet en henv HandlerManager_new) []) = dom (HandlerSet en henv HandlerManager_new)"
    using assms by (simp add: ProtocolListGet_def fold_snoc_map GetContainer_def iterates_def dom_map_of_conv_image_fst
        flip: dom_map_of_conv_image_fst)
  then show ?thesis
    by (auto simp: dom_def HandlerSet_table split: if_splits)
qed

lemma loaded_texts_fit:
  assumes "iterates iter (HandlerSet en henv HandlerManager_new)"
  shows "list_all (\<lambda>t. length t < 1024) ([literal ''[Loaded protocol list][Start]'']
    @ map loaded_text (ProtocolListGet iter (HandlerSet en henv HandlerManager_new) []) @ [literal ''[Loaded protocol list][End]''])"
proof -
  have "length (loaded_text 101) < 1024" "length (loaded_text 501) < 1024"
    using length_decimal_bound[of 101 3] length_decimal_bound[of 501 3] by (simp_all add: loaded_text_def int_text_def)
  then show ?thesis
    using loaded_protocols[OF assms] by (auto simp: list_all_iff)
qed

text \<open>Logging a short line with a logger.\<close>

lemma log_line:
  assumes "lg_pLogger l" and "length text < 1024"
  obtains l' where "Logger_Info text l = Inr l'" and "Logger_Trace text l = Inr (l\<lparr>lg_out := lg_out l @ [(TRACE, Narrow text)]\<rparr>)"
    and "lg_pLogger l'"
  using assms by (simp add: log_info.log_ok log_trace.log_ok)

text \<open>The factory as the main function sets it up.\<close>

abbreviation server_factory :: "(SD_ENDER, unit, HeaderCCT) HeaderFactory" where
  "server_factory \<equiv> snd (SetClosure HeaderFactory_new (make_header_closure (\<lambda>m. Inr (HeaderCCT_new m))))"

lemma start_lines_fit: "length (workers_text k) < 1024" "length (sessions_text n) < 1024"
  using length_int_text_word(2)[of "ucast k"] length_int_text_word(2)[of "ucast n"]
  by (simp_all add: workers_text_def sessions_text_def)

lemma start_logged:
  assumes "lg_pLogger l"
  obtains l1 l2 l3 where "Logger_Trace (workers_text k) l = Inr l1" and "Logger_Info_w (sessions_text n) l1 = Inr l2"
    and "Logger_Info (literal ''[ServerBase][Initiazize] Complete'') l2 = Inr l3" and "lg_pLogger l3"
  using assms start_lines_fit(1)[of k] start_lines_fit(2)[of n] by (simp add: log_trace.log_ok log_info_w.log_ok log_info.log_ok)

lemma SkltServer_new_ok:
  fixes L :: "('t, 'f) ini_library" and cd :: "'t ConfigureData" and env :: "'f main_env"
  defines "k \<equiv> GetConfigureData (il_get_size L) (literal ''CONFIGURE.WORKER_COUNT'') 4 cd"
  assumes "me_listens env port" and "StartAccept (started (me_enders env)
      (GetConfigureData (il_get_size L) (literal ''CONFIGURE.SESSION_BUFFER_MAX'') 32768 cd)
      (GetConfigureData (il_get_size L) (literal ''CONFIGURE.SESSION_POOL_COUNT'') 10000 cd) 0) = Inr (True, w)"
    and "lg_pLogger l" and "\<not> (me_asserts env \<and> k = 0)"
  shows "\<exists>l'. SkltServer_new L env cd server_factory port hm l = Inr ((PacketWorkerManager_Initialize hm (unat k), w), l')
    \<and> lg_pLogger l'"
proof -
  obtain l1 l2 l3 where "Logger_Trace (workers_text k) l = Inr l1"
      "Logger_Info_w (sessions_text (GetConfigureData (il_get_size L) (literal ''CONFIGURE.SESSION_POOL_COUNT'') 10000 cd)) l1 = Inr l2"
      "Logger_Info (literal ''[ServerBase][Initiazize] Complete'') l2 = Inr l3" "lg_pLogger l3"
    by (rule start_logged[OF assms(4)])
  then show ?thesis
    unfolding SkltServer_new_def Let_def k_def[symmetric]
    by (simp only: assms(2,3,5) factory_makes option.sel Initialize_server prod.case bind_result_simps if_False not_True_eq_False) blast
qed

lemma SkltServer_new_asserts:
  assumes "me_listens env port" and "me_asserts env"
    and "GetConfigureData (il_get_size L) (literal ''CONFIGURE.WORKER_COUNT'') 4 cd = 0"
  shows "SkltServer_new L env cd server_factory port hm l = Inl Assertion_Failed"
  by (simp only: SkltServer_new_def Let_def assms factory_makes option.sel Initialize_server bind_result_simps simp_thms if_True if_False)

lemma handler_protocols: "dom (HandlerSet en henv HandlerManager_new) = {101, 501}"
  by (auto simp: dom_def HandlerSet_table split: if_splits)

text \<open>The part of \<open>tmain\<close> after the configuration has been read: everything up to the server can be logged.\<close>

lemma tmain_loaded:
  fixes L :: "('t, 'f) ini_library" and cd :: "'t ConfigureData"
  defines "port \<equiv> GetConfigureData (il_get_i16 L) (literal ''CONFIGURE.PORT'') 12800 cd"
  assumes l1: "Logger_Info (literal ''Dummy Server Start!!!'') (Logger_Create (me_logger env) l) = Inr l1"
    and l2: "LoadCofigureFile L (me_fs env) CONFIG_FILE_NAME conf l1 = Inr (Inr True, cd, l2)" "lg_pLogger l2"
    and iter: "iterates iter (HandlerSet en (me_handlers env) HandlerManager_new)"
  obtains l5 where "lg_pLogger l5"
    and "tmain L en env iter conf l
      = bind_result (SkltServer_new L env cd server_factory port (HandlerSet en (me_handlers env) HandlerManager_new) l5) (\<lambda>((workers, w), l6).
        bind_result (Logger_Trace (literal '' Server Run()'') l6) (\<lambda>l7.
          Inr (Some \<lparr>sv_version = GetConfigureData (il_get_i32 L) (literal ''CONFIGURE.VERSION'') 143 cd,
            sv_port = port, sv_workers = workers, sv_net = w\<rparr>, l7)))"
proof -
  let ?hm = "HandlerSet en (me_handlers env) HandlerManager_new"
  define l3 where "l3 = l2\<lparr>lg_out := lg_out l2 @ [(TRACE, Narrow (literal ''LoadCofigureFile [Success]''))]\<rparr>"
  define ts where "ts = [literal ''[Loaded protocol list][Start]''] @ map loaded_text (ProtocolListGet iter ?hm [])
    @ [literal ''[Loaded protocol list][End]'']"
  define l4 where "l4 = l3\<lparr>lg_out := lg_out l3 @ map (\<lambda>t. (TRACE, Narrow t)) ts\<rparr>"
  have l4: "Logger_Trace (literal ''LoadCofigureFile [Success]'') l2 = Inr l3" "trace_all ts l3 = Inr l4" "lg_pLogger l4"
    using l2(2) loaded_texts_fit[OF iter, folded ts_def]
    by (simp_all add: l3_def l4_def log_trace.log_ok trace_all_ok)
  obtain l5 where l5: "Logger_Info (literal ''=============== Dummy Server by libSkeleton Start ==================='') l4 = Inr l5"
    "lg_pLogger l5"
    by (rule log_line[OF l4(3), of "literal ''=============== Dummy Server by libSkeleton Start ===================''"]) simp_all
  show thesis
    by (rule that[OF l5(2)])
      (simp only: tmain_def l1 l2(1) l4(1) l4(2)[unfolded ts_def] l5(1) bind_result_simps prod.case sum.case bool.case Let_def port_def)
qed

section \<open>Properties\<close>

text \<open>
  C10. The main function of the sample server, with a logger that could be configured. Without a
  configuration file it returns and there is no server. With one that can be read and logged, a port that can
  be listened on, at least one session and fewer than \<open>2 ^ 31\<close> sessions and workers: if the configured number
  of workers is zero and the program was built with assertions, it ends with a failed assertion; otherwise it
  runs a server with the configured number of workers, each of which handles exactly the protocols 101 and
  501, the server has made its first step from the state that the properties of the session pool and of the
  header reads start from, and the acceptor waits with the first session.
\<close>

theorem server_main_starts:
  fixes L :: "('t, 'f) ini_library" and tree :: 't
  defines "cd \<equiv> \<lparr>cf_iniTree = tree, cf_configurePath = CONFIG_FILE_NAME\<rparr>"
  defines "n \<equiv> GetConfigureData (il_get_size L) (literal ''CONFIGURE.SESSION_POOL_COUNT'') 10000 cd"
    and "k \<equiv> GetConfigureData (il_get_size L) (literal ''CONFIGURE.WORKER_COUNT'') 4 cd"
    and "mb \<equiv> GetConfigureData (il_get_size L) (literal ''CONFIGURE.SESSION_BUFFER_MAX'') 32768 cd"
    and "port \<equiv> GetConfigureData (il_get_i16 L) (literal ''CONFIGURE.PORT'') 12800 cd"
  assumes "me_logger env" and "il_exists L (c_str CONFIG_FILE_NAME) (me_fs env) = Inr ex"
    and "length (not_exist_text (il_native L (c_str CONFIG_FILE_NAME))) < 1024"
    and "ex \<longrightarrow> il_read_ini L (c_str CONFIG_FILE_NAME) (me_fs env) = Inr tree \<and> printable L CONFIG_FILE_NAME tree"
    and "me_listens env port" and "0 < unat n" and "unat n < 2 ^ 31" and "unat k < 2 ^ 31"
    and "iterates iter (HandlerSet en (me_handlers env) HandlerManager_new)"
  shows "\<exists>l'. if ex
    then if me_asserts env \<and> k = 0 then tmain L en env iter conf l = Inl Assertion_Failed
      else \<exists>sv. tmain L en env iter conf l = Inr (Some sv, l') \<and> sv_port sv = port \<and> length (sv_workers sv) = unat k
      \<and> (\<forall>pk \<in> set (sv_workers sv). dom (pk_spHandlerManager pk) = {101, 501})
      \<and> server_step (server_vtbl en) W (started (me_enders env) mb n 0) (sv_net sv) \<and> n_accepting (sv_net sv) = Some 0
    else tmain L en env iter conf l = Inr (None, l')"
proof -
  let ?hm = "HandlerSet en (me_handlers env) HandlerManager_new"
  have "lg_pLogger (Logger_Create (me_logger env) l)"
    using assms(6) by (simp add: Logger_Create_def)
  then obtain l1 where l1: "Logger_Info (literal ''Dummy Server Start!!!'') (Logger_Create (me_logger env) l) = Inr l1"
    "lg_pLogger l1"
    by (rule log_line[of _ "literal ''Dummy Server Start!!!''"]) simp_all
  show ?thesis
  proof (cases ex)
    case False
    then show ?thesis
      using LoadCofigureFile_missing[OF _ l1(2) assms(8), of "me_fs env" conf] assms(7) l1
      by (simp add: tmain_def log_error.log_ok)
  next
    case True
    then obtain l2 where l2: "LoadCofigureFile L (me_fs env) CONFIG_FILE_NAME conf l1 = Inr (Inr True, cd, l2)" "lg_pLogger l2"
      using LoadCofigureFile_ok[of L CONFIG_FILE_NAME "me_fs env" tree l1 conf] assms(7,9) l1(2) unfolding cd_def by auto
    obtain w where w: "StartAccept (started (me_enders env) mb n 0) = Inr (True, w)"
      "server_step (server_vtbl en) W (started (me_enders env) mb n 0) w" "n_accepting w = Some 0"
      by (rule StartAccept_started[OF assms(12,11)])
    obtain l5 where l5: "lg_pLogger l5" "tmain L en env iter conf l
      = bind_result (SkltServer_new L env cd server_factory port ?hm l5) (\<lambda>((workers, w), l6).
        bind_result (Logger_Trace (literal '' Server Run()'') l6) (\<lambda>l7.
          Inr (Some \<lparr>sv_version = GetConfigureData (il_get_i32 L) (literal ''CONFIGURE.VERSION'') 143 cd,
            sv_port = port, sv_workers = workers, sv_net = w\<rparr>, l7)))"
      unfolding port_def by (rule tmain_loaded[OF l1(1) l2 assms(14)])
    show ?thesis
    proof (cases "me_asserts env \<and> k = 0")
      case asserts: True
      then show ?thesis
        using True SkltServer_new_asserts[OF assms(10), of L cd ?hm l5] l5(2) unfolding k_def by simp
    next
      case workers: False
      obtain l6 where l6: "SkltServer_new L env cd server_factory port ?hm l5 = Inr ((PacketWorkerManager_Initialize ?hm (unat k), w), l6)"
        "lg_pLogger l6"
        using SkltServer_new_ok[OF assms(10) w(1)[unfolded mb_def n_def] l5(1) workers[unfolded k_def], of ?hm] unfolding k_def by blast
      define sv where "sv = \<lparr>sv_version = GetConfigureData (il_get_i32 L) (literal ''CONFIGURE.VERSION'') 143 cd,
          sv_port = port, sv_workers = PacketWorkerManager_Initialize ?hm (unat k), sv_net = w\<rparr>"
      have "\<exists>l'. tmain L en env iter conf l = Inr (Some sv, l')"
        unfolding l5(2) l6(1) using l6(2) by (simp add: log_trace.log_ok sv_def)
      moreover have "\<forall>pk \<in> set (sv_workers sv). dom (pk_spHandlerManager pk) = {101, 501}"
        using workers_of_manager(2)[of _ ?hm "unat k"] handler_protocols[of en "me_handlers env"] by (auto simp: sv_def)
      ultimately show ?thesis
        unfolding if_P[OF True] if_not_P[OF workers] using w(2,3) workers_of_manager(1)
        by (metis sv_def server.select_convs(2,3,4))
    qed
  qed
qed

text \<open>A machine with a configuration file that sets nothing, and the order its handler table is iterated in.\<close>

definition test_main_env :: "(bytes \<times> bytes list) list main_env" where
  "test_main_env =
     \<lparr>me_asserts = True, me_logger = True, me_fs = [(CONFIG_FILE_NAME, [[1]])], me_listens = (\<lambda>_. True), me_enders = (\<lambda>_. zero_ender),
      me_handlers = \<lparr>he_block = 4096, he_junk = [], he_rand = 7, he_ender = zero_ender, he_ck = replicate 5 0\<rparr>\<rparr>"

definition test_iter ::
  "((HeaderCCT, i32) Net) HandlerManager \<Rightarrow> (i32 \<times> ((HeaderCCT, i32) Net) FunctionObject) list" where
  "test_iter hm = List.map_filter (\<lambda>no. map_option (Pair no) (hm no)) [101, 501]"

lemma test_iter_iterates: "iterates test_iter (HandlerSet en henv HandlerManager_new)"
  by (auto simp: iterates_def test_iter_def map_filter_simps HandlerSet_table fun_eq_iff)

theorem server_main_starts_witness:
  "\<exists>sv l'. tmain test_ini True test_main_env test_iter \<lparr>cf_iniTree = [], cf_configurePath = []\<rparr> Logger_new = Inr (Some sv, l')
     \<and> sv_port sv = 12800 \<and> length (sv_workers sv) = 4 \<and> n_accepting (sv_net sv) = Some 0"
proof -
  have name: "c_str CONFIG_FILE_NAME = CONFIG_FILE_NAME"
    by (rule c_str_id) (simp add: CONFIG_FILE_NAME_def literal_def)
  have "il_native test_ini (c_str CONFIG_FILE_NAME) = ucast (67 :: u8) # map ucast (literal ''onfigure.ini'')"
    unfolding name by (simp add: test_ini_def CONFIG_FILE_NAME_def literal_def)
  from not_exist_text_first[OF this]
  have "length (not_exist_text (il_native test_ini (c_str CONFIG_FILE_NAME))) < 1024" by simp
  from server_main_starts[of test_main_env test_ini True "[[1]]" test_iter True "\<lparr>cf_iniTree = [], cf_configurePath = []\<rparr>" Logger_new "{}",
      OF _ _ this _ _ _ _ _ test_iter_iterates]
  show ?thesis
    by (auto simp: name test_main_env_def test_ini_def printable_def GetConfigureData_def)
qed

end
