(* ===== verification/Hex_Dump.thy ===== *)
theory Hex_Dump
  imports Packet_Flow Configure
begin

text \<open>
  \<open>AsyncSessionImpl::MakeHexCode\<close> (src/lib/async_session_impl.cpp): when the configuration asks for it,
  \<open>ReadBody\<close> logs every packet as hexadecimal text before it looks at it. Here the function is put
  together with the logger and the configuration it calls, and with \<open>ReadBody\<close>, which calls it first.
\<close>

section \<open>Hexadecimal text\<close>

definition hex_digit :: "nat \<Rightarrow> u8" where
  "hex_digit d = literal ''0123456789abcdef'' ! d"

text \<open>A byte with \<open>std::hex\<close>, \<open>std::setfill('0')\<close> and \<open>std::setw(2)\<close>.\<close>

definition hex_byte :: "u8 \<Rightarrow> bytes" where
  "hex_byte b = [hex_digit (unat b div 16), hex_digit (unat b mod 16)]"

text \<open>
  One of the two loops: the bytes with index from \<open>idx\<close> below \<open>n\<close> of the buffer, and a space after each
  but the last one, which is found by comparing with the wrapping difference \<open>n - 1\<close>. \<open>k\<close> is the number of
  rounds that are left.
\<close>

fun hex_loop :: "nat \<Rightarrow> size_t \<Rightarrow> bytes \<Rightarrow> size_t \<Rightarrow> bytes result" where
  "hex_loop 0 idx buffer n = Inr []"
| "hex_loop (Suc k) idx buffer n =
     bind_result (mem_read buffer (unat idx) 1) (\<lambda>b.
     bind_result (hex_loop k (idx + 1) buffer n) (\<lambda>rest.
       Inr (hex_byte (hd b) @ (if idx < n - 1 then [32] else []) @ rest)))"

definition MakeHexCode ::
  "('t, 'f) ini_library \<Rightarrow> 't ConfigureData \<Rightarrow> 'h Header_vtbl \<Rightarrow> nat \<Rightarrow> ('h, 'u) Net \<Rightarrow> Logger \<Rightarrow> Logger result" where
  "MakeHexCode L cd V self w l =
     (let s = n_sessions w self; h = as_spHeader s;
          HEX_CODE = GetConfigureData (il_get_string L) (literal ''CONFIGURE.HEX_CODE'') (literal ''N'') cd
      in if HEX_CODE = literal ''Y'' then
           bind_result (hex_loop (unat (v_GetHeaderSize V h)) 0 (n_heap w (as_szHeaderBuffer s)) (v_GetHeaderSize V h)) (\<lambda>t1.
           bind_result (hex_loop (unat (v_GetBodySize V h)) 0 (n_heap w (as_szBodyBuffer s)) (v_GetBodySize V h)) (\<lambda>t2.
             Logger_Trace (literal ''[PACKET HEX CODE] ['' @ c_str (t1 @ literal ''|'' @ t2) @ literal '']'') l))
         else Inr l)"

text \<open>\<open>ReadBody\<close> with the two log calls it starts with: the number of bytes received, and the dump.\<close>

definition transferred_text :: "size_t \<Rightarrow> bytes" where
  "transferred_text byte_transferred =
     literal ''[AsyncSessionImpl][ReadBody]bytes_transferred = '' @ int_text (sint (ucast byte_transferred :: i32))"

definition ReadBody_dumped ::
  "('t, 'f) ini_library \<Rightarrow> 't ConfigureData \<Rightarrow> 'h Header_vtbl \<Rightarrow> nat \<Rightarrow> bool \<Rightarrow> size_t \<Rightarrow> bool \<Rightarrow> ('h, 'u) Net \<Rightarrow> Logger
     \<Rightarrow> ((bool \<times> ('h, 'u) Net) \<times> Logger) result" where
  "ReadBody_dumped L cd V self error byte_transferred close_throws w l =
     bind_result (Logger_Trace (transferred_text byte_transferred) l) (\<lambda>l1.
     bind_result (MakeHexCode L cd V self w l1) (\<lambda>l2.
       Inr (ReadBody V self error byte_transferred close_throws w, l2)))"

section \<open>The length of the dump\<close>

lemma hex_byte_nonzero: "0 \<notin> set (hex_byte b)"
proof -
  have digits: "0 \<notin> set (literal ''0123456789abcdef'')"
    by (simp add: literal_def)
  have "hex_digit d \<noteq> 0" if "d < 16" for d
  proof -
    have "d < length (literal ''0123456789abcdef'')" using that by simp
    from nth_mem[OF this] digits show ?thesis unfolding hex_digit_def by metis
  qed
  moreover have "unat b div 16 < 16"
    using unsigned_less[of b, where ?'a = nat] by (simp add: less_mult_imp_div_less)
  ultimately have "hex_digit (unat b div 16) \<noteq> 0" "hex_digit (unat b mod 16) \<noteq> 0" by simp_all
  then show ?thesis by (simp add: hex_byte_def)
qed

lemma length_hex_byte [simp]: "length (hex_byte b) = 2"
  by (simp add: hex_byte_def)

text \<open>The text the loop is to produce.\<close>

fun hex_text :: "bytes \<Rightarrow> bytes" where
  "hex_text [] = []"
| "hex_text [b] = hex_byte b"
| "hex_text (b # bs) = hex_byte b @ [32] @ hex_text bs"

lemma length_hex_text: "length (hex_text bs) = 3 * length bs - 1"
  by (induction bs rule: hex_text.induct) simp_all

lemma hex_text_nonzero: "0 \<notin> set (hex_text bs)"
  by (induction bs rule: hex_text.induct) (simp_all add: hex_byte_nonzero)

lemma hex_loop_ok:
  assumes "i + k = n" and "n \<le> length buffer" and "n < 2 ^ 63"
  shows "hex_loop k (of_nat i) buffer (of_nat n) = Inr (hex_text (take k (drop i buffer)))"
  using assms
proof (induction k arbitrary: i)
  case (Suc k)
  have u: "unat (of_nat i :: size_t) = i"
    using Suc.prems by (intro unat_of_nat_size) simp
  have rest: "hex_loop k (of_nat i + 1) buffer (of_nat n) = Inr (hex_text (take k (drop (Suc i) buffer)))"
    using Suc.IH[of "Suc i"] Suc.prems by (simp add: add.commute)
  have "of_nat n - (1 :: size_t) = of_nat (n - 1)"
    using Suc.prems by (simp add: of_nat_diff)
  moreover have "unat (of_nat (n - 1) :: size_t) = n - 1"
    using Suc.prems by (intro unat_of_nat_size) simp
  ultimately have last: "of_nat i < of_nat n - (1 :: size_t) \<longleftrightarrow> k \<noteq> 0"
    using Suc.prems u by (auto simp: word_less_nat_alt)
  have drop: "drop i buffer = buffer ! i # drop (Suc i) buffer"
    using Suc.prems by (intro Cons_nth_drop_Suc[symmetric]) simp
  have read: "mem_read buffer i (Suc 0) = Inr [buffer ! i]"
    using Suc.prems drop by (simp add: mem_read_ok)
  have "hex_text (take (Suc k) (drop i buffer))
      = hex_byte (buffer ! i) @ (if k \<noteq> 0 then [32] else []) @ hex_text (take k (drop (Suc i) buffer))"
    using Suc.prems by (cases k; cases "drop (Suc i) buffer") (simp_all add: drop)
  then show ?case
    by (simp add: u read rest last)
qed simp

section \<open>Properties\<close>

text \<open>
  C17. With the dump switched on, a packet that has been received is logged, dumped and then read as without
  the dump exactly when its body has at most 301 bytes. A longer one, which every peer can send, ends
  the server: its text does not fit the buffer of the logger.
\<close>

theorem hex_dump_limit:
  fixes w :: "(HeaderCCT, 'u) Net" and self :: nat
  defines "s \<equiv> n_sessions w self"
  defines "n \<equiv> unat (GetBodySize (as_spHeader s))"
  assumes "GetConfigureData (il_get_string L) (literal ''CONFIGURE.HEX_CODE'') (literal ''N'') cd = literal ''Y''"
    and "lg_pLogger l" and "good_header (as_spHeader s)"
    and "length (n_heap w (as_szHeaderBuffer s)) = 33" and "n \<le> length (n_heap w (as_szBodyBuffer s))"
  shows "ReadBody_dumped L cd (server_vtbl en) self error bytes_transferred t w l =
    (if n \<le> 301
     then Inr (ReadBody (server_vtbl en) self error bytes_transferred t w, l\<lparr>lg_out := lg_out l @
       [(TRACE, Narrow (transferred_text bytes_transferred)), (TRACE, Narrow (literal ''[PACKET HEX CODE] [''
         @ hex_text (n_heap w (as_szHeaderBuffer s)) @ literal ''|'' @ hex_text (take n (n_heap w (as_szBodyBuffer s))) @ literal '']''))]\<rparr>)
     else Inl Out_Of_Bounds)"
proof -
  let ?h = "n_heap w (as_szHeaderBuffer s)" and ?b = "n_heap w (as_szBodyBuffer s)"
  let ?text = "hex_text ?h @ literal ''|'' @ hex_text (take n ?b)"
  have size: "v_GetHeaderSize (server_vtbl en) (as_spHeader s) = of_nat 33"
    "v_GetBodySize (server_vtbl en) (as_spHeader s) = of_nat n"
    using assms(5) by (simp_all add: server_vtbl_def GetHeaderSize_def good_header_def sizeof_SD_HEADER_def n_def)
  have n: "n < 2 ^ 63"
    using unsigned_less[of "hc_dataLen (as_spHeader s)", where ?'a = nat] by (simp add: n_def GetBodySize_def unat_size_of_u32)
  have "hex_loop 33 0 ?h (of_nat 33) = Inr (hex_text ?h)" "hex_loop n 0 ?b (of_nat n) = Inr (hex_text (take n ?b))"
    using hex_loop_ok[of 0 33 33 ?h] hex_loop_ok[of 0 n n ?b] assms(6,7) n by simp_all
  moreover have "c_str ?text = ?text"
    by (rule c_str_id) (simp add: hex_text_nonzero literal_def)
  moreover have "unat (of_nat n :: size_t) = n"
    using n by (intro unat_of_nat_size) simp
  ultimately have dump: "MakeHexCode L cd (server_vtbl en) self w k
      = Logger_Trace (literal ''[PACKET HEX CODE] ['' @ ?text @ literal '']'') k" for k
    using assms(3) size by (simp add: MakeHexCode_def s_def[symmetric])
  have length: "length (literal ''[PACKET HEX CODE] ['' @ ?text @ literal '']'') < 1024 \<longleftrightarrow> n \<le> 301"
    using assms(6,7) by (auto simp: length_hex_text min_def)
  have "length (transferred_text bytes_transferred) < 1024"
    using length_int_text_word(2)[of "ucast bytes_transferred"] by (simp add: transferred_text_def)
  note first = log_trace.log_ok[OF assms(4) this]
  show ?thesis
  proof (cases "n \<le> 301")
    case True
    then show ?thesis
      unfolding ReadBody_dumped_def dump first using log_trace.log_ok assms(4) length by simp
  next
    case False
    then have "1024 \<le> length (literal ''[PACKET HEX CODE] ['' @ ?text @ literal '']'')"
      using length by linarith
    from log_trace.log_too_long[OF this] show ?thesis
      unfolding ReadBody_dumped_def dump first using False by simp
  qed
qed

text \<open>A session that has received a body of 400 bytes.\<close>

definition large_packet_net :: "(HeaderCCT, unit) Net" where
  "large_packet_net = upd_session 0
     (\<lambda>s. s\<lparr>as_spHeader := (HeaderCCT_new zero_ender)\<lparr>hc_dataLen := 400\<rparr>, as_szBodyBuffer := 7\<rparr>)
     (waiting_net\<lparr>n_heap := (n_heap waiting_net)(7 := replicate 416 0)\<rparr>)"

theorem hex_dump_limit_witness:
  "ReadBody_dumped (test_ini\<lparr>il_get_string := \<lambda>t k d. literal ''Y''\<rparr>) \<lparr>cf_iniTree = [], cf_configurePath = []\<rparr>
     (server_vtbl True) 0 False 416 False large_packet_net \<lparr>lg_pLogger = True, lg_out = []\<rparr> = Inl Out_Of_Bounds"
proof -
  have "good_header (as_spHeader (n_sessions large_packet_net 0))"
    using good_header_new[of zero_ender] by (simp add: large_packet_net_def upd_session_def good_header_def)
  moreover have "unat (GetBodySize (as_spHeader (n_sessions large_packet_net 0))) = 400"
    "length (n_heap large_packet_net (as_szBodyBuffer (n_sessions large_packet_net 0))) = 416"
    "length (n_heap large_packet_net (as_szHeaderBuffer (n_sessions large_packet_net 0))) = 33"
    by (simp_all add: large_packet_net_def upd_session_def GetBodySize_def waiting_net_def AsyncSessionImpl_new_def)
  ultimately show ?thesis
    by (subst hex_dump_limit) (simp_all add: GetConfigureData_def)
qed

end
