(* ===== verification/Conversation.thy ===== *)
theory Conversation
  imports Dummy_Server Sync_Client
begin

text \<open>
  A blocking client and the sample server put together. The client (\<open>SyncSession\<close>, theory
  \<open>Sync_Client\<close>) sends requests of protocol 101 and waits for each answer; the server (theories
  \<open>Async_Session\<close>, \<open>Packet_Worker\<close>, \<open>Dummy_Server\<close>) receives them in the session of the connection, a
  worker handles them, and the response is written back. Together they refine a counter: the answer
  to a request is the response with the next serial number.

  The requests are framed with the header class of the server, as a peer that speaks its protocol does. The
  header class of the repository's own client does not write its header into the buffer (theory
  \<open>Header_Client\<close>), so the sample client is not such a peer; what it does is the theory \<open>Test_Client\<close>.
\<close>

section \<open>One exchange\<close>

text \<open>
  A request of the client with what the outside decides while it is served: the value of \<open>rand()\<close> and
  the blocks of the server's pool (in the message and in the environment of the handler), what the
  client's calls of \<open>send\<close> and \<open>recv\<close> transfer at most, how many bytes of the request complete the
  server's receive of the header, and what the completion handler of the server's
  write reads through its dangling reference. \<open>rd_buffer\<close> is the buffer the client receives into.
\<close>

record round =
  rd_msg :: message
  rd_serial :: u32
  rd_env :: handler_env
  rd_sends :: "int list"
  rd_chunks :: "nat list"
  rd_cut :: nat
  rd_stale :: size_t
  rd_buffer :: bytes

text \<open>The client makes its frames with a header \<open>p\<close> of the server's class.\<close>

definition request_bytes :: "bool \<Rightarrow> HeaderCCT \<Rightarrow> round \<Rightarrow> bytes" where
  "request_bytes en p rd = (case wire_frame en p (rd_serial rd) (rd_msg rd) of (hdr, body, _) \<Rightarrow> hdr @ body)"

definition round_worker :: "bool \<Rightarrow> round \<Rightarrow> ((HeaderCCT, i32) Net) PacketWorker" where
  "round_worker en rd = PacketWorker_new (HandlerSet en (rd_env rd) HandlerManager_new)"

text \<open>
  The client sends; the bytes that have left arrive in the server's session, in two receives, the first of
  which gets \<open>rd_cut\<close> bytes; a worker makes one round; its writes complete; what they put on the wire for this
  session is what the client then receives. The answer is the client's buffer after a successful
  \<open>Recv\<close>; there is none when the worker found no packet.
\<close>

definition exchange ::
  "bool \<Rightarrow> HeaderCCT \<Rightarrow> nat \<Rightarrow> round \<Rightarrow> HeaderCCT SyncSession \<Rightarrow> (HeaderCCT, i32) Net
     \<Rightarrow> (bytes option \<times> HeaderCCT SyncSession \<times> (HeaderCCT, i32) Net) result" where
  "exchange en p self rd s w =
     (let request = request_bytes en p rd;
          s0 = s\<lparr>ss_sock := (ss_sock s)\<lparr>so_sends := rd_sends rd\<rparr>\<rparr>
      in bind_result (SyncSession_Send request (of_nat (length request)) s0) (\<lambda>(sent, s1).
         let arrived = drop (length (so_out (ss_sock s))) (so_out (ss_sock s1))
         in bind_result (recv_frame (server_vtbl en) self
              (take (rd_cut rd) arrived, drop (rd_cut rd) arrived, msg_buf (rd_msg rd), msg_junk (rd_msg rd)) w) (\<lambda>w1.
         case PacketWorker_Processing (round_worker en rd) w1 of
           None \<Rightarrow> Inr (None, s1, w1)
         | Some r \<Rightarrow> bind_result r (\<lambda>w2.
             let w3 = fold (\<lambda>pw. send_completed pw (rd_stale rd) False False) (n_writes w2) w2;
                 answer = concat (map snd (filter (\<lambda>(i, _). i = self) (drop (length (n_wire w)) (n_wire w3))));
                 s2 = s1\<lparr>ss_sock := (ss_sock s1)\<lparr>so_in := so_in (ss_sock s1) @ answer, so_chunks := rd_chunks rd\<rparr>\<rparr>
             in bind_result (SyncSession_Recv (client_vtbl en) (rd_buffer rd) (of_nat (length (rd_buffer rd))) s2)
                  (\<lambda>(ok, buffer, s3). Inr (if ok then Some buffer else None, s3, w3))))))"

fun converse ::
  "bool \<Rightarrow> HeaderCCT \<Rightarrow> nat \<Rightarrow> round list \<Rightarrow> HeaderCCT SyncSession \<Rightarrow> (HeaderCCT, i32) Net
     \<Rightarrow> (bytes option list \<times> HeaderCCT SyncSession \<times> (HeaderCCT, i32) Net) result" where
  "converse en p self [] s w = Inr ([], s, w)"
| "converse en p self (rd # rds) s w =
     bind_result (exchange en p self rd s w) (\<lambda>(answer, s', w').
     bind_result (converse en p self rds s' w') (\<lambda>(answers, s'', w''). Inr (answer # answers, s'', w'')))"

section \<open>The abstract service\<close>

text \<open>Its state is a counter; each request is answered with the response of the next number.\<close>

fun counter_service :: "bool \<Rightarrow> i32 \<Rightarrow> round list \<Rightarrow> bytes option list" where
  "counter_service en c [] = []"
| "counter_service en c (rd # rds) =
     Some (response_bytes en (rd_env rd) (c + 1) @ drop 54 (rd_buffer rd)) # counter_service en (c + 1) rds"

section \<open>Conditions\<close>

text \<open>
  What a round must satisfy for a server with the header buffers \<open>hbs\<close> and the configured limit: it is
  a request of protocol 101 that fits, the pools hand out blocks that are no header buffers, five
  calls of \<open>send\<close> take the request and none of them fails, the server's first receive gets the header and
  the second one the rest (with other cuts the session is closed), the first piece the client receives
  holds the header (otherwise it receives nothing), and its buffer has room for the response.
\<close>

definition round_ok :: "bool \<Rightarrow> HeaderCCT \<Rightarrow> size_t \<Rightarrow> addr set \<Rightarrow> round \<Rightarrow> bool" where
  "round_ok en p limit hbs rd \<longleftrightarrow>
     msg_no (rd_msg rd) = 101 \<and> fits limit (rd_msg rd) \<and> length (msg_body (rd_msg rd)) + 49 < 2 ^ 31
     \<and> msg_buf (rd_msg rd) \<notin> hbs \<and> msg_buf (rd_msg rd) \<noteq> NULL
     \<and> he_block (rd_env rd) \<notin> hbs \<and> he_block (rd_env rd) \<noteq> NULL \<and> wf_ender (he_ender (rd_env rd))
     \<and> 5 \<le> length (rd_sends rd) \<and> (\<forall>c \<in> set (rd_sends rd). 0 \<le> c)
     \<and> length (request_bytes en p rd) \<le> sum_list (map nat (take 5 (rd_sends rd)))
     \<and> rd_cut rd = 33 \<and> (\<forall>c \<in> set (rd_chunks rd). 0 < c) \<and> (rd_chunks rd \<noteq> [] \<longrightarrow> 33 \<le> hd (rd_chunks rd))
     \<and> 54 \<le> length (rd_buffer rd)"

text \<open>Between two exchanges nothing is under way.\<close>

definition quiet :: "bool \<Rightarrow> nat \<Rightarrow> HeaderCCT SyncSession \<Rightarrow> (HeaderCCT, i32) Net \<Rightarrow> bool" where
  "quiet en self s w \<longleftrightarrow> IsConnection s \<and> good_header (ss_pHeader s) \<and> so_in (ss_sock s) = []
     \<and> session_ready self w \<and> header_coroutine (server_vtbl en) self w \<in> set (n_coroutines w)
     \<and> n_packetQueue w = [] \<and> n_writes w = []"

section \<open>The server's side\<close>

text \<open>The receives of a frame are two steps of the server.\<close>

lemma recv_frame_reachable:
  assumes "good_header s" "wf_ender (hc_ender s)" "session_ready self w"
    and "fits (as_sizeOfMaxBuffer (n_sessions w self)) m"
    and "header_coroutine (server_vtbl en) self w \<in> set (n_coroutines w)"
    and "msg_buf m \<notin> header_buffers w" "msg_buf m \<noteq> NULL"
    and "recv_frame (server_vtbl en) self (wire_frame en s packet_count m) w = Inr w'"
  shows "server_reachable (server_vtbl en) W w w'"
proof -
  obtain hdr body where frame: "wire_frame en s packet_count m = (hdr, body, msg_buf m, msg_junk m)"
    by (simp add: wire_frame_def Let_def)
  from wire_frame_rest_expected[OF assms(1-4) this] obtain w1 where
    w1: "recv_header (server_vtbl en) (header_coroutine (server_vtbl en) self w) False hdr (msg_buf m) (msg_junk m) False w
      = Inr w1" "body_coroutine self w1 \<in> set (n_coroutines w1)" "length body = unat (co_size (body_coroutine self w1))"
      "length hdr = 33"
    by blast
  have "server_step (server_vtbl en) W w w1"
    using step_header[OF assms(5) _ _ assms(6,7) w1(1)] w1(4) assms(3)
    by (simp add: header_coroutine_def session_ready_def good_header_def server_vtbl_def GetHeaderSize_def sizeof_SD_HEADER_def)
  moreover have "server_step (server_vtbl en) W w1 w'"
    using step_body[OF w1(2), of body "server_vtbl en" W False False] w1(1,3) assms(8)
    by (simp add: frame recv_frame_def body_coroutine_def)
  ultimately show ?thesis
    by (blast intro: reach_start reach_step)
qed

text \<open>
  The rest of a round, from a state in which exactly one request waits: a worker handles it, the write
  completes, and the server is quiet again.
\<close>

definition request_waits :: "nat \<Rightarrow> message \<Rightarrow> (HeaderCCT, i32) Net \<Rightarrow> bool" where
  "request_waits self m w \<longleftrightarrow> session_ready self w \<and> n_packetQueue w = [packet_of self m] \<and> n_writes w = []
     \<and> take (length (msg_body m)) (n_heap w (msg_buf m)) = msg_body m"

lemma request_arrives:
  assumes p: "good_header p" "wf_ender (hc_ender p)" and quiet: "quiet en self s w"
    and m: "fits (as_sizeOfMaxBuffer (n_sessions w self)) m" "msg_buf m \<notin> header_buffers w" "msg_buf m \<noteq> NULL"
  obtains w' where "recv_frame (server_vtbl en) self (wire_frame en p k m) w = Inr w'" and "request_waits self m w'"
    and "as_sizeOfMaxBuffer (n_sessions w' self) = as_sizeOfMaxBuffer (n_sessions w self)"
    and "header_buffers w' = header_buffers w" and "set (n_coroutines w') = set (n_coroutines w)"
    and "header_coroutine (server_vtbl en) self w' = header_coroutine (server_vtbl en) self w"
    and "n_wire w' = n_wire w" and "n_user w' = n_user w" and "server_reachable (server_vtbl en) W w w'"
proof -
  have ready: "session_ready self w" and wait: "header_coroutine (server_vtbl en) self w \<in> set (n_coroutines w)"
    and idle: "n_packetQueue w = []" "n_writes w = []"
    using quiet by (simp_all add: quiet_def)
  have apart: "msg_buf m \<noteq> as_szHeaderBuffer (n_sessions w self)"
    using m(2) by (auto simp: header_buffers_def)
  obtain w' where
    w': "recv_frame (server_vtbl en) self (wire_frame en p k m) w = Inr w'" "session_ready self w'"
      "as_sizeOfMaxBuffer (n_sessions w' self) = as_sizeOfMaxBuffer (n_sessions w self)"
      "n_packetQueue w' = n_packetQueue w @ [packet_of self m]" "take (length (msg_body m)) (n_heap w' (msg_buf m)) = msg_body m"
      "header_coroutine (server_vtbl en) self w \<in> set (n_coroutines w) \<longrightarrow> mset (n_coroutines w') = mset (n_coroutines w)"
      "\<forall>j. as_szHeaderBuffer (n_sessions w' j) = as_szHeaderBuffer (n_sessions w j)"
      "n_writes w' = n_writes w" "n_wire w' = n_wire w" "n_user w' = n_user w"
    by (rule recv_wire_frame[OF p ready m(1) apart]) (rule that, assumption+)
  show thesis
  proof (rule that[OF w'(1)])
    show "request_waits self m w'"
      using w' idle by (simp add: request_waits_def)
    show "header_buffers w' = header_buffers w"
      using w'(7) by (simp add: header_buffers_def)
    show "set (n_coroutines w') = set (n_coroutines w)"
      using w'(6) wait by (metis set_mset_mset)
    show "header_coroutine (server_vtbl en) self w' = header_coroutine (server_vtbl en) self w"
      using ready w'(2,7)
      by (simp add: header_coroutine_def session_ready_def good_header_def server_vtbl_def GetHeaderSize_def)
    show "server_reachable (server_vtbl en) W w w'"
      by (rule recv_frame_reachable[OF p ready m(1) wait m(2,3) w'(1)])
  qed (use w' in simp_all)
qed

lemma request_served:
  assumes waits: "request_waits self (rd_msg rd) w" and no: "msg_no (rd_msg rd) = 101" "fits limit (rd_msg rd)"
    and env: "he_block (rd_env rd) \<notin> header_buffers w" "he_block (rd_env rd) \<noteq> NULL" "wf_ender (he_ender (rd_env rd))"
    and W: "round_worker en rd \<in> W"
  obtains w2 w3 where "PacketWorker_Processing (round_worker en rd) w = Some (Inr w2)"
    and "fold (\<lambda>pw. send_completed pw (rd_stale rd) False False) (n_writes w2) w2 = w3"
    and "n_wire w3 = n_wire w @ [(self, response_bytes en (rd_env rd) (n_user w + 1))]"
    and "n_user w3 = n_user w + 1" and "n_sessions w3 = n_sessions w" and "n_coroutines w3 = n_coroutines w"
    and "session_ready self w3" and "n_packetQueue w3 = []" and "n_writes w3 = []"
    and "server_reachable (server_vtbl en) W w w3"
proof -
  let ?m = "rd_msg rd" and ?env = "rd_env rd" and ?w = "w\<lparr>n_packetQueue := []\<rparr>"
  let ?pw = "\<lparr>pw_session = self, pw_data = he_block ?env, pw_length = 54\<rparr>"
  have ready: "session_ready self w" and queue: "n_packetQueue w = [packet_of self ?m]" "n_writes w = []"
    and body: "take (length (msg_body ?m)) (n_heap w (msg_buf ?m)) = msg_body ?m"
    using waits by (simp_all add: request_waits_def)
  have "length (msg_body ?m) \<le> length (n_heap w (msg_buf ?m))"
    using arg_cong[OF body, of length] by simp
  then have "unat (pi_sizeOfBuffer (packet_of self ?m)) \<le> length (n_heap ?w (pi_pBuffer (packet_of self ?m)))"
    "pi_protocolNo (packet_of self ?m) = 101"
    using no by (simp_all add: packet_of_def fits_def unat_of_nat_size)
  from request_processed[OF this env(2,3), of en] obtain w2 where
    w2: "PacketWorker_Processing_packet (round_worker en rd) (packet_of self ?m) ?w = Inr w2" "n_user w2 = n_user w + 1"
      "n_writes w2 = [?pw]" "n_heap w2 = (n_heap w)(he_block ?env := response_bytes en ?env (n_user w + 1))"
      "n_sessions w2 = n_sessions w" "n_coroutines w2 = n_coroutines w" "n_wire w2 = n_wire w" "n_packetQueue w2 = []"
    using queue(2) by (auto simp: round_worker_def packet_of_def)
  have worker: "PacketWorker_Processing (round_worker en rd) w = Some (Inr w2)"
    using w2(1) queue(1) by (simp add: PacketWorker_Processing_def GetPacketInfo_def)
  define w3 where "w3 = send_completed ?pw (rd_stale rd) False False w2"
  have w3: "n_writes w3 = []" "n_sessions w3 = n_sessions w" "n_heap w3 = n_heap w2" "n_coroutines w3 = n_coroutines w"
    "n_packetQueue w3 = []" "n_user w3 = n_user w + 1"
    using w2 by (simp_all add: w3_def send_completed_def pool_delete_def log_event_def Let_def split_beta)
  have "he_block ?env \<noteq> as_szHeaderBuffer (n_sessions w self)"
    using env(1) by (auto simp: header_buffers_def)
  then have ready3: "session_ready self w3"
    using ready w2(4) w3 by (simp add: session_ready_def)
  have "server_step (server_vtbl en) W w w2"
    using HandlerSet_well_behaved[OF env(1), of en]
    by (intro step_worker[OF W _ worker]) (simp add: round_worker_def PacketWorker_new_def SetHandlerManager_def)
  moreover have "server_step (server_vtbl en) W w2 w3"
    unfolding w3_def by (rule step_sent) (simp add: w2(3))
  ultimately have "server_reachable (server_vtbl en) W w w3"
    by (blast intro: reach_start reach_step)
  moreover have "n_wire w3 = n_wire w @ [(self, response_bytes en ?env (n_user w + 1))]"
    unfolding w3_def using response_sent[OF env(3), of w2 en "n_user w + 1"] w2(4,7) by simp
  moreover have "fold (\<lambda>pw. send_completed pw (rd_stale rd) False False) (n_writes w2) w2 = w3"
    by (simp add: w2(3) w3_def)
  ultimately show thesis
    using that[OF worker] w3 ready3 by blast
qed

section \<open>The client's side\<close>

lemma request_frame:
  assumes "good_header p" and "wf_ender (hc_ender p)"
  shows "wire_frame en p (rd_serial rd) (rd_msg rd)
      = (take 33 (request_bytes en p rd), drop 33 (request_bytes en p rd), msg_buf (rd_msg rd), msg_junk (rd_msg rd))"
    and "length (request_bytes en p rd) = length (msg_body (rd_msg rd)) + 49"
  using good_header_MakeHeader[OF assms(1)] wire_frame_bytes[OF assms]
  by (simp_all add: request_bytes_def wire_frame_def Let_def length_header_bytes good_header_def)

lemma client_sends:
  assumes p: "good_header p" "wf_ender (hc_ender p)" and s: "IsConnection s" and ok: "round_ok en p limit hbs rd"
  obtains s1 where "SyncSession_Send (request_bytes en p rd) (of_nat (length (request_bytes en p rd)))
      (s\<lparr>ss_sock := (ss_sock s)\<lparr>so_sends := rd_sends rd\<rparr>\<rparr>) = Inr (True, s1)"
    and "so_out (ss_sock s1) = so_out (ss_sock s) @ request_bytes en p rd" and "so_in (ss_sock s1) = so_in (ss_sock s)"
    and "IsConnection s1" and "ss_pHeader s1 = ss_pHeader s"
proof -
  let ?n = "length (request_bytes en p rd)" and ?s = "s\<lparr>ss_sock := (ss_sock s)\<lparr>so_sends := rd_sends rd\<rparr>\<rparr>"
  have n: "0 < ?n" "?n < 2 ^ 31" "?n \<le> sum_list (map nat (take 5 (rd_sends rd)))"
    using ok request_frame(2)[OF p, of en rd] by (simp_all add: round_ok_def)
  have sends: "5 \<le> length (so_sends (ss_sock ?s))"
    using ok by (simp add: round_ok_def)
  have "takeWhile (\<lambda>c. 0 \<le> c) (take 5 (rd_sends rd)) = take 5 (rd_sends rd)"
    using ok by (auto simp: round_ok_def takeWhile_eq_all_conv dest: in_set_takeD)
  then have taken: "taken 5 (rd_sends rd) = sum_list (map nat (take 5 (rd_sends rd)))"
    by (simp only: taken_def)
  show thesis
    by (rule Send_progress[where s = ?s, OF _ n(1) order.refl n(2) sends])
      (use s n(3) that in \<open>auto simp: IsConnection_def min_def taken\<close>)
qed

lemma client_receives:
  assumes s: "IsConnection s" "good_header (ss_pHeader s)" and ok: "round_ok en p limit hbs rd"
    and stream: "so_in (ss_sock s) = response_bytes en (rd_env rd) k" "so_chunks (ss_sock s) = rd_chunks rd"
  obtains s' where "SyncSession_Recv (client_vtbl en) (rd_buffer rd) (of_nat (length (rd_buffer rd))) s
      = Inr (True, response_bytes en (rd_env rd) k @ drop 54 (rd_buffer rd), s')"
    and "IsConnection s'" and "good_header (ss_pHeader s')" and "so_in (ss_sock s') = []"
    and "so_out (ss_sock s') = so_out (ss_sock s)" and "GetProtocolNo (ss_pHeader s') = 1010"
proof -
  let ?env = "rd_env rd" and ?m = "response_message (rd_env rd)" and ?p = "HeaderCCT_new (he_ender (rd_env rd))"
  have p: "good_header ?p" "wf_ender (hc_ender ?p)"
    by (rule good_header_new) (use ok in \<open>simp add: HeaderCCT_new_def round_ok_def\<close>)
  obtain hdr body x where frame: "wire_frame en ?p k ?m = (hdr, body, x)" and bytes: "response_bytes en ?env k = hdr @ body"
    by (cases "wire_frame en ?p k ?m") (simp add: response_bytes_def)
  have m: "length (msg_body ?m) = 5" "msg_no ?m = 1010"
    by (simp_all add: response_message_def)
  have "so_in (ss_sock s) = hdr @ body @ []" "\<forall>c \<in> set (so_chunks (ss_sock s)). 0 < c"
    "so_chunks (ss_sock s) \<noteq> [] \<longrightarrow> 33 \<le> hd (so_chunks (ss_sock s))" "length (msg_body ?m) + 49 \<le> length (rd_buffer rd)"
    "length (msg_body ?m) + 49 < 2 ^ 31"
    using ok stream m(1) by (simp_all add: bytes round_ok_def)
  from Recv_made_frame[OF p frame s(2,1) this, of "of_nat (length (rd_buffer rd))"] show thesis
    using that m by (auto simp: bytes)
qed

section \<open>Both sides\<close>

lemma exchange_ok:
  assumes p: "good_header p" "wf_ender (hc_ender p)" and quiet: "quiet en self s w"
    and ok: "round_ok en p (as_sizeOfMaxBuffer (n_sessions w self)) (header_buffers w) rd" and W: "round_worker en rd \<in> W"
  obtains s' w' where
    "exchange en p self rd s w = Inr (Some (response_bytes en (rd_env rd) (n_user w + 1) @ drop 54 (rd_buffer rd)), s', w')"
    and "n_user w' = n_user w + 1" and "quiet en self s' w'"
    and "as_sizeOfMaxBuffer (n_sessions w' self) = as_sizeOfMaxBuffer (n_sessions w self)"
    and "header_buffers w' = header_buffers w" and "server_reachable (server_vtbl en) W w w'"
proof -
  let ?rd = "request_bytes en p rd" and ?r = "response_bytes en (rd_env rd) (n_user w + 1)"
  obtain s1 where s1: "SyncSession_Send ?rd (of_nat (length ?rd))
      (s\<lparr>ss_sock := (ss_sock s)\<lparr>so_sends := rd_sends rd\<rparr>\<rparr>) = Inr (True, s1)"
    "so_out (ss_sock s1) = so_out (ss_sock s) @ ?rd" "so_in (ss_sock s1) = so_in (ss_sock s)" "IsConnection s1"
    "ss_pHeader s1 = ss_pHeader s"
    by (rule client_sends[OF p _ ok, of s]) (use quiet in \<open>auto simp: quiet_def\<close>)
  obtain w1 where w1: "recv_frame (server_vtbl en) self (wire_frame en p (rd_serial rd) (rd_msg rd)) w = Inr w1"
    "request_waits self (rd_msg rd) w1" "as_sizeOfMaxBuffer (n_sessions w1 self) = as_sizeOfMaxBuffer (n_sessions w self)"
    "header_buffers w1 = header_buffers w" "set (n_coroutines w1) = set (n_coroutines w)"
    "header_coroutine (server_vtbl en) self w1 = header_coroutine (server_vtbl en) self w" "n_wire w1 = n_wire w"
    "n_user w1 = n_user w" "server_reachable (server_vtbl en) W w w1"
    by (rule request_arrives[OF p quiet, of "rd_msg rd" "rd_serial rd" W]) (use ok in \<open>auto simp: round_ok_def\<close>)
  obtain w2 w3 where w3: "PacketWorker_Processing (round_worker en rd) w1 = Some (Inr w2)"
    "fold (\<lambda>pw. send_completed pw (rd_stale rd) False False) (n_writes w2) w2 = w3"
    "n_wire w3 = n_wire w1 @ [(self, response_bytes en (rd_env rd) (n_user w1 + 1))]" "n_user w3 = n_user w1 + 1"
    "n_sessions w3 = n_sessions w1" "n_coroutines w3 = n_coroutines w1" "session_ready self w3" "n_packetQueue w3 = []"
    "n_writes w3 = []" "server_reachable (server_vtbl en) W w1 w3"
    by (rule request_served[OF w1(2) _ _ _ _ _ W]) (use ok w1(4) in \<open>auto simp: round_ok_def\<close>)
  let ?s2 = "s1\<lparr>ss_sock := (ss_sock s1)\<lparr>so_in := so_in (ss_sock s1) @ ?r, so_chunks := rd_chunks rd\<rparr>\<rparr>"
  obtain s' where s': "SyncSession_Recv (client_vtbl en) (rd_buffer rd) (of_nat (length (rd_buffer rd))) ?s2
      = Inr (True, ?r @ drop 54 (rd_buffer rd), s')" "IsConnection s'" "good_header (ss_pHeader s')" "so_in (ss_sock s') = []"
    by (rule client_receives[OF _ _ ok, of ?s2 "n_user w + 1"]) (use quiet s1 in \<open>auto simp: quiet_def IsConnection_def\<close>)
  have "exchange en p self rd s w = Inr (Some (?r @ drop 54 (rd_buffer rd)), s', w3)"
    using s1(1,2) w1(1,7,8) w3(1-3) s'(1) ok by (simp add: exchange_def request_frame(1)[OF p] round_ok_def)
  moreover have "header_coroutine (server_vtbl en) self w3 = header_coroutine (server_vtbl en) self w1"
    by (simp add: header_coroutine_def w3(5))
  then have "quiet en self s' w3"
    using quiet s'(2-4) w1 w3 by (simp add: quiet_def)
  moreover have "header_buffers w3 = header_buffers w"
    using w1(4) w3(5) by (simp add: header_buffers_def)
  ultimately show thesis
    using that w3(4,5) w1(3,8) server_reachable_trans[OF w1(9) w3(10)] by simp
qed

section \<open>Properties\<close>

text \<open>
  C1. A client and the sample server refine the abstract counter. The client makes requests of protocol
  101 one after the other, framed with the server's header class and small enough for its buffers. As long
  as each request leaves the client within five calls of \<open>send\<close>, reaches the server as header and rest, and
  its answer reaches the client with the header in the first piece, whatever else the calls transfer and
  whichever blocks (other than header buffers) the pools hand out: each \<open>Recv\<close> of the client returns the
  response with the next number; nothing faults; the server goes only through states of its transition
  system; and both sides are ready for the next request.
\<close>

theorem client_and_server_refine_counter:
  assumes "good_header p" and "wf_ender (hc_ender p)" and "quiet en self s w"
    and "\<forall>rd \<in> set rds. round_ok en p (as_sizeOfMaxBuffer (n_sessions w self)) (header_buffers w) rd"
  shows "\<exists>s' w'. converse en p self rds s w = Inr (counter_service en (n_user w) rds, s', w')
    \<and> n_user w' = n_user w + of_nat (length rds) \<and> quiet en self s' w'
    \<and> server_reachable (server_vtbl en) (round_worker en ` set rds) w w'"
proof -
  have "\<exists>s' w'. converse en p self rds s w = Inr (counter_service en (n_user w) rds, s', w')
    \<and> n_user w' = n_user w + of_nat (length rds) \<and> quiet en self s' w'
    \<and> server_reachable (server_vtbl en) W w w'" if "round_worker en ` set rds \<subseteq> W" for W
    using assms(3,4) that
  proof (induction rds arbitrary: s w)
    case Nil
    then show ?case by (auto intro: reach_start)
  next
    case (Cons rd rds)
    obtain s1 w1 where 1: "exchange en p self rd s w
        = Inr (Some (response_bytes en (rd_env rd) (n_user w + 1) @ drop 54 (rd_buffer rd)), s1, w1)"
      "n_user w1 = n_user w + 1" "quiet en self s1 w1"
      "as_sizeOfMaxBuffer (n_sessions w1 self) = as_sizeOfMaxBuffer (n_sessions w self)"
      "header_buffers w1 = header_buffers w" "server_reachable (server_vtbl en) W w w1"
      by (rule exchange_ok[OF assms(1,2) Cons.prems(1), of rd W]) (use Cons.prems in auto)
    obtain s' w' where 2: "converse en p self rds s1 w1 = Inr (counter_service en (n_user w1) rds, s', w')"
      "n_user w' = n_user w1 + of_nat (length rds)" "quiet en self s' w'" "server_reachable (server_vtbl en) W w1 w'"
      using Cons.IH[OF 1(3)] Cons.prems(2,3) 1(4,5) by auto
    have "converse en p self (rd # rds) s w = Inr (counter_service en (n_user w) (rd # rds), s', w')"
      using 1(1,2) 2(1) by simp
    then show ?case
      using 1(2) 2(2,3) server_reachable_trans[OF 1(6) 2(4)] by (auto simp: add.assoc)
  qed
  then show ?thesis by blast
qed

text \<open>A session that has been accepted, a connected client, and a request.\<close>

definition accepted_net :: "(HeaderCCT, i32) Net" where
  "accepted_net =
     \<lparr>n_sessions = (\<lambda>_. (AsyncSessionImpl_new (HeaderCCT_new zero_ender) 32768 0)
        \<lparr>as_szHeaderBuffer := 1, as_nSessionPoolState := kAcquire, as_open := True\<rparr>),
      n_pool = Pool_new 4, n_heap = (\<lambda>_. replicate 33 0),
      n_coroutines = [\<lparr>co_session = 0, co_phase = Await_Header, co_buffer = 1, co_size = 33\<rparr>],
      n_packetQueue = [], n_writes = [], n_wire = [], n_log = [], n_accepting = None, n_user = 6\<rparr>"

definition sample_round :: "nat list \<Rightarrow> round" where
  "sample_round chunks =
     \<lparr>rd_msg = \<lparr>msg_no = 101, msg_body = [5, 0, 0, 0], msg_rand = 3, msg_buf = 2, msg_junk = []\<rparr>, rd_serial = 1,
      rd_env = sample_env, rd_sends = [20, 20, 0, 13, 7], rd_chunks = chunks, rd_cut = 33, rd_stale = 99, rd_buffer = replicate 60 0\<rparr>"

lemma accepted_net_quiet: "quiet en 0 (connected closed_sock) accepted_net" "header_buffers accepted_net = {1}"
  "as_sizeOfMaxBuffer (n_sessions accepted_net 0) = 32768" "n_user accepted_net = 6"
proof -
  have "good_header (as_spHeader (n_sessions accepted_net 0))"
    by (simp add: accepted_net_def AsyncSessionImpl_new_def good_header_new)
  then show "quiet en 0 (connected closed_sock) accepted_net"
    by (simp add: quiet_def connected_simps IsConnection_def session_ready_def)
      (simp add: accepted_net_def closed_sock_def AsyncSessionImpl_new_def header_coroutine_def server_vtbl_def
        GetHeaderSize_def HeaderCCT_new_def sizeof_SD_HEADER_def)
qed (simp_all add: accepted_net_def header_buffers_def AsyncSessionImpl_new_def)

lemma sample_round_ok:
  assumes "\<forall>c \<in> set chunks. 0 < c" and "chunks \<noteq> [] \<longrightarrow> 33 \<le> hd chunks"
  shows "round_ok en (HeaderCCT_new zero_ender) 32768 {1} (sample_round chunks)"
proof -
  have "length (request_bytes en (HeaderCCT_new zero_ender) (sample_round chunks)) = 53"
    using request_frame(2)[OF good_header_new wf_zero_ender, of en "sample_round chunks"] by (simp add: sample_round_def)
  then show ?thesis
    using assms sample_env_ok by (auto simp: round_ok_def sample_round_def fits_def)
qed

theorem client_and_server_refine_counter_witness:
  "\<exists>s' w'. converse True (HeaderCCT_new zero_ender) 0 [sample_round [40, 9], sample_round []] (connected closed_sock) accepted_net
     = Inr ([Some (response_bytes True sample_env 7 @ replicate 6 0), Some (response_bytes True sample_env 8 @ replicate 6 0)], s', w')
     \<and> n_user w' = 8"
proof -
  have "\<forall>rd \<in> set [sample_round [40, 9], sample_round []]. round_ok True (HeaderCCT_new zero_ender)
      (as_sizeOfMaxBuffer (n_sessions accepted_net 0)) (header_buffers accepted_net) rd"
    unfolding accepted_net_quiet by (simp add: sample_round_ok)
  from client_and_server_refine_counter[OF good_header_new wf_zero_ender accepted_net_quiet(1) this] show ?thesis
    unfolding accepted_net_quiet(4) by (auto simp: sample_round_def)
qed

end
