(* ===== verification/Buffer_Ownership.thy ===== *)
theory Buffer_Ownership
  imports Dummy_Server
begin

text \<open>
  Who owns the blocks of \<open>COMMON_POOL\<close> while the server runs (src/lib/async_session_impl.cpp,
  packet_worker.cpp, skeleton_server.cpp). A body buffer passes from the session that receives into it to the
  packet queue and to the worker; a response passes from the handler to the write; a header buffer stays with
  its session. Each block has one owner and is released once as long as no body receive fails and no write
  fails while its session receives; \<open>Session_Reuse\<close> shows what happens otherwise.
\<close>

section \<open>Live blocks\<close>

text \<open>
  The ledger of \<open>Common_Pool\<close> without the pools the blocks come from: which addresses are live. \<open>None\<close>: a
  block was released that is not live, or handed out although it is.
\<close>

fun live_step :: "addr set \<Rightarrow> pool_event \<Rightarrow> addr set option" where
  "live_step L (Allocated c a) = (if a = NULL then Some L else if a \<in> L then None else Some (insert a L))"
| "live_step L (Released c) =
     (case freed_addr c of None \<Rightarrow> Some L | Some a \<Rightarrow> if a \<in> L then Some (L - {a}) else None)"

fun live_run :: "addr set \<Rightarrow> pool_event list \<Rightarrow> addr set option" where
  "live_run L [] = Some L"
| "live_run L (e # es) = Option.bind (live_step L e) (\<lambda>L'. live_run L' es)"

lemma live_run_append: "live_run L (es @ fs) = Option.bind (live_run L es) (\<lambda>L'. live_run L' fs)"
  by (induction es arbitrary: L) (auto split: bind_splits)

lemma ledger_step_live: "ledger_step l e = Some l' \<Longrightarrow> live_step (dom l) e = Some (dom l')"
  by (cases e) (auto split: if_splits option.splits)

text \<open>A log that the pools accept is one in which every block is released once.\<close>

lemma ledger_run_live: "ledger_run l es = Some l' \<Longrightarrow> live_run (dom l) es = Some (dom l')"
proof (induction es arbitrary: l)
  case (Cons e es)
  then obtain l1 where "ledger_step l e = Some l1" "ledger_run l1 es = Some l'"
    by (auto simp: bind_eq_Some_conv simp del: ledger_step.simps)
  then show ?case
    using Cons.IH ledger_step_live by (simp del: ledger_step.simps live_step.simps)
qed simp

definition live :: "('h, 'u) Net \<Rightarrow> addr set" where
  "live w = (case live_run {} (n_log w) of None \<Rightarrow> {} | Some L \<Rightarrow> L)"

text \<open>What the pools promise: a block they hand out is not live.\<close>

definition fresh :: "addr \<Rightarrow> ('h, 'u) Net \<Rightarrow> bool" where
  "fresh buf w \<longleftrightarrow> buf \<noteq> NULL \<and> buf \<notin> live w"

section \<open>Accounts\<close>

text \<open>
  A log, the blocks that will be released (each by one owner), and the blocks that are kept for ever. With
  \<open>E\<close>, further blocks may be live that nobody owns.
\<close>

definition account :: "bool \<Rightarrow> pool_event list \<Rightarrow> addr multiset \<Rightarrow> addr set \<Rightarrow> bool" where
  "account E log hs bs \<longleftrightarrow> (\<exists>L. live_run {} log = Some L \<and> (\<forall>a. count hs a \<le> 1) \<and> set_mset hs \<inter> bs = {}
     \<and> set_mset hs \<union> bs \<subseteq> L \<and> (\<not> E \<longrightarrow> L \<subseteq> set_mset hs \<union> bs))"

lemma accountI:
  "live_run {} log = Some L \<Longrightarrow> (\<And>a. count hs a \<le> 1) \<Longrightarrow> set_mset hs \<inter> bs = {} \<Longrightarrow> set_mset hs \<union> bs \<subseteq> L \<Longrightarrow>
     (\<not> E \<Longrightarrow> L \<subseteq> set_mset hs \<union> bs) \<Longrightarrow> account E log hs bs"
  by (auto simp: account_def)

lemma accountE:
  assumes "account E log hs bs"
  obtains L where "live_run {} log = Some L" and "\<And>a. count hs a \<le> 1" and "set_mset hs \<inter> bs = {}"
    and "set_mset hs \<union> bs \<subseteq> L" and "\<not> E \<Longrightarrow> L \<subseteq> set_mset hs \<union> bs"
  using assms unfolding account_def by blast

text \<open>A new block goes to an owner, or is kept.\<close>

lemma account_alloc:
  assumes "account E log hs bs" and "a \<noteq> NULL" and "\<And>L. live_run {} log = Some L \<Longrightarrow> a \<notin> L"
  shows "account E (log @ [Allocated k a]) (add_mset a hs) bs" and "account E (log @ [Allocated k a]) hs (insert a bs)"
proof -
  from assms(1) obtain L where L: "live_run {} log = Some L" "\<And>a. count hs a \<le> 1" "set_mset hs \<inter> bs = {}"
    "set_mset hs \<union> bs \<subseteq> L" "\<not> E \<Longrightarrow> L \<subseteq> set_mset hs \<union> bs"
    by (rule accountE) metis
  have a: "a \<notin># hs" "a \<notin> bs"
    using assms(3)[OF L(1)] L(4) by auto
  have run: "live_run {} (log @ [Allocated k a]) = Some (insert a L)"
    using L(1) assms(2) assms(3)[OF L(1)] by (simp add: live_run_append)
  have "count (add_mset a hs) b \<le> 1" for b
    using L(2)[of b] a(1) by (auto simp: not_in_iff)
  then show "account E (log @ [Allocated k a]) (add_mset a hs) bs"
    by (rule accountI[OF run]) (use L a in auto)
  show "account E (log @ [Allocated k a]) hs (insert a bs)"
    by (rule accountI[OF run]) (use L a in auto)
qed

text \<open>The owner of a block releases it, or forgets it.\<close>

lemma account_remove:
  assumes "account E log (add_mset a hs) bs"
  shows "freed_addr c = Some a \<Longrightarrow> account E (log @ [Released c]) hs bs" and "E \<Longrightarrow> account E log hs bs"
proof -
  from assms obtain L where L: "live_run {} log = Some L" "\<And>b. count (add_mset a hs) b \<le> 1"
    "set_mset (add_mset a hs) \<inter> bs = {}" "set_mset (add_mset a hs) \<union> bs \<subseteq> L"
    "\<not> E \<Longrightarrow> L \<subseteq> set_mset (add_mset a hs) \<union> bs"
    by (rule accountE) metis
  have a: "a \<notin># hs"
    using L(2)[of a] by (simp add: not_in_iff)
  have count: "count hs b \<le> 1" for b
    using L(2)[of b] by (cases "a = b") simp_all
  show "account E (log @ [Released c]) hs bs" if "freed_addr c = Some a"
  proof (rule accountI[OF _ count])
    show "live_run {} (log @ [Released c]) = Some (L - {a})"
      using L(1,4) that by (simp add: live_run_append)
  qed (use L a in auto)
  show "account E log hs bs" if E
    by (rule accountI[OF L(1) count]) (use L that in auto)
qed

section \<open>The owners in the server\<close>

text \<open>The blocks in the hands of receives of bodies, of the packet queue and of writes.\<close>

definition held :: "('h, 'u) Net \<Rightarrow> addr multiset" where
  "held w = filter_mset (\<lambda>a. a \<noteq> NULL)
     (image_mset co_buffer (mset (filter (\<lambda>c. co_phase c = Await_Body) (n_coroutines w)))
      + image_mset pi_pBuffer (mset (n_packetQueue w)) + image_mset pw_data (mset (n_writes w)))"

definition kept :: "('h, 'u) Net \<Rightarrow> addr set" where
  "kept w = header_buffers w - {NULL}"

text \<open>
  A session waits in at most one coroutine, and only while it is in use; its pointer to a body buffer is set
  exactly while it receives a body, into that buffer; and no two sessions share a header buffer.
\<close>

definition waiting_inv :: "('h, 'u) Net \<Rightarrow> bool" where
  "waiting_inv w \<longleftrightarrow> distinct (map co_session (n_coroutines w))
     \<and> (\<forall>c \<in> set (n_coroutines w). as_nSessionPoolState (n_sessions w (co_session c)) = kAcquire
          \<and> (co_phase c = Await_Body \<longrightarrow> co_buffer c = as_szBodyBuffer (n_sessions w (co_session c))))
     \<and> (\<forall>i. as_szBodyBuffer (n_sessions w i) \<noteq> NULL \<longrightarrow>
          (\<exists>c \<in> set (n_coroutines w). co_session c = i \<and> co_phase c = Await_Body))
     \<and> (\<forall>pw \<in> set (n_writes w). pw_data pw \<noteq> NULL)
     \<and> (\<forall>i j. as_szHeaderBuffer (n_sessions w i) = as_szHeaderBuffer (n_sessions w j) \<longrightarrow>
          as_szHeaderBuffer (n_sessions w i) \<noteq> NULL \<longrightarrow> i = j)"

lemma waiting_invI:
  assumes "distinct (map co_session (n_coroutines w))"
    and "\<And>c. c \<in> set (n_coroutines w) \<Longrightarrow> as_nSessionPoolState (n_sessions w (co_session c)) = kAcquire"
    and "\<And>c. c \<in> set (n_coroutines w) \<Longrightarrow> co_phase c = Await_Body \<Longrightarrow>
      co_buffer c = as_szBodyBuffer (n_sessions w (co_session c))"
    and "\<And>i. as_szBodyBuffer (n_sessions w i) \<noteq> NULL \<Longrightarrow>
      \<exists>c \<in> set (n_coroutines w). co_session c = i \<and> co_phase c = Await_Body"
    and "\<And>pw. pw \<in> set (n_writes w) \<Longrightarrow> pw_data pw \<noteq> NULL"
    and "\<And>i j. as_szHeaderBuffer (n_sessions w i) = as_szHeaderBuffer (n_sessions w j) \<Longrightarrow>
      as_szHeaderBuffer (n_sessions w i) \<noteq> NULL \<Longrightarrow> i = j"
  shows "waiting_inv w"
  using assms unfolding waiting_inv_def by blast

lemma waiting_invD:
  assumes "waiting_inv w"
  shows "distinct (map co_session (n_coroutines w))"
    and "c \<in> set (n_coroutines w) \<Longrightarrow> as_nSessionPoolState (n_sessions w (co_session c)) = kAcquire"
    and "c \<in> set (n_coroutines w) \<Longrightarrow> co_phase c = Await_Body \<Longrightarrow>
      co_buffer c = as_szBodyBuffer (n_sessions w (co_session c))"
    and "as_szBodyBuffer (n_sessions w i) \<noteq> NULL \<Longrightarrow>
      \<exists>c \<in> set (n_coroutines w). co_session c = i \<and> co_phase c = Await_Body"
    and "pw \<in> set (n_writes w) \<Longrightarrow> pw_data pw \<noteq> NULL"
    and "as_szHeaderBuffer (n_sessions w i) = as_szHeaderBuffer (n_sessions w j) \<Longrightarrow>
      as_szHeaderBuffer (n_sessions w i) \<noteq> NULL \<Longrightarrow> i = j"
  using assms unfolding waiting_inv_def by blast+

definition books :: "bool \<Rightarrow> ('h, 'u) Net \<Rightarrow> bool" where
  "books E w \<longleftrightarrow> waiting_inv w \<and> account E (n_log w) (held w) (kept w)"

text \<open>
  What a worker relies on in its handlers: the response is a block taken from the pools in this call, with
  a size that is not zero, or there is none.
\<close>

definition hands_over :: "addr set \<Rightarrow> (('h, 'u) Net) HandlerManager \<Rightarrow> bool" where
  "hands_over L hm \<longleftrightarrow> (\<forall>f \<in> ran hm. \<forall>buf n w r k w'. f buf n w = Inr ((r, k), w') \<longrightarrow>
     r = NULL \<and> n_log w' = n_log w
     \<or> r \<noteq> NULL \<and> r \<notin> L \<and> k > 0 \<and> (\<exists>c. n_log w' = n_log w @ [Allocated c r]))"

text \<open>
  The steps of the server with nothing but the following left out: a body receive that fails, and a write
  that fails while its session waits for data. Without \<open>E\<close>, packets with an empty body are left out too.
\<close>

inductive calm_step ::
  "bool \<Rightarrow> 'h Header_vtbl \<Rightarrow> ((('h, 'u) Net) PacketWorker) set \<Rightarrow> ('h, 'u) Net \<Rightarrow> ('h, 'u) Net \<Rightarrow> bool"
  for E V W where
  calm_accept_ready: "n_accepting w = None \<Longrightarrow> accept_ready w = Inr w' \<Longrightarrow> calm_step E V W w w'"
| calm_accept_done: "n_accepting w = Some i \<Longrightarrow> fresh buf w \<Longrightarrow>
    calm_step E V W w (accept_done V error buf junk i w)"
| calm_header: "c \<in> set (n_coroutines w) \<Longrightarrow> co_phase c = Await_Header \<Longrightarrow> length data \<le> unat (co_size c) \<Longrightarrow>
    fresh buf w \<Longrightarrow> recv_header V c error data buf junk t w = Inr w' \<Longrightarrow> calm_step E V W w w'"
| calm_body: "c \<in> set (n_coroutines w) \<Longrightarrow> co_phase c = Await_Body \<Longrightarrow> length data \<le> unat (co_size c) \<Longrightarrow>
    fst (ReadBody V (co_session c) error (of_nat (length data)) t
      (received (co_buffer c) data (w\<lparr>n_coroutines := remove1 c (n_coroutines w)\<rparr>))) \<Longrightarrow>
    calm_step E V W w (recv_body V c error data t w)"
| calm_worker: "pk \<in> W \<Longrightarrow> well_behaved (header_buffers w) (pk_spHandlerManager pk) \<Longrightarrow>
    hands_over (live w) (pk_spHandlerManager pk) \<Longrightarrow> E \<or> pi_sizeOfBuffer (hd (n_packetQueue w)) > 0 \<Longrightarrow>
    PacketWorker_Processing pk w = Some (Inr w') \<Longrightarrow> calm_step E V W w w'"
| calm_sent: "pw \<in> set (n_writes w) \<Longrightarrow> error \<longrightarrow> pw_session pw \<notin> co_session ` set (n_coroutines w) \<Longrightarrow>
    calm_step E V W w (send_completed pw stale error t w)"

lemma books_live: "books E w \<Longrightarrow> live_run {} (n_log w) = Some (live w)"
  by (auto simp: books_def account_def live_def)

lemma fresh_not_kept: "books E w \<Longrightarrow> fresh buf w \<Longrightarrow> buf \<noteq> NULL \<and> buf \<notin> header_buffers w"
  by (auto simp: books_def fresh_def kept_def account_def live_def)

text \<open>They are steps of the server.\<close>

lemma calm_server_step: "calm_step E V W w w' \<Longrightarrow> books E w \<Longrightarrow> server_step V W w w'"
  by (induction rule: calm_step.induct) (auto dest: fresh_not_kept intro: server_step.intros)

section \<open>Every calm step keeps the books\<close>

lemma books_cong:
  assumes "n_log w' = n_log w" and "n_coroutines w' = n_coroutines w" and "n_packetQueue w' = n_packetQueue w"
    and "n_writes w' = n_writes w"
    and "\<And>j. as_szHeaderBuffer (n_sessions w' j) = as_szHeaderBuffer (n_sessions w j)"
    and "\<And>j. as_szBodyBuffer (n_sessions w' j) = as_szBodyBuffer (n_sessions w j)"
    and "\<And>c. c \<in> set (n_coroutines w) \<Longrightarrow>
      as_nSessionPoolState (n_sessions w' (co_session c)) = as_nSessionPoolState (n_sessions w (co_session c))"
  shows "books E w' = books E w"
  using assms by (simp add: books_def waiting_inv_def held_def kept_def header_buffers_def)

lemma books_accept_ready: "books E w \<Longrightarrow> accept_ready w = Inr w' \<Longrightarrow> books E w'"
  by (subst books_cong[where w = w]) (auto simp: accept_ready_def split: prod.splits option.splits)

text \<open>A receive of a header is started for a session that does not wait.\<close>

lemma books_Recv:
  assumes books: "books E w" and buf: "fresh buf w"
    and i: "as_nSessionPoolState (n_sessions w i) = kAcquire" "i \<notin> co_session ` set (n_coroutines w)"
  shows "books E (snd (Recv V i buf junk w))"
proof (cases "as_szHeaderBuffer (n_sessions w i) = NULL")
  case True
  let ?w = "snd (Recv V i buf junk w)"
  have acc: "account E (n_log w) (held w) (kept w)" and w: "waiting_inv w"
    using books by (simp_all add: books_def)
  have buf': "buf \<noteq> NULL" "buf \<notin> live w"
    using buf by (simp_all add: fresh_def)
  have other: "as_szHeaderBuffer (n_sessions w j) \<noteq> buf" for j
    using fresh_not_kept[OF books buf] by (auto simp: header_buffers_def)
  have "held ?w = held w" "kept ?w = insert buf (kept w)"
    "n_log ?w = n_log w @ [Allocated (COMMON_POOL_New (v_GetHeaderSize V (as_spHeader (n_sessions w i)))) buf]"
    using True buf'(1) by (auto simp: Recv_def net_defs held_def kept_def header_buffers_def Let_def)
  then have "account E (n_log ?w) (held ?w) (kept ?w)"
    using account_alloc(2)[OF acc buf'(1)] buf'(2) books_live[OF books] by simp
  moreover have "waiting_inv ?w"
    using w i True buf'(1) other unfolding waiting_inv_def by (auto simp: Recv_def net_defs Let_def)
  ultimately show ?thesis
    by (simp add: books_def)
next
  case False
  then show ?thesis
    using books i
    by (auto simp: books_def waiting_inv_def Recv_def net_defs held_def kept_def header_buffers_def Let_def)
qed

lemma books_accept_done:
  assumes books: "books E w" and pool: "pool_inv N w" "n_accepting w = Some i" and buf: "fresh buf w"
  shows "books E (accept_done V error buf junk i w)"
proof -
  let ?w1 = "w\<lparr>n_accepting := None\<rparr>"
  let ?w2 = "SetSessionPoolState i kAcquire (upd_session i (\<lambda>s. s\<lparr>as_open := True\<rparr>) ?w1)"
  have "as_nSessionPoolState (n_sessions w i) \<noteq> kAcquire"
    using pool by (simp add: pool_inv_def)
  then have i: "i \<notin> co_session ` set (n_coroutines w)"
    using books by (auto simp: books_def waiting_inv_def)
  have "books E ?w1"
    using books by (subst books_cong[where w = w]) simp_all
  moreover have "books E ?w2"
    using books i by (subst books_cong[where w = w]) (auto simp: net_defs)
  then have "books E (snd (Recv V i buf junk ?w2))"
    by (rule books_Recv) (use buf i in \<open>simp_all add: fresh_def live_def net_defs\<close>)
  ultimately show ?thesis
    by (simp add: accept_done_def Let_def)
qed

text \<open>Reading a header closes the session, which owns no body buffer then, or gives it one.\<close>

lemma upd_session_upd_session: "upd_session i f (upd_session i g w) = upd_session i (f \<circ> g) w"
  by (simp add: upd_session_def)

lemma ReadHeader_cases:
  assumes "ReadHeader V i error n buf junk t w = Inr (go_on, w')"
  obtains (closed) h b where "\<not> go_on"
      and "w' = snd (Close i t (upd_session i (\<lambda>s. s\<lparr>as_spHeader := h, as_sizeOfBodyBuffer := b\<rparr>) w))"
    | (empty) h where "go_on" and "w' = upd_session i (\<lambda>s. s\<lparr>as_spHeader := h, as_sizeOfBodyBuffer := 0\<rparr>) w"
    | (body) h b where "go_on" and "w' = pool_new buf junk b (upd_session i (\<lambda>s. s\<lparr>as_spHeader := h,
        as_sizeOfBodyBuffer := b, as_szBodyBuffer := buf, as_sizeOfPrevBodyBuffer := b\<rparr>) w)"
proof -
  let ?s = "n_sessions w i"
  have same: "w = upd_session i (\<lambda>s. s\<lparr>as_spHeader := as_spHeader ?s, as_sizeOfBodyBuffer := as_sizeOfBodyBuffer ?s\<rparr>) w"
    by (simp add: upd_session_def)
  show thesis
  proof (cases "error \<or> n \<noteq> v_GetHeaderSize V (as_spHeader ?s)")
    case True
    then have "ReadHeader V i error n buf junk t w = Inr (False, snd (Close i t w))"
      by (cases error) (simp_all add: ReadHeader_def Let_def)
    then show thesis
      using assms closed[of "as_sizeOfBodyBuffer ?s" "as_spHeader ?s", folded same] by simp
  next
    case False
    then obtain k h where h: "v_Deserialize V (as_spHeader ?s) (n_heap w (as_szHeaderBuffer ?s))
        (v_GetHeaderSize V (as_spHeader ?s)) = Inr (k, h)"
      using assms by (cases "v_Deserialize V (as_spHeader ?s) (n_heap w (as_szHeaderBuffer ?s))
        (v_GetHeaderSize V (as_spHeader ?s))") (auto simp: ReadHeader_def Let_def)
    let ?b = "v_GetBodySize V h + v_GetEnderSize V h"
    have other: "upd_session i (\<lambda>s. s\<lparr>as_spHeader := h\<rparr>) w
        = upd_session i (\<lambda>s. s\<lparr>as_spHeader := h, as_sizeOfBodyBuffer := as_sizeOfBodyBuffer ?s\<rparr>) w"
      by (simp add: upd_session_def)
    consider "\<not> v_Validate V h" | "v_Validate V h" "as_sizeOfMaxBuffer ?s < ?b"
      | "v_Validate V h" "\<not> as_sizeOfMaxBuffer ?s < ?b" "?b = 0"
      | "v_Validate V h" "\<not> as_sizeOfMaxBuffer ?s < ?b" "?b > 0"
      using word_gt_0[of ?b] by metis
    then show thesis
    proof cases
      case 1
      then show thesis
        using False h assms by (intro closed[of "as_sizeOfBodyBuffer ?s" h]) (simp_all add: ReadHeader_def Let_def flip: other)
    next
      case 2
      then show thesis
        using False h assms by (intro closed[of ?b h]) (simp_all add: ReadHeader_def Let_def upd_session_upd_session comp_def)
    next
      case 3
      then show thesis
        using False h assms by (intro empty[of h]) (simp_all add: ReadHeader_def Let_def upd_session_upd_session comp_def)
    next
      case 4
      then show thesis
        using False h assms by (intro body[of ?b h]) (simp_all add: ReadHeader_def Let_def upd_session_upd_session comp_def)
    qed
  qed
qed

lemma kept_cong:
  assumes "\<And>j. as_szHeaderBuffer (n_sessions w' j) = as_szHeaderBuffer (n_sessions w j)"
  shows "header_buffers w' = header_buffers w" and "kept w' = kept w"
  using assms by (simp_all add: kept_def header_buffers_def)

lemma body_received_for:
  assumes "waiting_inv w" and "as_szBodyBuffer (n_sessions w i) \<noteq> NULL"
  obtains d where "d \<in> set (n_coroutines w)" and "co_session d = i" and "co_phase d = Await_Body"
  using assms unfolding waiting_inv_def by blast

text \<open>A receive that has completed leaves its session without a coroutine.\<close>

lemma session_waits_once:
  assumes "waiting_inv w" and "c \<in> set (n_coroutines w)"
  shows "co_session c \<notin> co_session ` set (remove1 c (n_coroutines w))"
    and "d \<in> set (n_coroutines w) \<Longrightarrow> co_session d = co_session c \<Longrightarrow> d = c"
proof -
  have d: "distinct (map co_session (n_coroutines w))"
    using assms(1) by (simp add: waiting_inv_def)
  then have inj: "inj_on co_session (set (n_coroutines w))" and dist: "distinct (n_coroutines w)"
    by (simp_all add: distinct_map)
  then show "d \<in> set (n_coroutines w) \<Longrightarrow> co_session d = co_session c \<Longrightarrow> d = c"
    using assms(2) by (auto dest: inj_onD)
  show "co_session c \<notin> co_session ` set (remove1 c (n_coroutines w))"
    using inj dist assms(2) by (auto dest: inj_onD)
qed

lemma distinct_map_remove1: "distinct (map f xs) \<Longrightarrow> distinct (map f (remove1 c xs))"
  by (induction xs) (auto dest: in_set_remove1[THEN iffD1, rotated] notin_set_remove1 set_remove1_subset[THEN subsetD])

lemma books_header_completed:
  assumes books: "books E w" and c: "c \<in> set (n_coroutines w)" "co_phase c = Await_Header"
  shows "books E (w\<lparr>n_coroutines := remove1 c (n_coroutines w)\<rparr>)"
    and "as_szBodyBuffer (n_sessions w (co_session c)) = NULL"
    and "as_nSessionPoolState (n_sessions w (co_session c)) = kAcquire"
proof -
  have w: "waiting_inv w"
    using books by (simp add: books_def)
  show "as_szBodyBuffer (n_sessions w (co_session c)) = NULL"
  proof (rule ccontr)
    assume "as_szBodyBuffer (n_sessions w (co_session c)) \<noteq> NULL"
    then obtain d where "d \<in> set (n_coroutines w)" "co_session d = co_session c" "co_phase d = Await_Body"
      by (rule body_received_for[OF w])
    then show False
      using session_waits_once(2)[OF w c(1), of d] c(2) by simp
  qed
  show "as_nSessionPoolState (n_sessions w (co_session c)) = kAcquire"
    using w c(1) by (simp add: waiting_inv_def)
  have rest: "\<exists>d \<in> set (remove1 c (n_coroutines w)). co_session d = j \<and> co_phase d = Await_Body"
    if "as_szBodyBuffer (n_sessions w j) \<noteq> NULL" for j
  proof -
    from that obtain d where d: "d \<in> set (n_coroutines w)" "co_session d = j" "co_phase d = Await_Body"
      by (rule body_received_for[OF w])
    then have "d \<noteq> c" using c(2) by auto
    then show ?thesis using d by (intro bexI[of _ d]) simp_all
  qed
  have "waiting_inv (w\<lparr>n_coroutines := remove1 c (n_coroutines w)\<rparr>)"
    using w rest unfolding waiting_inv_def
    by (auto simp: distinct_map_remove1 dest!: set_remove1_subset[THEN subsetD])
  moreover have "held (w\<lparr>n_coroutines := remove1 c (n_coroutines w)\<rparr>) = held w"
    using c(2) by (simp add: held_def filter_remove1 remove1_idem)
  ultimately show "books E (w\<lparr>n_coroutines := remove1 c (n_coroutines w)\<rparr>)"
    using books by (simp add: books_def kept_def header_buffers_def)
qed

text \<open>A session that does not wait starts to receive a body.\<close>

lemma waiting_body:
  assumes w: "waiting_inv w" and i: "i \<notin> co_session ` set (n_coroutines w)"
    and w': "n_coroutines w' = n_coroutines w @ [c]" "co_session c = i" "co_phase c = Await_Body"
      "co_buffer c = as_szBodyBuffer (n_sessions w' i)" "as_nSessionPoolState (n_sessions w' i) = kAcquire"
      "\<And>j. j \<noteq> i \<Longrightarrow> n_sessions w' j = n_sessions w j"
      "as_szHeaderBuffer (n_sessions w' i) = as_szHeaderBuffer (n_sessions w i)" "n_writes w' = n_writes w"
  shows "waiting_inv w'"
proof -
  have other: "n_sessions w' (co_session d) = n_sessions w (co_session d)" if "d \<in> set (n_coroutines w)" for d
    using w'(6) i that by (metis imageI)
  have header: "as_szHeaderBuffer (n_sessions w' j) = as_szHeaderBuffer (n_sessions w j)" for j
    using w'(6,7) by (cases "j = i") simp_all
  have "distinct (map co_session (n_coroutines w'))"
    using w w' i by (auto simp: waiting_inv_def)
  moreover have "\<exists>d \<in> set (n_coroutines w'). co_session d = j \<and> co_phase d = Await_Body"
    if "as_szBodyBuffer (n_sessions w' j) \<noteq> NULL" for j
    using w w' that by (cases "j = i") (auto simp: waiting_inv_def)
  ultimately show ?thesis
    using w w' other header by (auto simp: waiting_inv_def)
qed

lemma books_recv_header:
  assumes books: "books E w" and c: "c \<in> set (n_coroutines w)" "co_phase c = Await_Header" and buf: "fresh buf w"
    and recv: "recv_header V c error data buf junk t w = Inr w'"
  shows "books E w'"
proof -
  let ?i = "co_session c" and ?cs = "remove1 c (n_coroutines w)"
  let ?w1 = "received (co_buffer c) data (w\<lparr>n_coroutines := ?cs\<rparr>)"
  note completed = books_header_completed[OF books c]
  have cs: "?i \<notin> co_session ` set ?cs"
    using books session_waits_once(1)[OF _ c(1)] by (simp add: books_def)
  have others: "co_session d \<noteq> ?i" if "d \<in> set ?cs" for d
    using cs that by (metis imageI)
  have books1: "books E ?w1"
    using completed(1) by (subst books_cong[where w = "w\<lparr>n_coroutines := ?cs\<rparr>"]) (simp_all add: received_def)
  obtain go_on w2 where read: "ReadHeader V ?i error (of_nat (length data)) buf junk t ?w1 = Inr (go_on, w2)"
    and w': "w' = (if go_on then w2\<lparr>n_coroutines := n_coroutines w2 @ [body_coroutine ?i w2]\<rparr> else w2)"
    using recv by (auto simp: recv_header_def body_coroutine_def Let_def bind_result_eq_Inr_iff)
  from read show ?thesis
  proof (cases rule: ReadHeader_cases)
    case (closed h b)
    have "books E w2"
      using books1 completed(2) others unfolding closed(2)
      by (subst books_cong[where w = ?w1]) (auto simp: Close_session Close_log close_log_def upd_session_def received_def)
    then show ?thesis
      using w' closed(1) by simp
  next
    case (empty h)
    have "waiting_inv w'"
      by (rule waiting_body[where w = ?w1 and i = ?i and c = "body_coroutine ?i w2"])
        (use books1 cs completed(2,3) empty w' in \<open>simp_all add: books_def body_coroutine_def upd_session_def received_def\<close>)
    moreover have "kept w' = kept ?w1"
      by (rule kept_cong(2)) (use empty w' in \<open>simp add: upd_session_def\<close>)
    moreover have "held w' = held ?w1" "n_log w' = n_log ?w1"
      using completed(2) empty w' by (simp_all add: held_def body_coroutine_def upd_session_def received_def)
    ultimately show ?thesis
      using books1 by (simp add: books_def)
  next
    case (body h b)
    have "waiting_inv w'"
      by (rule waiting_body[where w = ?w1 and i = ?i and c = "body_coroutine ?i w2"])
        (use books1 cs completed(2,3) body w' in \<open>simp_all add: books_def body_coroutine_def net_defs\<close>)
    moreover have "kept w' = kept ?w1"
      by (rule kept_cong(2)) (use body w' in \<open>simp add: net_defs\<close>)
    moreover have "held w' = add_mset buf (held ?w1)" "n_log w' = n_log ?w1 @ [Allocated (COMMON_POOL_New b) buf]"
      using buf body w' by (simp_all add: held_def body_coroutine_def net_defs fresh_def)
    moreover have "account E (n_log ?w1 @ [Allocated (COMMON_POOL_New b) buf]) (add_mset buf (held ?w1)) (kept ?w1)"
      using books1 buf books_live[OF books]
      by (intro account_alloc(1)) (auto simp: books_def fresh_def received_def)
    ultimately show ?thesis
      by (simp add: books_def)
  qed
qed

text \<open>A body that has been received goes from the session to the packet queue.\<close>

lemma waiting_handed_over:
  assumes w: "waiting_inv w" and cs: "n_coroutines w = xs @ c # ys" "co_session c = i"
    and w': "n_coroutines w' = xs @ ys @ [h]" "co_session h = i" "co_phase h = Await_Header" "n_writes w' = n_writes w"
      "n_sessions w' = (n_sessions w)(i := (n_sessions w i)\<lparr>as_szBodyBuffer := NULL\<rparr>)"
  shows "waiting_inv w'"
proof (rule waiting_invI)
  have "i \<notin> co_session ` (set xs \<union> set ys)"
    using waiting_invD(1)[OF w] cs by auto
  then have other: "n_sessions w' (co_session d) = n_sessions w (co_session d)" if "d \<in> set xs \<union> set ys" for d
    using that by (simp add: w'(5)) (metis UnCI imageI)
  show "distinct (map co_session (n_coroutines w'))"
    using waiting_invD(1)[OF w] by (simp add: w' cs)
  show "as_nSessionPoolState (n_sessions w' (co_session d)) = kAcquire" if "d \<in> set (n_coroutines w')" for d
    using that waiting_invD(2)[OF w, of d] waiting_invD(2)[OF w, of c] by (auto simp: w' cs)
  show "co_buffer d = as_szBodyBuffer (n_sessions w' (co_session d))"
    if "d \<in> set (n_coroutines w')" and "co_phase d = Await_Body" for d
    using that waiting_invD(3)[OF w, of d] other[of d] by (auto simp: w'(1,3) cs)
  show "\<exists>d \<in> set (n_coroutines w'). co_session d = j \<and> co_phase d = Await_Body"
    if "as_szBodyBuffer (n_sessions w' j) \<noteq> NULL" for j
  proof -
    from that have "j \<noteq> i" "as_szBodyBuffer (n_sessions w j) \<noteq> NULL"
      by (auto simp: w'(5) split: if_splits)
    then show ?thesis
      using waiting_invD(4)[OF w, of j] by (auto simp: w'(1) cs)
  qed
  show "j = k" if "as_szHeaderBuffer (n_sessions w' j) = as_szHeaderBuffer (n_sessions w' k)"
    "as_szHeaderBuffer (n_sessions w' j) \<noteq> NULL" for j k
    using that waiting_invD(6)[OF w, of j k] by (simp add: w'(5) split: if_splits)
qed (use waiting_invD(5)[OF w] in \<open>simp add: w'(4)\<close>)

lemma books_recv_body:
  assumes books: "books E w" and c: "c \<in> set (n_coroutines w)" "co_phase c = Await_Body"
    and complete: "fst (ReadBody V (co_session c) error (of_nat (length data)) t
      (received (co_buffer c) data (w\<lparr>n_coroutines := remove1 c (n_coroutines w)\<rparr>)))"
  shows "books E (recv_body V c error data t w)"
proof -
  let ?i = "co_session c" and ?w = "recv_body V c error data t w"
  let ?w1 = "received (co_buffer c) data (w\<lparr>n_coroutines := remove1 c (n_coroutines w)\<rparr>)"
  have w: "waiting_inv w"
    using books by (simp add: books_def)
  obtain xs ys where cs: "n_coroutines w = xs @ c # ys" "c \<notin> set xs"
    using split_list_first[OF c(1)] by blast
  have i: "as_szBodyBuffer (n_sessions w ?i) = co_buffer c"
    using waiting_invD(3)[OF w c] by simp
  define p where "p = \<lparr>pi_session = ?i, pi_protocolNo = ucast (v_GetProtocolNo V (as_spHeader (n_sessions w ?i))),
    pi_pBuffer = co_buffer c, pi_sizeOfBuffer = as_sizeOfBodyBuffer (n_sessions w ?i) - v_GetEnderSize V (as_spHeader (n_sessions w ?i))\<rparr>"
  have "?w = RecvProcess V ?i (upd_session ?i (\<lambda>s. s\<lparr>as_szBodyBuffer := NULL\<rparr>) (PacketWorkerManager_Insert p ?w1))"
    using complete i by (simp add: recv_body_def ReadBody_def p_def received_def Let_def split: if_splits)
  then obtain h where w': "n_coroutines ?w = xs @ ys @ [h]" "co_session h = ?i" "co_phase h = Await_Header"
      "n_packetQueue ?w = n_packetQueue w @ [p]" "pi_pBuffer p = co_buffer c" "n_writes ?w = n_writes w" "n_log ?w = n_log w"
      "n_sessions ?w = (n_sessions w)(?i := (n_sessions w ?i)\<lparr>as_szBodyBuffer := NULL\<rparr>)"
    using cs by (simp add: net_defs remove1_append p_def)
  have "kept ?w = kept w"
    by (rule kept_cong(2)) (simp add: w')
  moreover have "held ?w = held w"
    using c(2) by (simp add: held_def w' cs)
  moreover have "waiting_inv ?w"
    by (rule waiting_handed_over[OF w cs(1) refl w'(1-3,6,8)])
  ultimately show ?thesis
    using books w'(7) by (simp add: books_def)
qed

section \<open>Workers and writes\<close>

lemma hands_over_Processing:
  assumes "hands_over L hm" and "Processing hm no buf n w = Inr ((r, k), w')"
  shows "r = NULL \<and> n_log w' = n_log w \<or> r \<noteq> NULL \<and> r \<notin> L \<and> k > 0 \<and> (\<exists>c. n_log w' = n_log w @ [Allocated c r])"
  using assms by (fastforce simp: Processing_def hands_over_def ran_def no_response_def split: option.splits)

lemma books_worker:
  assumes books: "books E w" and frame: "well_behaved (header_buffers w) (pk_spHandlerManager pk)"
    and hands: "hands_over (live w) (pk_spHandlerManager pk)" and E: "E \<or> pi_sizeOfBuffer (hd (n_packetQueue w)) > 0"
    and round: "PacketWorker_Processing pk w = Some (Inr w')"
  shows "books E w'"
proof -
  obtain p ps r k w1 where q: "n_packetQueue w = p # ps"
    and proc: "Processing (pk_spHandlerManager pk) (pi_protocolNo p) (n_heap w (pi_pBuffer p))
      (pi_sizeOfBuffer p) (w\<lparr>n_packetQueue := ps\<rparr>) = Inr ((r, k), w1)"
    and w': "w' = (let w2 = (if pi_pBuffer p \<noteq> NULL \<and> pi_sizeOfBuffer p > 0
         then snd (BufferRelease (pi_pBuffer p) (ucast (pi_sizeOfBuffer p)) w1) else w1)
       in if r \<noteq> NULL \<and> k > 0 then snd (Send (pi_session p) r k w2) else w2)"
    by (rule PacketWorker_round[OF round])
  let ?M = "held (w\<lparr>n_packetQueue := ps\<rparr>)" and ?R = "if r = NULL then {#} else {#r#}"
  have handed: "r = NULL \<and> n_log w1 = n_log w \<or> r \<noteq> NULL \<and> r \<notin> live w \<and> k > 0 \<and> (\<exists>c. n_log w1 = n_log w @ [Allocated c r])"
    using hands_over_Processing[OF hands proc] by simp
  have same: "n_sessions w1 = n_sessions w" "n_coroutines w1 = n_coroutines w" "n_packetQueue w1 = ps" "n_writes w1 = n_writes w"
    using well_behaved_Processing[OF frame proc] by (simp_all add: handler_frame_def)
  define rel where "rel = (if pi_pBuffer p \<noteq> NULL \<and> pi_sizeOfBuffer p > 0
    then [Released (snd (COMMON_POOL_Delete (pi_pBuffer p) (ucast (ucast (pi_sizeOfBuffer p) :: u32))))] else [])"
  have acc: "account E (n_log w1) (held w + ?R) (kept w)"
    using books handed account_alloc(1)[of E "n_log w" "held w" "kept w" r] books_live[OF books]
    by (auto simp: books_def)
  have "account E (n_log w1 @ rel) (?M + ?R) (kept w)"
  proof (cases "pi_pBuffer p = NULL")
    case True
    then have "held w = ?M"
      by (simp add: held_def q)
    then show ?thesis using acc True by (simp add: rel_def)
  next
    case False
    then have "held w = add_mset (pi_pBuffer p) ?M"
      by (simp add: held_def q)
    then have "account E (n_log w1) (add_mset (pi_pBuffer p) (?M + ?R)) (kept w)"
      using acc by simp
    from account_remove[OF this] show ?thesis
      using False E Delete_freed by (auto simp: rel_def q word_gt_0)
  qed
  moreover have "n_log w' = n_log w1 @ rel"
    unfolding w' rel_def by (simp add: Let_def Send_def SendProcess_def net_defs split_beta)
  moreover have "kept w' = kept w" "held w' = ?M + ?R"
    using handed same by (auto simp: w' Let_def Send_def SendProcess_def net_defs split_beta held_def kept_def header_buffers_def)
  moreover have "waiting_inv w'"
    using books handed same
    by (auto simp: books_def w' Let_def Send_def SendProcess_def net_defs split_beta waiting_inv_def)
  ultimately show ?thesis
    by (simp add: books_def)
qed

lemma books_send_completed:
  assumes books: "books E w" and pw: "pw \<in> set (n_writes w)"
    and error: "error \<longrightarrow> pw_session pw \<notin> co_session ` set (n_coroutines w)"
  shows "books E (send_completed pw stale error t w)"
proof -
  let ?r = "Released (snd (COMMON_POOL_Delete (pw_data pw) stale))"
  define w2 where "w2 = w\<lparr>n_writes := remove1 pw (n_writes w), n_log := n_log w @ [?r],
    n_wire := (if error then n_wire w else n_wire w @ [(pw_session pw, take (unat (pw_length pw)) (n_heap w (pw_data pw)))])\<rparr>"
  have eq: "send_completed pw stale error t w = (if error then snd (Close (pw_session pw) t w2) else w2)"
    by (simp add: send_completed_def w2_def net_defs Let_def split_beta)
  have w: "waiting_inv w"
    using books by (simp add: books_def)
  then have "pw_data pw \<noteq> NULL"
    using pw by (simp add: waiting_inv_def)
  then have "held w = add_mset (pw_data pw) (held (w\<lparr>n_writes := remove1 pw (n_writes w)\<rparr>))"
    using pw by (simp add: held_def image_mset_Diff multiset_eq_iff)
  then have "account E (n_log w2) (held w2) (kept w2)"
    using books account_remove(1)[of E "n_log w" "pw_data pw" _ "kept w"] Delete_freed
    by (simp add: books_def w2_def held_def kept_def header_buffers_def)
  moreover have "waiting_inv w2"
    using w by (auto simp: waiting_inv_def w2_def dest: set_remove1_subset[THEN subsetD])
  ultimately have books2: "books E w2"
    by (simp add: books_def)
  have "books E (snd (Close (pw_session pw) t w2))" if error
  proof -
    have i: "co_session d \<noteq> pw_session pw" if "d \<in> set (n_coroutines w)" for d
      using error \<open>error\<close> that by force
    then have "as_szBodyBuffer (n_sessions w (pw_session pw)) = NULL"
      using body_received_for[OF w] by metis
    then show ?thesis
      using books2 i by (subst books_cong[where w = w2]) (auto simp: Close_session Close_log close_log_def w2_def)
  qed
  then show ?thesis
    using books2 eq by simp
qed

section \<open>Calm executions\<close>

lemma books_calm_step: "calm_step E V W w w' \<Longrightarrow> books E w \<Longrightarrow> pool_inv N w \<Longrightarrow> books E w'"
  by (induction rule: calm_step.induct)
    (blast intro: books_accept_ready books_accept_done books_recv_header books_recv_body books_worker books_send_completed)+

lemma calm_execution:
  assumes "(calm_step E V W)\<^sup>*\<^sup>* w0 w" and "books E w0" and "pool_inv N w0"
  shows "books E w \<and> pool_inv N w \<and> server_reachable V W w0 w"
  using assms(1)
proof (induction rule: rtranclp_induct)
  case base
  then show ?case using assms(2,3) by (simp add: reach_start)
next
  case (step w w')
  then have "server_step V W w w'"
    using calm_server_step by blast
  then show ?case
    using step books_calm_step pool_inv_step reach_step by blast
qed

lemma started_books: "unat n < 2 ^ 31 \<Longrightarrow> books E (started e mb n u)"
  by (auto simp: books_def waiting_inv_def account_def held_def kept_def header_buffers_def started_effect)

text \<open>The handlers of the sample server hand their responses over, so its rounds are calm steps.\<close>

lemma HandlerSet_hands_over:
  assumes "he_block env \<notin> L" and "he_block env \<noteq> NULL"
  shows "hands_over L (HandlerSet en env HandlerManager_new)"
proof -
  have test: "r = he_block env \<and> k = 54 \<and> (\<exists>c. n_log w' = n_log w @ [Allocated c r])"
    if "TestProtocol en env buf n w = Inr ((r, k), w')" for buf n w r k w'
  proof -
    have "GetTotalSize (snd (MakeEnder (snd (MakeHeader en rnd (HeaderCCT_new e) 1010 5)) m)) = 54" for rnd e m
      by (simp add: MakeHeader_def MakeEnder_def HeaderCCT_new_def header_getters sizeof_SD_HEADER_def sizeof_SD_ENDER_def)
    then show ?thesis
      using that by (auto simp: TestProtocol_def bind_result_eq_Inr_iff pool_new_def log_event_def Let_def
          split_beta sizeof_CK_KEEPALIVE_def split: if_splits)
  qed
  have keep: "r = NULL \<and> n_log w' = n_log w" if "KeepAlive env buf n w = Inr ((r, k), w')" for buf n w r k w'
    using that by (auto simp: KeepAlive_def bind_result_eq_Inr_iff)
  have "f = TestProtocol en env \<or> f = KeepAlive env" if "f \<in> ran (HandlerSet en env HandlerManager_new)" for f
    using that by (auto simp: ran_def HandlerSet_table split: if_splits)
  then show ?thesis
    unfolding hands_over_def using test keep assms by fastforce
qed

lemma sample_round_is_calm:
  assumes "books E w" and "he_block env \<notin> live w" and "he_block env \<noteq> NULL"
    and "E \<or> pi_sizeOfBuffer (hd (n_packetQueue w)) > 0"
    and "PacketWorker_new (HandlerSet en env HandlerManager_new) \<in> W"
    and "PacketWorker_Processing (PacketWorker_new (HandlerSet en env HandlerManager_new)) w = Some (Inr w')"
  shows "calm_step E V W w w'"
proof -
  have "he_block env \<notin> header_buffers w"
    using fresh_not_kept[OF assms(1), of "he_block env"] assms(2,3) by (simp add: fresh_def)
  then show ?thesis
    using assms by (intro calm_worker[OF assms(5) _ _ assms(4,6)])
      (simp_all add: PacketWorker_new_def SetHandlerManager_def HandlerSet_well_behaved HandlerSet_hands_over)
qed

section \<open>Properties\<close>

text \<open>
  C4. As long as no receive of a body fails and no write fails while its session waits for data, whatever
  else happens (connections that fail, headers that are wrong or cut off, packets in any order), the blocks of
  the pools have one owner each: none is in the hands of two of the body receives, queued packets and
  writes, none of these is a header buffer, all of them are live, and every block that was released was live at
  that moment. If no packet had an empty body, no other block is live: nothing has leaked.
\<close>

theorem buffers_have_one_owner:
  assumes "unat n < 2 ^ 31" and "(calm_step E (server_vtbl en) W)\<^sup>*\<^sup>* (started e mb n u) w"
  shows "server_reachable (server_vtbl en) W (started e mb n u) w
    \<and> (\<exists>L. live_run {} (n_log w) = Some L \<and> (\<forall>a. count (held w) a \<le> 1) \<and> set_mset (held w) \<inter> header_buffers w = {}
        \<and> set_mset (held w) \<union> (header_buffers w - {NULL}) \<subseteq> L
        \<and> (\<not> E \<longrightarrow> L = set_mset (held w) \<union> (header_buffers w - {NULL})))"
proof -
  have books: "books E w" and reach: "server_reachable (server_vtbl en) W (started e mb n u) w"
    using calm_execution[OF assms(2) started_books started_pool_inv] assms(1) by blast+
  from books have "account E (n_log w) (held w) (kept w)"
    by (simp add: books_def)
  then obtain L where L: "live_run {} (n_log w) = Some L" "\<And>a. count (held w) a \<le> 1" "set_mset (held w) \<inter> kept w = {}"
    "set_mset (held w) \<union> kept w \<subseteq> L" "\<not> E \<Longrightarrow> L \<subseteq> set_mset (held w) \<union> kept w"
    by (rule accountE) metis
  have "NULL \<notin># held w"
    by (simp add: held_def)
  then have "set_mset (held w) \<inter> header_buffers w = {}"
    using L(3) by (auto simp: kept_def)
  then show ?thesis
    using reach L(1,2,4,5) unfolding kept_def by blast
qed

text \<open>
  A server with two sessions: a peer has connected, the acceptor has gone on to the other session, and the
  header of a message of three bytes arrives.
\<close>

definition pair_ready :: "(HeaderCCT, i32) Net" where
  "pair_ready = (case accept_ready (started (\<lambda>_. zero_ender) 32768 2 6) of Inr w \<Rightarrow> w | Inl _ \<Rightarrow> undefined)"

definition pair_accepted :: "(HeaderCCT, i32) Net" where
  "pair_accepted = accept_done (server_vtbl True) False 7 [] 0 pair_ready"

definition pair_connected :: "(HeaderCCT, i32) Net" where
  "pair_connected = (case accept_ready pair_accepted of Inr w \<Rightarrow> w | Inl _ \<Rightarrow> undefined)"

definition short_message :: message where
  "short_message = \<lparr>msg_no = 101, msg_body = [1, 2, 3], msg_rand = 0, msg_buf = 9, msg_junk = []\<rparr>"

lemma pair_ready_step:
  "accept_ready (started (\<lambda>_. zero_ender) 32768 2 6) = Inr pair_ready"
  "n_accepting pair_ready = Some 0" "m_queue (n_pool pair_ready) = [1]" "n_log pair_ready = []"
  "n_coroutines pair_ready = []" "n_sessions pair_ready = n_sessions (started (\<lambda>_. zero_ender) 32768 2 (6 :: i32))"
  "n_packetQueue pair_ready = []" "n_writes pair_ready = []"
proof -
  have "m_queue (n_pool (started (\<lambda>_. zero_ender) 32768 2 (6 :: i32))) = [0, 1]"
    by (simp add: started_effect upt_rec)
  note ready = accept_ready_Cons[OF this]
  show "accept_ready (started (\<lambda>_. zero_ender) 32768 2 6) = Inr pair_ready"
    "n_accepting pair_ready = Some 0" "m_queue (n_pool pair_ready) = [1]" "n_log pair_ready = []"
    "n_coroutines pair_ready = []" "n_sessions pair_ready = n_sessions (started (\<lambda>_. zero_ender) 32768 2 (6 :: i32))"
    "n_packetQueue pair_ready = []" "n_writes pair_ready = []"
    by (simp_all add: pair_ready_def ready started_effect)
qed

lemma pair_accepted_facts:
  "n_coroutines pair_accepted = [header_coroutine (server_vtbl True) 0 pair_accepted]" "session_ready 0 pair_accepted"
  "as_szHeaderBuffer (n_sessions pair_accepted 0) = 7" "as_nSessionPoolState (n_sessions pair_accepted 0) = kAcquire"
  "n_accepting pair_accepted = None" "m_queue (n_pool pair_accepted) = [1]"
  "n_packetQueue pair_accepted = []" "n_writes pair_accepted = []"
  "n_log pair_accepted = [Allocated (COMMON_POOL_New 33) 7]" "as_sizeOfMaxBuffer (n_sessions pair_accepted 0) = 32768"
  "header_buffers pair_accepted = {NULL, 7}"
proof -
  have "hc_sizeOfHeader (HeaderCCT_new zero_ender) = 33"
    by (simp add: HeaderCCT_new_def sizeof_SD_HEADER_def)
  note facts = pair_accepted_def accept_done_def Recv_def net_defs pair_ready_step started_effect header_coroutine_def
    session_ready_def good_header_new server_vtbl_def GetHeaderSize_def this Let_def
  show "n_coroutines pair_accepted = [header_coroutine (server_vtbl True) 0 pair_accepted]" "session_ready 0 pair_accepted"
    "as_szHeaderBuffer (n_sessions pair_accepted 0) = 7" "as_nSessionPoolState (n_sessions pair_accepted 0) = kAcquire"
    "n_accepting pair_accepted = None" "m_queue (n_pool pair_accepted) = [1]"
    "n_packetQueue pair_accepted = []" "n_writes pair_accepted = []"
    "n_log pair_accepted = [Allocated (COMMON_POOL_New 33) 7]" "as_sizeOfMaxBuffer (n_sessions pair_accepted 0) = 32768"
    by (simp_all add: facts)
  show "header_buffers pair_accepted = {NULL, 7}"
    by (auto simp: facts header_buffers_def intro: exI[of _ 0] exI[of _ 1])
qed

text \<open>The pool has a second session, so the acceptor goes on with it.\<close>

lemma pair_connected_facts:
  "accept_ready pair_accepted = Inr pair_connected" "n_accepting pair_connected = Some 1" "m_queue (n_pool pair_connected) = []"
  "n_sessions pair_connected = n_sessions pair_accepted" "n_coroutines pair_connected = n_coroutines pair_accepted"
  "n_heap pair_connected = n_heap pair_accepted" "n_log pair_connected = n_log pair_accepted"
  "n_packetQueue pair_connected = []" "n_writes pair_connected = []"
  "header_buffers pair_connected = {NULL, 7}" "session_ready 0 pair_connected"
  "header_coroutine (server_vtbl True) 0 pair_connected = header_coroutine (server_vtbl True) 0 pair_accepted"
proof -
  note ready = accept_ready_Cons[OF pair_accepted_facts(6)]
  show "accept_ready pair_accepted = Inr pair_connected" "n_accepting pair_connected = Some 1" "m_queue (n_pool pair_connected) = []"
    and same: "n_sessions pair_connected = n_sessions pair_accepted" "n_heap pair_connected = n_heap pair_accepted"
    and "n_coroutines pair_connected = n_coroutines pair_accepted" "n_log pair_connected = n_log pair_accepted"
      "n_packetQueue pair_connected = []" "n_writes pair_connected = []"
    by (simp_all add: pair_connected_def ready pair_accepted_facts(7,8))
  show "header_buffers pair_connected = {NULL, 7}" "session_ready 0 pair_connected"
    "header_coroutine (server_vtbl True) 0 pair_connected = header_coroutine (server_vtbl True) 0 pair_accepted"
    using pair_accepted_facts(2,11) by (simp_all add: header_buffers_def session_ready_def header_coroutine_def same)
qed

lemma pair_calm: "(calm_step E (server_vtbl True) W)\<^sup>*\<^sup>* (started (\<lambda>_. zero_ender) 32768 2 6) pair_connected"
proof -
  have "calm_step E (server_vtbl True) W (started (\<lambda>_. zero_ender) 32768 2 6) pair_ready"
    by (rule calm_accept_ready) (simp_all add: started_effect pair_ready_step)
  moreover have "calm_step E (server_vtbl True) W pair_ready pair_accepted"
    unfolding pair_accepted_def by (rule calm_accept_done) (simp_all add: pair_ready_step fresh_def live_def)
  moreover have "calm_step E (server_vtbl True) W pair_accepted pair_connected"
    by (rule calm_accept_ready) (simp_all add: pair_accepted_facts pair_connected_facts)
  ultimately show ?thesis by (meson rtranclp.rtrancl_refl rtranclp.rtrancl_into_rtrancl)
qed

lemma pair_connected_reachable: "server_reachable (server_vtbl True) W (started (\<lambda>_. zero_ender) 32768 2 6) pair_connected"
  using calm_execution[OF pair_calm started_books started_pool_inv] by simp

text \<open>The header has come; the session receives the body into the block 9.\<close>

lemma pair_receiving:
  obtains w body where "(calm_step E (server_vtbl True) W)\<^sup>*\<^sup>* (started (\<lambda>_. zero_ender) 32768 2 (6 :: i32)) w"
    and "n_coroutines w = [body_coroutine 0 w]" and "as_szBodyBuffer (n_sessions w 0) = 9" and "held w = {#9#}"
    and "as_sizeOfPrevBodyBuffer (n_sessions w 0) \<noteq> 0" and "as_szHeaderBuffer (n_sessions w 0) = 7"
    and "m_queue (n_pool w) = []" and "n_accepting w = Some 1" and "header_buffers w = {NULL, 7}" and "n_packetQueue w = []"
    and "length body = unat (co_size (body_coroutine 0 w))"
    and "recv_frame (server_vtbl True) 0 (wire_frame True (HeaderCCT_new zero_ender) 1 short_message) pair_connected
      = Inr (recv_body (server_vtbl True) (body_coroutine 0 w) False body False w)"
proof -
  let ?c = "header_coroutine (server_vtbl True) 0 pair_connected"
  have wf: "wf_ender (hc_ender (HeaderCCT_new zero_ender))"
    by (simp add: HeaderCCT_new_def zero_ender_def wf_ender_def)
  obtain hdr body where frame: "wire_frame True (HeaderCCT_new zero_ender) 1 short_message = (hdr, body, 9, [])"
    by (simp add: wire_frame_def short_message_def Let_def)
  have "fits (as_sizeOfMaxBuffer (n_sessions pair_connected 0)) short_message"
    by (simp add: pair_connected_facts pair_accepted_facts fits_def short_message_def)
  from wire_frame_rest_expected[OF good_header_new wf pair_connected_facts(11) this frame]
  obtain w where recv: "recv_header (server_vtbl True) ?c False hdr 9 [] False pair_connected = Inr w"
    and w: "n_coroutines w = [body_coroutine 0 w]" "as_szBodyBuffer (n_sessions w 0) = 9" "length hdr = 33"
      "as_sizeOfPrevBodyBuffer (n_sessions w 0) \<noteq> 0" "as_szHeaderBuffer (n_sessions w 0) = 7" "n_packetQueue w = []"
      "m_queue (n_pool w) = []" "n_accepting w = Some 1" "n_writes w = []" "length body = unat (co_size (body_coroutine 0 w))"
    by (auto simp: pair_connected_facts pair_accepted_facts)
  then have held: "held w = {#9#}"
    by (simp add: held_def body_coroutine_def)
  have hb: "header_buffers w = {NULL, 7}"
    using recv_header_frame[OF recv] kept_cong(1)[of w pair_connected] by (simp add: hdr_frame_def pair_connected_facts)
  have "unat (co_size ?c) = 33"
    using pair_connected_facts(11)
    by (simp add: header_coroutine_def session_ready_def good_header_def server_vtbl_def GetHeaderSize_def sizeof_SD_HEADER_def)
  then have "calm_step E (server_vtbl True) W pair_connected w"
    by (intro calm_header[OF _ _ _ _ recv])
      (simp_all add: w pair_connected_facts(4,5,7) pair_accepted_facts(1,9) header_coroutine_def fresh_def live_def)
  then have "(calm_step E (server_vtbl True) W)\<^sup>*\<^sup>* (started (\<lambda>_. zero_ender) 32768 2 6) w"
    using pair_calm by (rule rtranclp.rtrancl_into_rtrancl[rotated])
  then show thesis
    by (rule that[of _ body]) (use w held hb recv frame in \<open>simp_all add: recv_frame_def\<close>)
qed

theorem buffers_have_one_owner_witness:
  "\<exists>w. (calm_step False (server_vtbl True) {})\<^sup>*\<^sup>* (started (\<lambda>_. zero_ender) 32768 2 (6 :: i32)) w
     \<and> held w = {#9#} \<and> live_run {} (n_log w) = Some {9, 7}"
proof -
  obtain w where w: "(calm_step False (server_vtbl True) {})\<^sup>*\<^sup>* (started (\<lambda>_. zero_ender) 32768 2 (6 :: i32)) w"
    "held w = {#9#}" "header_buffers w = {NULL, 7}"
    by (rule pair_receiving)
  from buffers_have_one_owner[OF _ w(1)] show ?thesis
    using w by auto
qed

end
