(* ===== verification/Session_Reuse.thy ===== *)
theory Session_Reuse
  imports Conversation Buffer_Ownership
begin

text \<open>
  What peers can do to a server by connecting and going away (src/lib/async_session_impl.cpp,
  packet_worker.cpp, skeleton_server.cpp). A session object goes back to the pool as soon as its connection is
  closed; its pointer to a body buffer, and the packets in the queue that refer to it, stay.
\<close>

section \<open>Peers that come and go\<close>

text \<open>
  A peer connects: the accept completes and the accepting loop goes on to the next session of the pool, with
  no suspension in between; \<open>buf\<close> is the block the pools hand out if the session needs a header buffer. A peer
  goes away: the receive its session waits in completes with an error.
\<close>

definition connects :: "'h Header_vtbl \<Rightarrow> addr \<Rightarrow> ('h, 'u) Net \<Rightarrow> (('h, 'u) Net) result" where
  "connects V buf w =
     (case n_accepting w of None \<Rightarrow> Inr w | Some i \<Rightarrow> accept_ready (accept_done V False buf [] i w))"

definition goes_away :: "'h Header_vtbl \<Rightarrow> nat \<Rightarrow> ('h, 'u) Net \<Rightarrow> (('h, 'u) Net) result" where
  "goes_away V i w =
     (case find (\<lambda>c. co_session c = i) (n_coroutines w) of
        None \<Rightarrow> Inr w
      | Some c \<Rightarrow> if co_phase c = Await_Header then recv_header V c True [] NULL [] False w
                  else Inr (recv_body V c True [] False w))"

datatype peer_event = Connects addr | Goes_Away nat

fun peers :: "'h Header_vtbl \<Rightarrow> peer_event list \<Rightarrow> ('h, 'u) Net \<Rightarrow> (('h, 'u) Net) result" where
  "peers V [] w = Inr w"
| "peers V (Connects buf # es) w = bind_result (connects V buf w) (peers V es)"
| "peers V (Goes_Away i # es) w = bind_result (goes_away V i w) (peers V es)"

text \<open>The effect of the two events, on a server that has its books in order.\<close>

definition closed :: "'h AsyncSession \<Rightarrow> 'h AsyncSession" where
  "closed s = s\<lparr>as_open := False, as_nSessionPoolState := kRestore\<rparr>"

lemma goes_away_effect:
  assumes inv: "pool_inv N w" and c: "find (\<lambda>c. co_session c = i) (n_coroutines w) = Some c"
    and i: "as_nSessionPoolState (n_sessions w i) = kAcquire" and buf: "buf \<notin> header_buffers w" "buf \<noteq> NULL"
  obtains w' where "goes_away V i w = Inr w'" and "server_step V W w w'"
    and "n_sessions w' = (n_sessions w)(i := closed (n_sessions w i))" and "m_queue (n_pool w') = m_queue (n_pool w) @ [i]"
    and "n_accepting w' = n_accepting w" and "n_coroutines w' = remove1 c (n_coroutines w)"
    and "n_log w' = n_log w @ close_log (n_sessions w i)" and "n_heap w' = n_heap w" and "n_packetQueue w' = n_packetQueue w"
    and "n_writes w' = n_writes w" and "n_wire w' = n_wire w" and "n_user w' = n_user w"
proof -
  let ?v = "received (co_buffer c) [] (w\<lparr>n_coroutines := remove1 c (n_coroutines w)\<rparr>)"
  let ?w = "snd (Close i False ?v)"
  have mem: "c \<in> set (n_coroutines w)" "co_session c = i"
    using c by (auto simp: find_Some_iff)
  have recv: "\<And>b. recv_header V c True [] b [] False w = Inr ?w" "recv_body V c True [] False w = ?w"
    using mem(2) by (simp_all add: recv_header_def ReadHeader_def recv_body_def ReadBody_def Let_def)
  have away: "goes_away V i w = Inr ?w"
    using c recv by (simp add: goes_away_def)
  have step: "server_step V W w ?w"
  proof (cases "co_phase c")
    case Await_Header
    show ?thesis by (rule step_header[OF mem(1) Await_Header _ buf recv(1)]) simp
  next
    case Await_Body
    show ?thesis using step_body[OF mem(1) Await_Body, of "[]" V W True False] recv(2) by simp
  qed
  have "pool_inv N ?v"
    using inv by (subst pool_inv_cong[where w = w]) (simp_all add: received_def)
  from Close_restores[OF this, of i] have pool: "m_queue (n_pool ?w) = m_queue (n_pool w) @ [i]"
    using i by (simp add: Close_pool received_def)
  show thesis
    by (rule that[OF away step _ pool])
      (use i in \<open>simp_all add: Close_session Close_log closed_def received_def\<close>)
qed

text \<open>A session that takes a new connection; \<open>buf\<close> becomes its header buffer if it has none.\<close>

definition accepted :: "addr \<Rightarrow> 'h AsyncSession \<Rightarrow> 'h AsyncSession" where
  "accepted buf s = s\<lparr>as_open := True, as_nSessionPoolState := kAcquire,
     as_szHeaderBuffer := (if as_szHeaderBuffer s = NULL then buf else as_szHeaderBuffer s)\<rparr>"

lemma connects_effect:
  assumes acc: "n_accepting w = Some j" and pool: "m_queue (n_pool w) = k # rest" and buf: "buf \<notin> header_buffers w" "buf \<noteq> NULL"
  obtains w' c es where "connects V buf w = Inr w'" and "server_reachable V W w w'"
    and "n_sessions w' = (n_sessions w)(j := accepted buf (n_sessions w j))" and "m_queue (n_pool w') = rest"
    and "n_accepting w' = Some k" and "n_coroutines w' = n_coroutines w @ [c]" and "co_session c = j" and "co_phase c = Await_Header"
    and "n_log w' = n_log w @ es" and "\<forall>l a. Allocated l a \<in> set es \<longrightarrow> a = buf"
    and "as_szHeaderBuffer (n_sessions w j) \<noteq> NULL \<Longrightarrow> es = []"
    and "\<forall>a. a \<noteq> buf \<longrightarrow> n_heap w' a = n_heap w a" and "n_packetQueue w' = n_packetQueue w"
    and "n_writes w' = n_writes w" and "n_wire w' = n_wire w" and "n_user w' = n_user w"
proof -
  let ?w1 = "accept_done V False buf [] j w" and ?s = "n_sessions w j"
  let ?c = "\<lparr>co_session = j, co_phase = Await_Header, co_buffer = as_szHeaderBuffer (accepted buf ?s),
    co_size = v_GetHeaderSize V (as_spHeader ?s)\<rparr>"
  let ?es = "if as_szHeaderBuffer ?s = NULL then [Allocated (COMMON_POOL_New (v_GetHeaderSize V (as_spHeader ?s))) buf] else []"
  have w1: "n_sessions ?w1 = (n_sessions w)(j := accepted buf ?s)" "n_accepting ?w1 = None" "n_pool ?w1 = n_pool w"
    "n_coroutines ?w1 = n_coroutines w @ [?c]" "n_log ?w1 = n_log w @ ?es" "\<forall>a. a \<noteq> buf \<longrightarrow> n_heap ?w1 a = n_heap w a"
    "n_packetQueue ?w1 = n_packetQueue w" "n_writes ?w1 = n_writes w" "n_wire ?w1 = n_wire w" "n_user ?w1 = n_user w"
    by (simp_all add: accept_done_def Recv_def net_defs accepted_def Let_def)
  define w' where "w' = ?w1\<lparr>n_pool := (n_pool ?w1)\<lparr>m_queue := rest, m_sizeUseCnt := m_sizeUseCnt (n_pool ?w1) + 1\<rparr>, n_accepting := Some k\<rparr>"
  have ready: "accept_ready ?w1 = Inr w'"
    using accept_ready_Cons[of ?w1 k rest] pool w1(3) by (simp add: w'_def)
  have "server_step V W w ?w1" "server_step V W ?w1 w'"
    using step_accept_done[OF acc buf] step_accept_ready[OF w1(2) ready] by blast+
  then have reach: "server_reachable V W w w'"
    by (blast intro: reach_start reach_step)
  show thesis
    by (rule that[OF _ reach, of ?c ?es]) (use acc ready w1 in \<open>simp_all add: connects_def w'_def\<close>)
qed

section \<open>A session gets another connection\<close>

lemma find_session:
  assumes "waiting_inv w" and "c \<in> set (n_coroutines w)"
  shows "find (\<lambda>d. co_session d = co_session c) (n_coroutines w) = Some c"
proof -
  obtain d where d: "find (\<lambda>d. co_session d = co_session c) (n_coroutines w) = Some d"
    using assms(2) by (cases "find (\<lambda>d. co_session d = co_session c) (n_coroutines w)") (auto simp: find_None_iff)
  then have "d \<in> set (n_coroutines w)" "co_session d = co_session c"
    by (auto simp: find_Some_iff)
  then show ?thesis
    using session_waits_once(2)[OF assms] d by simp
qed

lemma find_append: "find P (xs @ ys) = (case find P xs of None \<Rightarrow> find P ys | Some x \<Rightarrow> Some x)"
  by (induction xs) simp_all

lemma find_last:
  assumes "i \<notin> co_session ` set cs" and "co_session c = i"
  shows "find (\<lambda>d. co_session d = i) (cs @ [c]) = Some c" and "remove1 c (cs @ [c]) = cs"
proof -
  have "find (\<lambda>d. co_session d = i) cs = None" "c \<notin> set cs"
    using assms by (auto simp: find_None_iff image_iff)
  then show "find (\<lambda>d. co_session d = i) (cs @ [c]) = Some c" and "remove1 c (cs @ [c]) = cs"
    using assms(2) by (simp_all add: find_append remove1_append)
qed

text \<open>
  The pool has no free session and the acceptor waits with session \<open>j\<close>. The peer of session \<open>i\<close> goes away and
  the next one gets session \<open>j\<close>: the two sessions have changed places.
\<close>

lemma sessions_swap:
  assumes inv: "pool_inv N w" and q: "m_queue (n_pool w) = []" "n_accepting w = Some j"
    and c: "find (\<lambda>c. co_session c = i) (n_coroutines w) = Some c" and i: "as_nSessionPoolState (n_sessions w i) = kAcquire"
    and a: "a \<notin> header_buffers w" "a \<noteq> NULL"
  obtains w' d es where "peers V [Goes_Away i, Connects a] w = Inr w'"
    and "server_reachable V W w w'" and "m_queue (n_pool w') = []" and "n_accepting w' = Some i"
    and "n_sessions w' = (n_sessions w)(i := closed (n_sessions w i), j := accepted a (n_sessions w j))"
    and "n_coroutines w' = remove1 c (n_coroutines w) @ [d]" and "co_session d = j"
    and "n_log w' = n_log w @ close_log (n_sessions w i) @ es" and "\<forall>l x. Allocated l x \<in> set es \<longrightarrow> x = a"
    and "as_szHeaderBuffer (n_sessions w j) \<noteq> NULL \<Longrightarrow> es = []"
    and "\<forall>x. x \<noteq> a \<longrightarrow> n_heap w' x = n_heap w x" and "n_packetQueue w' = n_packetQueue w"
    and "n_writes w' = n_writes w" and "n_wire w' = n_wire w" and "n_user w' = n_user w"
proof -
  have j: "j \<noteq> i"
    using inv q(2) i by (auto simp: pool_inv_def)
  obtain w1 where w1: "goes_away V i w = Inr w1" "server_step V W w w1"
      "n_sessions w1 = (n_sessions w)(i := closed (n_sessions w i))" "m_queue (n_pool w1) = [i]" "n_accepting w1 = Some j"
      "n_coroutines w1 = remove1 c (n_coroutines w)" "n_log w1 = n_log w @ close_log (n_sessions w i)"
      "n_heap w1 = n_heap w" "n_packetQueue w1 = n_packetQueue w" "n_writes w1 = n_writes w" "n_wire w1 = n_wire w" "n_user w1 = n_user w"
    using goes_away_effect[OF inv c i a, where V = V and W = W] q by (metis append_Nil)
  have hb1: "header_buffers w1 = header_buffers w"
    by (rule kept_cong(1)) (simp add: w1(3) closed_def)
  obtain w2 d es where w2: "connects V a w1 = Inr w2" "server_reachable V W w1 w2"
      "n_sessions w2 = (n_sessions w1)(j := accepted a (n_sessions w1 j))" "m_queue (n_pool w2) = []"
      "n_accepting w2 = Some i" "n_coroutines w2 = n_coroutines w1 @ [d]" "co_session d = j"
      "n_log w2 = n_log w1 @ es" "\<forall>l x. Allocated l x \<in> set es \<longrightarrow> x = a"
      "as_szHeaderBuffer (n_sessions w1 j) \<noteq> NULL \<Longrightarrow> es = []" "\<forall>x. x \<noteq> a \<longrightarrow> n_heap w2 x = n_heap w1 x"
      "n_packetQueue w2 = n_packetQueue w1" "n_writes w2 = n_writes w1" "n_wire w2 = n_wire w1" "n_user w2 = n_user w1"
    by (rule connects_effect[OF w1(5,4), of a V W]) (use a hb1 in simp_all)
  have "server_reachable V W w w2"
    using w1(2) w2(2) by (meson reach_start reach_step server_reachable_trans)
  then show thesis
    by (rule that[rotated, of w2 d es]) (use w1 w2 j in simp_all)
qed

text \<open>
  After two swaps the session has its third peer; what it kept from its first one is still there.
\<close>

lemma session_reaccepted:
  assumes books: "books E w" and inv: "pool_inv N w" and q: "m_queue (n_pool w) = []" "n_accepting w = Some j"
    and c: "c \<in> set (n_coroutines w)" and header: "as_szHeaderBuffer (n_sessions w (co_session c)) \<noteq> NULL"
    and a: "a \<notin> header_buffers w" "a \<noteq> NULL" and b: "b \<notin> header_buffers w" "b \<noteq> NULL" "a \<noteq> b"
  obtains w' d es where "peers V [Goes_Away (co_session c), Connects a, Goes_Away j, Connects b] w = Inr w'"
    and "server_reachable V W w w'" and "n_sessions w' (co_session c) = accepted b (closed (n_sessions w (co_session c)))"
    and "find (\<lambda>d. co_session d = co_session c) (n_coroutines w') = Some d"
    and "n_log w' = n_log w @ close_log (n_sessions w (co_session c)) @ es" and "\<forall>l x. Allocated l x \<in> set es \<longrightarrow> x = a"
    and "\<forall>x. x \<noteq> a \<and> x \<noteq> b \<longrightarrow> n_heap w' x = n_heap w x" and "n_packetQueue w' = n_packetQueue w" and "n_writes w' = n_writes w"
    and "n_wire w' = n_wire w" and "n_user w' = n_user w" and "header_buffers w' \<subseteq> insert a (header_buffers w)"
proof -
  let ?i = "co_session c" and ?rest = "remove1 c (n_coroutines w)"
  have w: "waiting_inv w"
    using books by (simp add: books_def)
  have i: "as_nSessionPoolState (n_sessions w ?i) = kAcquire" "find (\<lambda>d. co_session d = ?i) (n_coroutines w) = Some c"
    using waiting_invD(2)[OF w c] find_session[OF w c] by simp_all
  have j: "j \<notin> co_session ` set (n_coroutines w)" "j \<noteq> ?i"
    using inv q(2) i(1) waiting_invD(2)[OF w] by (auto simp: pool_inv_def)
  have body: "as_szBodyBuffer (n_sessions w j) = NULL"
    using j(1) waiting_invD(4)[OF w, of j] by force
  have rest: "j \<notin> co_session ` set ?rest" "?i \<notin> co_session ` set ?rest"
    using session_waits_once(1)[OF w c] j(1) set_remove1_subset[of c "n_coroutines w"] by auto
  obtain w1 d1 es1 where w1: "peers V [Goes_Away ?i, Connects a] w = Inr w1" "server_reachable V W w w1"
      "m_queue (n_pool w1) = []" "n_accepting w1 = Some ?i"
      "n_sessions w1 = (n_sessions w)(?i := closed (n_sessions w ?i), j := accepted a (n_sessions w j))"
      "n_coroutines w1 = ?rest @ [d1]" "co_session d1 = j"
      "n_log w1 = n_log w @ close_log (n_sessions w ?i) @ es1" "\<forall>l x. Allocated l x \<in> set es1 \<longrightarrow> x = a"
      "\<forall>x. x \<noteq> a \<longrightarrow> n_heap w1 x = n_heap w x" "n_packetQueue w1 = n_packetQueue w"
      "n_writes w1 = n_writes w" "n_wire w1 = n_wire w" "n_user w1 = n_user w"
    by (rule sessions_swap[OF inv q i(2,1) a, of V W]) (rule that, assumption+)
  have inv1: "pool_inv N w1"
    using pool_inv_reachable[OF w1(2) inv] .
  have hb1: "header_buffers w1 \<subseteq> insert a (header_buffers w)"
    by (auto simp: header_buffers_def w1(5) closed_def accepted_def)
  then have b1: "b \<notin> header_buffers w1"
    using b by auto
  have state: "as_nSessionPoolState (n_sessions w1 j) = kAcquire" "close_log (n_sessions w1 j) = []"
    "as_szHeaderBuffer (n_sessions w1 ?i) \<noteq> NULL"
    using body header j(2) by (simp_all add: w1(5) accepted_def closed_def close_log_def)
  obtain w2 d2 es2 where w2: "peers V [Goes_Away j, Connects b] w1 = Inr w2" "server_reachable V W w1 w2"
      "n_sessions w2 = (n_sessions w1)(j := closed (n_sessions w1 j), ?i := accepted b (n_sessions w1 ?i))"
      "n_coroutines w2 = remove1 d1 (n_coroutines w1) @ [d2]" "co_session d2 = ?i"
      "n_log w2 = n_log w1 @ close_log (n_sessions w1 j) @ es2" "as_szHeaderBuffer (n_sessions w1 ?i) \<noteq> NULL \<Longrightarrow> es2 = []"
      "\<forall>x. x \<noteq> b \<longrightarrow> n_heap w2 x = n_heap w1 x" "n_packetQueue w2 = n_packetQueue w1"
      "n_writes w2 = n_writes w1" "n_wire w2 = n_wire w1" "n_user w2 = n_user w1"
    by (rule sessions_swap[OF inv1 w1(3,4) find_last(1)[OF rest(1) w1(7), folded w1(6)] state(1) b1 b(2), of V W]) (rule that, assumption+)
  show thesis
  proof (rule that[of w2 d2 es1])
    show "peers V [Goes_Away ?i, Connects a, Goes_Away j, Connects b] w = Inr w2"
      using w1(1) w2(1) by (auto simp: bind_result_eq_Inr_iff)
    show "server_reachable V W w w2"
      by (rule server_reachable_trans[OF w1(2) w2(2)])
    show "find (\<lambda>d. co_session d = ?i) (n_coroutines w2) = Some d2"
      using find_last(1)[OF rest(2) w2(5)] find_last(2)[OF rest(1) w1(7)] by (simp add: w1(6) w2(4))
    show "header_buffers w2 \<subseteq> insert a (header_buffers w)"
      using hb1 state(3) by (auto simp: header_buffers_def w2(3) closed_def accepted_def)
  qed (use w1 w2 state j in simp_all)
qed

text \<open>What is known of a server that has run without failures so far.\<close>

lemma calm_facts:
  assumes "unat n < 2 ^ 31" and "(calm_step E (server_vtbl en) W)\<^sup>*\<^sup>* (started e mb n u) w"
  shows "books E w" and "pool_inv (unat n) w" and "c \<in> set (n_coroutines w) \<Longrightarrow> as_szHeaderBuffer (n_sessions w (co_session c)) \<noteq> NULL"
proof -
  have facts: "books E w" "pool_inv (unat n) w" "server_reachable (server_vtbl en) W (started e mb n u) w"
    using calm_execution[OF assms(2) started_books started_pool_inv] assms(1) by blast+
  then show "books E w" "pool_inv (unat n) w"
    by simp_all
  have "recv_inv (server_vtbl en) good_header w"
    using header_class.recv_inv_reachable[OF server_header.header_class_axioms facts(3) started_recv_inv[OF assms(1)]] .
  then show "c \<in> set (n_coroutines w) \<Longrightarrow> as_szHeaderBuffer (n_sessions w (co_session c)) \<noteq> NULL"
    by (simp add: recv_inv_def coroutine_inv_def)
qed

section \<open>Properties\<close>

text \<open>
  C16. Three peers that connect and go away make the server release a block twice. The server has run without
  failures, has no free session, and is receiving a body for one of its peers. This peer goes away, a
  second one takes the other session and goes away, a third one takes the session of the first and goes
  away before it has sent anything: no allocator, however it started, accepts the calls the server has made.
\<close>

theorem three_peers_release_twice:
  assumes "unat n < 2 ^ 31" and "(calm_step E (server_vtbl en) W)\<^sup>*\<^sup>* (started e mb n u) w"
    and "m_queue (n_pool w) = []" and "n_accepting w = Some j"
    and "c \<in> set (n_coroutines w)" and "co_phase c = Await_Body" and "co_buffer c \<noteq> NULL"
    and "as_sizeOfPrevBodyBuffer (n_sessions w (co_session c)) \<noteq> 0"
    and "a \<notin> header_buffers w" and "a \<noteq> NULL" and "b \<notin> header_buffers w" and "b \<noteq> NULL" and "a \<noteq> b" and "a \<noteq> co_buffer c"
  shows "\<exists>w'. peers (server_vtbl en) [Goes_Away (co_session c), Connects a, Goes_Away j, Connects b, Goes_Away (co_session c)] w = Inr w'
    \<and> server_reachable (server_vtbl en) W w w' \<and> (\<forall>l. ledger_run l (n_log w') = None)"
proof -
  let ?i = "co_session c" and ?V = "server_vtbl en"
  note facts = calm_facts[OF assms(1,2)]
  have body: "as_szBodyBuffer (n_sessions w ?i) = co_buffer c"
    using facts(1) waiting_invD(3)[OF _ assms(5,6)] by (simp add: books_def)
  let ?r = "snd (COMMON_POOL_Delete (co_buffer c) (ucast (ucast (as_sizeOfPrevBodyBuffer (n_sessions w ?i)) :: u32)))"
  have log: "close_log (n_sessions w ?i) = [Released ?r]"
    using assms(7,8) body by (simp add: close_log_def)
  obtain w1 d es where w1: "peers ?V [Goes_Away ?i, Connects a, Goes_Away j, Connects b] w = Inr w1" "server_reachable ?V W w w1"
      "n_sessions w1 ?i = accepted b (closed (n_sessions w ?i))" "find (\<lambda>d. co_session d = ?i) (n_coroutines w1) = Some d"
      "n_log w1 = n_log w @ close_log (n_sessions w ?i) @ es" "\<forall>l x. Allocated l x \<in> set es \<longrightarrow> x = a"
      "header_buffers w1 \<subseteq> insert a (header_buffers w)"
    by (rule session_reaccepted[OF facts(1,2) assms(3,4,5) facts(3)[OF assms(5)] assms(9-13), of ?V W]) (rule that, assumption+)
  have "pool_inv (unat n) w1" "as_nSessionPoolState (n_sessions w1 ?i) = kAcquire" "b \<notin> header_buffers w1"
    using pool_inv_reachable[OF w1(2) facts(2)] w1(3,7) assms(11,13) by (auto simp: accepted_def)
  from goes_away_effect[OF this(1) w1(4) this(2,3) assms(12), of ?V W]
  obtain w2 where w2: "goes_away ?V ?i w1 = Inr w2" "server_step ?V W w1 w2" "n_log w2 = n_log w1 @ close_log (n_sessions w1 ?i)"
    by metis
  have "close_log (n_sessions w1 ?i) = [Released ?r]"
    using assms(7,8) body by (simp add: w1(3) accepted_def closed_def close_log_def)
  then have "n_log w2 = n_log w @ (Released ?r # es @ [Released ?r])"
    using w1(5) w2(3) log by simp
  moreover have "Allocated k (co_buffer c) \<notin> set es" for k
    using w1(6) assms(14) by auto
  ultimately have "ledger_run l (n_log w2) = None" for l
    by (simp only:) (rule ledger_run_refused_tail, rule released_twice_refused, rule Delete_freed, rule Delete_freed)
  moreover have "peers ?V [Goes_Away ?i, Connects a, Goes_Away j, Connects b, Goes_Away ?i] w = Inr w2"
    using w1(1) w2(1) by (auto simp: bind_result_eq_Inr_iff)
  ultimately show ?thesis
    using reach_step[OF w1(2) w2(2)] by blast
qed

theorem three_peers_release_twice_witness:
  "\<exists>w w'. (calm_step False (server_vtbl True) {})\<^sup>*\<^sup>* (started (\<lambda>_. zero_ender) 32768 2 (6 :: i32)) w
     \<and> peers (server_vtbl True) [Goes_Away 0, Connects 8, Goes_Away 1, Connects 10, Goes_Away 0] w = Inr w'
     \<and> ledger_run Map.empty (n_log w') = None"
proof -
  obtain w where w: "(calm_step False (server_vtbl True) {})\<^sup>*\<^sup>* (started (\<lambda>_. zero_ender) 32768 2 (6 :: i32)) w"
    "n_coroutines w = [body_coroutine 0 w]" "as_szBodyBuffer (n_sessions w 0) = 9"
    "as_sizeOfPrevBodyBuffer (n_sessions w 0) \<noteq> 0" "m_queue (n_pool w) = []" "n_accepting w = Some 1" "header_buffers w = {NULL, 7}"
    by (rule pair_receiving)
  have "\<exists>w'. peers (server_vtbl True) [Goes_Away (co_session (body_coroutine 0 w)), Connects 8, Goes_Away 1, Connects 10,
      Goes_Away (co_session (body_coroutine 0 w))] w = Inr w'
    \<and> server_reachable (server_vtbl True) {} w w' \<and> (\<forall>l. ledger_run l (n_log w') = None)"
    by (rule three_peers_release_twice[OF _ w(1,5,6)]) (use w in \<open>simp_all add: body_coroutine_def\<close>)
  then show ?thesis
    using w(1) by (auto simp: body_coroutine_def)
qed

text \<open>
  C15. The answer to a request can reach another client. The server has run without failures and has no free
  session; a request of the peer of session \<open>i\<close> is first in the queue. When this peer goes away, another one
  takes the other session and goes away, and a third one takes session \<open>i\<close> before a worker takes the request,
  the answer of the worker is written to the connection of the third peer.
\<close>

theorem answer_reaches_next_client:
  fixes w :: "(HeaderCCT, i32) Net" and en :: bool and env :: handler_env and i :: nat
  defines "pk \<equiv> PacketWorker_new (HandlerSet en env HandlerManager_new)"
    and "pw \<equiv> \<lparr>pw_session = i, pw_data = he_block env, pw_length = 54\<rparr>"
  assumes "unat n < 2 ^ 31" and "(calm_step E (server_vtbl en) W)\<^sup>*\<^sup>* (started e mb n u) w"
    and "m_queue (n_pool w) = []" and "n_accepting w = Some j" and "c \<in> set (n_coroutines w)" and "co_session c = i"
    and "n_packetQueue w = p # ps" and "pi_session p = i" and "pi_protocolNo p = 101"
    and "unat (pi_sizeOfBuffer p) \<le> length (n_heap w (pi_pBuffer p))"
    and "a \<notin> header_buffers w" and "a \<noteq> NULL" and "b \<notin> header_buffers w" and "b \<noteq> NULL" and "a \<noteq> b"
    and "a \<noteq> pi_pBuffer p" and "b \<noteq> pi_pBuffer p"
    and "he_block env \<notin> insert a (header_buffers w)" and "he_block env \<noteq> NULL" and "wf_ender (he_ender env)" and "pk \<in> W"
  shows "\<exists>w1 w2. peers (server_vtbl en) [Goes_Away i, Connects a, Goes_Away j, Connects b] w = Inr w1
    \<and> as_open (n_sessions w1 i) \<and> PacketWorker_Processing pk w1 = Some (Inr w2) \<and> pw \<in> set (n_writes w2)
    \<and> n_wire (send_completed pw stale False t w2) = n_wire w @ [(i, response_bytes en env (n_user w + 1))]
    \<and> server_reachable (server_vtbl en) W w (send_completed pw stale False t w2)"
proof -
  note facts = calm_facts[OF assms(3,4)]
  obtain w1 where w1: "peers (server_vtbl en) [Goes_Away (co_session c), Connects a, Goes_Away j, Connects b] w = Inr w1"
      "server_reachable (server_vtbl en) W w w1" "n_sessions w1 (co_session c) = accepted b (closed (n_sessions w (co_session c)))"
      "\<forall>x. x \<noteq> a \<and> x \<noteq> b \<longrightarrow> n_heap w1 x = n_heap w x" "n_packetQueue w1 = n_packetQueue w" "n_wire w1 = n_wire w" "n_user w1 = n_user w"
      "header_buffers w1 \<subseteq> insert a (header_buffers w)"
    by (rule session_reaccepted[OF facts(1,2) assms(5,6,7) facts(3)[OF assms(7)] assms(13-17), of "server_vtbl en" W]) (rule that, assumption+)
  obtain w2 where w2: "PacketWorker_Processing_packet pk p (w1\<lparr>n_packetQueue := ps\<rparr>) = Inr w2" "n_writes w2 = n_writes w1 @ [pw]"
    "n_heap w2 = (n_heap w1)(he_block env := response_bytes en env (n_user w + 1))" "n_wire w2 = n_wire w"
    using request_processed[of p "w1\<lparr>n_packetQueue := ps\<rparr>" env en] assms(10-12,18,19,21,22) w1(4,6,7)
    by (auto simp: pk_def pw_def)
  have round: "PacketWorker_Processing pk w1 = Some (Inr w2)"
    using w2(1) w1(5) assms(9) by (simp add: PacketWorker_Processing_def GetPacketInfo_def)
  have "n_wire (send_completed pw stale False t w2) = n_wire w @ [(i, response_bytes en env (n_user w + 1))]"
    unfolding pw_def by (subst response_sent[OF assms(22)]) (simp_all add: w2)
  moreover have "he_block env \<notin> header_buffers w1"
    using assms(20) w1(8) by blast
  then have "server_step (server_vtbl en) W w1 w2"
    using HandlerSet_well_behaved[of env "header_buffers w1" en]
    by (intro step_worker[OF assms(23) _ round]) (simp add: pk_def PacketWorker_new_def SetHandlerManager_def)
  moreover have pw: "pw \<in> set (n_writes w2)"
    by (simp add: w2(2))
  then have "server_step (server_vtbl en) W w2 (send_completed pw stale False t w2)"
    by (rule step_sent)
  moreover have "as_open (n_sessions w1 i)"
    using w1(3) assms(8) by (simp add: accepted_def)
  ultimately show ?thesis
    using w1(1,2) round pw assms(8) by (meson reach_step)
qed

text \<open>
  A message of three bytes has come in for the first of two sessions; the packet waits in the queue and the
  session for the next header.
\<close>

lemma body_queued_goes_on:
  assumes "n_packetQueue (recv_body V c error data t w) \<noteq> n_packetQueue w"
  shows "fst (ReadBody V (co_session c) error (of_nat (length data)) t
    (received (co_buffer c) data (w\<lparr>n_coroutines := remove1 c (n_coroutines w)\<rparr>)))"
  using assms by (auto simp: recv_body_def ReadBody_def received_def Let_def split: if_splits)

lemma pair_request:
  obtains w where "(calm_step E (server_vtbl True) W)\<^sup>*\<^sup>* (started (\<lambda>_. zero_ender) 32768 2 (6 :: i32)) w"
    and "n_packetQueue w = [packet_of 0 short_message]" and "take 3 (n_heap w 9) = [1, 2, 3]"
    and "n_coroutines w = [header_coroutine (server_vtbl True) 0 pair_connected]"
    and "m_queue (n_pool w) = []" and "n_accepting w = Some 1" and "header_buffers w = {NULL, 7}"
proof -
  let ?V = "server_vtbl True" and ?s = "HeaderCCT_new zero_ender"
  obtain v body where v: "(calm_step E ?V W)\<^sup>*\<^sup>* (started (\<lambda>_. zero_ender) 32768 2 (6 :: i32)) v"
    "n_coroutines v = [body_coroutine 0 v]" "n_packetQueue v = []" "length body = unat (co_size (body_coroutine 0 v))"
    "recv_frame ?V 0 (wire_frame True ?s 1 short_message) pair_connected = Inr (recv_body ?V (body_coroutine 0 v) False body False v)"
    by (rule pair_receiving[of E W]) blast
  have wf: "wf_ender (hc_ender ?s)"
    by (simp add: HeaderCCT_new_def zero_ender_def wf_ender_def)
  have fit: "fits (as_sizeOfMaxBuffer (n_sessions pair_connected 0)) short_message"
    "msg_buf short_message \<noteq> as_szHeaderBuffer (n_sessions pair_connected 0)"
    by (simp_all add: pair_connected_facts pair_accepted_facts fits_def short_message_def)
  obtain w where w: "recv_frame ?V 0 (wire_frame True ?s 1 short_message) pair_connected = Inr w"
      "n_packetQueue w = [packet_of 0 short_message]" "take 3 (n_heap w 9) = [1, 2, 3]"
      "mset (n_coroutines w) = mset [header_coroutine ?V 0 pair_connected]"
      "n_pool w = n_pool pair_connected" "n_accepting w = Some 1"
      "\<forall>j. as_szHeaderBuffer (n_sessions w j) = as_szHeaderBuffer (n_sessions pair_connected j)"
    by (rule recv_wire_frame[OF good_header_new wf pair_connected_facts(11) fit, of True 1])
      (auto simp: pair_connected_facts pair_accepted_facts short_message_def numeral_3_eq_3)
  have body: "w = recv_body ?V (body_coroutine 0 v) False body False v"
    using v(5) w(1) by simp
  have "n_packetQueue (recv_body ?V (body_coroutine 0 v) False body False v) \<noteq> n_packetQueue v"
    using v(3) w(2) body by simp
  then have "calm_step E ?V W v w"
    unfolding body by (intro calm_body[OF _ _ _ body_queued_goes_on]) (use v in \<open>simp_all add: body_coroutine_def\<close>)
  with v(1) have "(calm_step E ?V W)\<^sup>*\<^sup>* (started (\<lambda>_. zero_ender) 32768 2 (6 :: i32)) w"
    by (rule rtranclp.rtrancl_into_rtrancl)
  then show thesis
    by (rule that) (use w kept_cong(1)[of w pair_connected] in \<open>simp_all add: pair_connected_facts\<close>)
qed

theorem answer_reaches_next_client_witness:
  "\<exists>w w1 w2. n_packetQueue w = [packet_of 0 short_message]
     \<and> peers (server_vtbl True) [Goes_Away 0, Connects 8, Goes_Away 1, Connects 10] w = Inr w1 \<and> as_open (n_sessions w1 0)
     \<and> PacketWorker_Processing (PacketWorker_new (HandlerSet True (sample_env\<lparr>he_block := 12\<rparr>) HandlerManager_new)) w1 = Some (Inr w2)
     \<and> n_wire (send_completed \<lparr>pw_session = 0, pw_data = 12, pw_length = 54\<rparr> 0 False False w2)
         = n_wire w @ [(0, response_bytes True (sample_env\<lparr>he_block := 12\<rparr>) (n_user w + 1))]"
proof -
  let ?pk = "PacketWorker_new (HandlerSet True (sample_env\<lparr>he_block := 12\<rparr>) HandlerManager_new)"
  obtain w where w: "(calm_step False (server_vtbl True) {?pk})\<^sup>*\<^sup>* (started (\<lambda>_. zero_ender) 32768 2 (6 :: i32)) w"
    "n_packetQueue w = [packet_of 0 short_message]" "take 3 (n_heap w 9) = [1, 2, 3]"
    "n_coroutines w = [header_coroutine (server_vtbl True) 0 pair_connected]"
    "m_queue (n_pool w) = []" "n_accepting w = Some 1" "header_buffers w = {NULL, 7}"
    by (rule pair_request)
  have len: "3 \<le> length (n_heap w 9)"
    using arg_cong[OF w(3), of length] by simp
  have "\<exists>w1 w2. peers (server_vtbl True) [Goes_Away 0, Connects 8, Goes_Away 1, Connects 10] w = Inr w1
    \<and> as_open (n_sessions w1 0) \<and> PacketWorker_Processing ?pk w1 = Some (Inr w2)
    \<and> \<lparr>pw_session = 0, pw_data = he_block (sample_env\<lparr>he_block := 12\<rparr>), pw_length = 54\<rparr> \<in> set (n_writes w2)
    \<and> n_wire (send_completed \<lparr>pw_session = 0, pw_data = he_block (sample_env\<lparr>he_block := 12\<rparr>), pw_length = 54\<rparr> 0 False False w2)
        = n_wire w @ [(0, response_bytes True (sample_env\<lparr>he_block := 12\<rparr>) (n_user w + 1))]
    \<and> server_reachable (server_vtbl True) {?pk} w
        (send_completed \<lparr>pw_session = 0, pw_data = he_block (sample_env\<lparr>he_block := 12\<rparr>), pw_length = 54\<rparr> 0 False False w2)"
    by (rule answer_reaches_next_client[OF _ w(1,5,6), where c = "header_coroutine (server_vtbl True) 0 pair_connected"
          and p = "packet_of 0 short_message" and ps = "[]" and a = 8 and b = 10])
      (use w len sample_env_ok(2) in \<open>simp_all add: header_coroutine_def packet_of_def short_message_def\<close>)
  with w(2) show ?thesis
    by (auto simp del: peers.simps)
qed

end
