(* ===== verification/Map_Container_Copy.thy ===== *)
theory Map_Container_Copy
  imports Map_Container
begin

text \<open>
  The second class template \<open>MapContainer\<close> (include/util/map_container.h). No file includes it, and
  \<open>GetContainer\<close> names the nested type of its result without the class, so that it has to be corrected before
  it compiles; the functions are modelled by their bodies. It interprets the contract of a registry and could
  take the place of the template of include/util/container.h.
\<close>

definition copy_MapContainer_new :: "('k, 'v) container" where
  "copy_MapContainer_new = Map.empty"

definition copy_Find :: "('k, 'v) container \<Rightarrow> 'k \<Rightarrow> 'v option" where
  "copy_Find m_container key = m_container key"

definition copy_Insert :: "('k, 'v) container \<Rightarrow> 'k \<Rightarrow> 'v \<Rightarrow> bool \<times> ('k, 'v) container" where
  "copy_Insert m_container key value =
     (case copy_Find m_container key of
        None \<Rightarrow> (True, m_container(key \<mapsto> value))
      | Some p \<Rightarrow> (False, m_container))"

definition copy_Getvalue :: "('k, 'v) container \<Rightarrow> 'k \<Rightarrow> 'v option" where
  "copy_Getvalue m_container key =
     (case copy_Find m_container key of Some p \<Rightarrow> Some p | None \<Rightarrow> None)"

definition copy_GetContainer :: "('k, 'v) container \<Rightarrow> ('k, 'v) container" where
  "copy_GetContainer m_container = m_container"

text \<open>The variable of the range-based loop is a copy of the element here too.\<close>

definition copy_AllValue :: "(('k, 'v) container \<Rightarrow> ('k \<times> 'v) list) \<Rightarrow> ('k, 'v) container \<Rightarrow> 'k value_ptr list" where
  "copy_AllValue iter m_container = map (\<lambda>value. Loop_Variable) (iter m_container)"

interpretation mcc: registry copy_MapContainer_new copy_Insert copy_Getvalue
  by unfold_locales
    (auto simp: copy_MapContainer_new_def copy_Insert_def copy_Getvalue_def copy_Find_def split: option.splits)

text \<open>After the same insertions both templates find the same values.\<close>

lemma copies_agree:
  "copy_Getvalue (fold (\<lambda>(k, v) c. snd (copy_Insert c k v)) kvs copy_MapContainer_new) k
     = Getvalue (fold (\<lambda>(k, v) c. snd (Insert c k v)) kvs MapContainer_new) k"
  by (simp add: mcc.get_after_registering mc.get_after_registering del: Getvalue_apply)

end
