(* ===== verification/Spec2Isabelle.thy ===== *)
theory Spec2Isabelle
  imports Byte_Order Memory_Manager Common_Pool Object_Pool Handler_Manager Header_Client Skeleton_Server
    Dummy_Server Sync_Client Sync_Session_Pool Protocols Redis_Replies Ring_Buffer Test_Client Tasks
    Calculation Text_Util Stop_Watch DB_Connector Server_Main Hex_Dump Conversation
    Session_Reuse Map_Container_Copy
begin

text \<open>
  A verification library for CustomNetwkrLib, a network server framework in C++ on boost.asio, with a
  sample server, a sample client, generated protocol handlers and a set of utilities.

  \<^bold>\<open>The program.\<close> A server (\<open>SkltServer\<close>) accepts connections and gives each one a session from a pool
  (\<open>AsyncSessionPool\<close> on \<open>SessionPool\<close> on \<open>Pool\<close>). A session (\<open>AsyncSessionImpl\<close>) reads a header and a
  body in a coroutine, with a header class (\<open>Header\<close>, made by \<open>HeaderFactory\<close>; the sample server and
  client implement it as \<open>HeaderCCT\<close>), in buffers from \<open>COMMON_POOL\<close>, and puts the packet into the queue
  of the \<open>PacketWorkerManager\<close>. Workers (\<open>PacketWorker\<close>) take packets from the queue, find the handler
  of the protocol number in the \<open>HandlerManager\<close> (a \<open>MapContainer\<close>), and send what it returns with the
  session. Handlers take requests apart and put responses together with \<open>MEMORY_MANAGER\<close> and
  \<open>BYTE_ORDER\<close>. On the other side, \<open>SyncSession\<close> and \<open>SyncSessionPool\<close> are blocking clients of such a
  server, and \<open>RedisConnector\<close> is a blocking client of a redis server.

  \<^bold>\<open>How it is modelled.\<close> Integers are words of their C++ width and sizes are 64-bit words, so that
  overflow is that of the program; memory is a list of bytes per object, or a heap of such lists
  where blocks are passed on; a copy outside an object, a null pointer, an empty optional and an
  exception that nobody catches are the values of the type \<open>fault\<close>, and operations that can meet them
  return \<open>fault + 'a\<close>. ODBC and the property tree, ini parser and file system of boost are records of
  functions; the laws of ODBC that the program relies on, which depend on the return codes of its
  functions, are the predicate \<open>odbc_laws\<close>, and a driver that has them is given. A failed \<open>BOOST_ASSERT\<close> is a
  fault of programs built with assertions. What the operating system, the network, boost, TBB, ODBC and log4cxx decide is
  an argument or a part of the state: the pieces in which a stream arrives, results of \<open>send\<close> and
  \<open>recv\<close>, the order of completions, return codes, the clock, random numbers, addresses of new blocks
  and the contents of uninitialised variables. Theorems hold for all of these unless they say
  otherwise.

  \<^bold>\<open>The theories\<close>, in the order of their imports, with the files they model.

  \<^item> \<open>Prelude\<close>: machine types, faults, byte memory with \<open>mem_read\<close> and \<open>mem_write\<close>, object
    representations \<open>le_bytes\<close> and \<open>le_word\<close>, size arithmetic. \<open>Decimal\<close>: numbers and literals as text.

  \<^item> \<open>Byte_Order\<close> (src/lib/byte_order.cpp): the twelve conversions. They are the reversal of all bytes
    or the identity, and inverse to each other.

  \<^item> \<open>Memory_Manager\<close> (include/util/memory_manager.h): the four bounded copies. Within the real buffer
    they are safe and transfer all or nothing; what is written is read back; a position near the top
    of the address range defeats the check.

  \<^item> \<open>Common_Pool\<close> (include/util/common_pool.h): which boost pool \<open>New\<close> and \<open>Delete\<close> use, with a ledger
    of live blocks. \<open>Delete\<close> undoes \<open>New\<close> exactly up to 32768 bytes.

  \<^item> \<open>Object_Pool\<close> (include/util/pool.h, include/net/session_pool.h): the pool with its unsigned use count
    and signed queue size. It refines a bounded queue and conserves objects; a waiting thread makes
    it refuse every return.

  \<^item> \<open>Map_Container\<close>, \<open>Handler_Manager\<close> (include/util/container.h, src/lib/handler_manager.cpp): a registry
    that keeps the first value of a key. The locale \<open>registry\<close> states its laws; dispatch goes to the
    handler registered first. \<open>Map_Container_Copy\<close> (include/util/map_container.h): the second copy of the
    template, which interprets the same locale.

  \<^item> \<open>Header_Class\<close> (include/net/header.h, header_factory.h): the virtual functions as a record of
    functions, and the contract \<open>header_class\<close> that sessions rely on. \<open>Header_CCT\<close>, \<open>Header_Client\<close>
    (src/dummyServer/header_cct.*, src/testClient/header_cct.*): the two implementations, every member
    function of each, with the packed layout of the structures; both interpret the contract. Headers stay
    well formed, and a header made by one side is read back by the other.

  \<^item> \<open>Async_Session\<close> (src/lib/async_session_impl.cpp): the receive coroutine cut at its suspension
    points, sending with its completion handler, and closing, over the state \<open>Net\<close> (sessions, heap,
    coroutines, pending writes, packet queue, log of pool calls). \<open>Packet_Worker\<close> (src/lib/packet_worker.cpp,
    packet_worker_manager.cpp): the workers. \<open>Packet_Flow\<close>: messages of a peer arrive in order and
    unchanged when each read delivers what it asks for, a frame that is cut elsewhere closes the
    session, receives stay within their buffers, and who owns a body buffer.

  \<^item> \<open>Hex_Dump\<close> (the same file, \<open>MakeHexCode\<close>): reading a body with its logging, the dump of received packets
    and the size above which it leaves its buffer.

  \<^item> \<open>Skeleton_Server\<close> (src/lib/skeleton_server.cpp, async_session_pool.cpp): accepting, and the whole server
    as a transition system \<open>server_step\<close> over completions of the operating system and rounds of the
    workers, with invariants of its reachable states: the free list and the counts, header buffers,
    sessions lost by a failed accept.

  \<^item> \<open>Dummy_Server\<close> (src/dummyServer/dummyServer.cpp): the handlers of the sample server; a request is
    answered, and a peer understands the answer. \<open>Server_Main\<close> (the same file): the main function with the
    constructor of the server, which puts the logger, the configuration, the header factory, the handlers,
    the workers, the sessions and the acceptor together.

  \<^item> \<open>Buffer_Ownership\<close>: the blocks of \<open>COMMON_POOL\<close> across sessions, queue, workers and writes. The
    executions \<open>calm_step\<close> leave out failed body receives and failed writes on sessions that wait; in them
    every block has one owner and is released once. \<open>Session_Reuse\<close>: runs of peers that connect and go
    away. Three of them make the server release a block twice, so the first restriction is needed
    (\<open>failed_body_then_failed_send_frees_twice\<close> of \<open>Packet_Flow\<close> shows another such run); and, as a packet
    refers to its session, not to the connection it came from, its answer can reach a later client.

  \<^item> \<open>Configure\<close> (src/lib/configure.cpp): reading, writing and changing the settings over boost's property
    tree, and what happens when the file is missing or cannot be parsed.

  \<^item> \<open>Sync_Session\<close>, \<open>Sync_Client\<close>, \<open>Test_Client\<close> (src/lib/sync_session_impl.cpp, sync_session.cpp,
    src/testClient/testClient.cpp): the blocking session over a socket, with the client's header class, and
    the main function of the sample client. Frames whose header arrives with the first piece are received
    whole however the rest is cut; short headers are taken for success and long frames overrun the buffer.
    The sample client itself reads beyond its buffer in its first round.

  \<^item> \<open>Conversation\<close>: the blocking client and the sample server together. Every request of the client goes
    through its \<open>Send\<close>, the server's receive coroutine, queue, worker, handler and write, and the
    client's \<open>Recv\<close>; the sequence of answers is that of an abstract counter. The frames of the requests are
    made with the server's header class: the one of the repository's client writes no header
    (\<open>client_header_not_sent\<close>), and the theorem states how the streams have to be cut.

  \<^item> \<open>Sync_Session_Pool\<close> (src/lib/sync_session_pool.cpp): the pool of connections and its retry loops.
    A request uses the first free session; dead sessions are given up one after the other and the
    loop ends; \<open>Destroy\<close> does not end.

  \<^item> \<open>Protocol_Reader\<close>, \<open>Protocols\<close> (protocol/*.cpp, src/testClient/RequestLogin.cpp): the seven protocol
    handlers with every call of the logger, which is their state. Six of them interpret the locale
    \<open>zero_handler\<close>; what they log, when they report a wrong size, what they answer, and when they end the
    program. The sources do not compile as they are: \<open>LOG_ERROR\<close>, which nothing defines, is a parameter,
    \<open>COMMON_POOL::_new\<close> is taken for \<open>New\<close>, and the value assigned to the undeclared \<open>response_index\<close> is
    dropped. \<open>Logger\<close> (src/lib/logger.cpp): the logging functions, all of which interpret the locale
    \<open>log_function\<close>.

  \<^item> \<open>Redis_Connector\<close>, \<open>Redis_Replies\<close> (src/lib/redis_connector.cpp): the constructors, the functions that
    read replies, and the receive loop. Both constructors dereference a null pointer, so no connector gets
    to receive; the functions themselves read back every reply but null bulk strings, and the loop would
    not end after a bulk string that arrives in two pieces.

  \<^item> \<open>Ring_Buffer\<close> (include/util/buffer.h): \<open>CBuffer\<close> refines a queue of bytes (locale \<open>byte_fifo\<close>).

  \<^item> \<open>Tasks\<close> (include/util/auto_task.h, repeate_task.h), \<open>Calculation\<close> (include/util/calculation.h),
    \<open>Text_Util\<close> (src/lib/string_util.cpp, time_func.cpp, include/util/encoder.h), \<open>Stop_Watch\<close>
    (src/lib/stop_watch.cpp), \<open>DB_Connector\<close> (src/lib/db_connector.cpp): the utilities.

  \<^bold>\<open>Loops.\<close> Loops with a bound in the code recurse on it: five attempts of \<open>send\<close>, the number of
  sessions to create, the bulk strings of a reply. The loop that receives a body ends because every
  round receives something (\<open>body_loop\<close> has a termination proof). The loops of
  \<open>SyncSessionPool::PacketProcess\<close>, \<open>SyncSessionPool::Destroy\<close> and \<open>RedisConnector::Paser\<close> need not end and are
  partial functions whose value \<open>None\<close> means that they do not; that they return, or that they do not,
  is proved as such. The endless loop of a worker is one round of the transition system at a time.

  \<^bold>\<open>Idealisations.\<close> Memory is never exhausted. A write that has completed has written everything or
  failed, and its bytes are together on the wire: the server does start writes of a session before the last
  one has completed, which boost.asio forbids, and what then happens is not modelled. Steps of different
  threads interleave but a handler of a completion runs as a whole, as in the server's single
  \<open>io_service\<close>. Logging is left out except in \<open>Logger\<close>, \<open>Protocols\<close>, \<open>Hex_Dump\<close>, \<open>Configure\<close> and
  \<open>Server_Main\<close>. The size that \<open>CBuffer::Write\<close> asks a plain pointer for, which does not compile, is a
  parameter. The statistics of \<open>Calculation\<close> use real numbers for \<open>double\<close>.

  \<^bold>\<open>Not modelled.\<close> src/lib/header_factory.cpp defines functions a second time that its header has inline; the Visual Studio
  project leaves it out. test/ drives live services
  by hand and uses classes that are not in the repository. include/common.h, library.h, version.h and the
  stdafx files hold macros and include directives only. Destructors that only release memory have no
  effect in the model; those with an effect are definitions (\<open>SyncSessionImpl_destroy\<close>,
  \<open>AutoTask_destroy\<close>, \<open>Pool_destroy\<close>).
\<close>

end
